(* ===== verification/Prelude.thy ===== *)
theory Prelude
  imports Main "HOL-Library.List_Lexorder" "HOL-Library.Char_ord" "HOL-Library.Sublist"
    "HOL-Library.Multiset"
begin

text \<open>
  What every component shares: the model of Go's \<open>error\<close> values and of the
  \<open>(value, error)\<close> result pair, the control-flow combinators that stand for
  \<open>if err != nil { return err }\<close>, and generic lemmas on lists and maps.

  An \<open>error\<close> is a sentinel of package \<open>storage\<close>, a message made by \<open>fmt.Errorf\<close> without
  \<open>%w\<close> (the format and its arguments are kept apart, not rendered), or a message that wraps
  another error with \<open>%w\<close>. A Go function that returns \<open>error\<close> only is a function into
  \<open>error option\<close> (\<open>None\<close> is \<open>nil\<close>); one that returns \<open>(T, error)\<close> is a function into
  \<open>error + T\<close>.
\<close>

section \<open>Errors and results\<close>

datatype error =
    ErrObjectNotFound
  | ErrStorageUnavailable
  | ErrStorageMisconfigured
  | Errorf string "string list"
  | Wrapf string "string list" error

type_synonym 'a res = "error + 'a"

text \<open>\<open>errors.Is\<close>: walk the chain of wrapped errors.\<close>

fun errors_Is :: "error \<Rightarrow> error \<Rightarrow> bool" where
  "errors_Is (Wrapf f as e) target \<longleftrightarrow> Wrapf f as e = target \<or> errors_Is e target"
| "errors_Is e target \<longleftrightarrow> e = target"

named_theorems res_iff \<open>inversion of the result combinators\<close>

text \<open>\<open>if bad { return e }\<close> in a function that returns \<open>error\<close>.\<close>

definition fail_if :: "bool \<Rightarrow> error \<Rightarrow> error option" where
  "fail_if bad e = (if bad then Some e else None)"

text \<open>\<open>if err := a; err != nil { return err }; return b\<close>.\<close>

definition and_then :: "error option \<Rightarrow> error option \<Rightarrow> error option" where
  "and_then a b = (case a of Some e \<Rightarrow> Some e | None \<Rightarrow> b)"

text \<open>\<open>x, err := r; if err != nil { return err }; ...\<close>.\<close>

definition bind_res :: "'a res \<Rightarrow> ('a \<Rightarrow> 'b res) \<Rightarrow> 'b res" where
  "bind_res r f = (case r of Inl e \<Rightarrow> Inl e | Inr x \<Rightarrow> f x)"

text \<open>\<open>if err := a; err != nil { return zero, err }; ...\<close>.\<close>

definition require :: "error option \<Rightarrow> 'a res \<Rightarrow> 'a res" where
  "require a r = (case a of Some e \<Rightarrow> Inl e | None \<Rightarrow> r)"

text \<open>\<open>return zero, fmt.Errorf(f, args, err)\<close> with a \<open>%w\<close> verb.\<close>

definition wrap_res :: "string \<Rightarrow> string list \<Rightarrow> 'a res \<Rightarrow> 'a res" where
  "wrap_res f as r = (case r of Inl e \<Rightarrow> Inl (Wrapf f as e) | Inr x \<Rightarrow> Inr x)"

definition wrap_err :: "string \<Rightarrow> string list \<Rightarrow> error option \<Rightarrow> error option" where
  "wrap_err f as r = map_option (Wrapf f as) r"

text \<open>A loop that appends one result per element and stops at the first error.\<close>

fun map_res :: "('a \<Rightarrow> 'b res) \<Rightarrow> 'a list \<Rightarrow> 'b list res" where
  "map_res f [] = Inr []"
| "map_res f (x # xs) =
     (case f x of Inl e \<Rightarrow> Inl e
      | Inr y \<Rightarrow> (case map_res f xs of Inl e \<Rightarrow> Inl e | Inr ys \<Rightarrow> Inr (y # ys)))"

text \<open>A loop that validates every element and stops at the first error.\<close>

fun each_err :: "('a \<Rightarrow> error option) \<Rightarrow> 'a list \<Rightarrow> error option" where
  "each_err f [] = None"
| "each_err f (x # xs) = and_then (f x) (each_err f xs)"

lemma fail_if_None [simp, res_iff]: "fail_if b e = None \<longleftrightarrow> \<not> b"
  by (simp add: fail_if_def)

lemma fail_if_Some [res_iff]: "fail_if b e = Some e' \<longleftrightarrow> b \<and> e' = e"
  by (auto simp: fail_if_def)

lemma and_then_None [simp, res_iff]: "and_then a b = None \<longleftrightarrow> a = None \<and> b = None"
  by (simp add: and_then_def split: option.split)

lemma and_then_Some [res_iff]:
  "and_then a b = Some e \<longleftrightarrow> a = Some e \<or> (a = None \<and> b = Some e)"
  by (auto simp: and_then_def split: option.split)

lemma and_then_simps [simp]: "and_then (Some e) b = Some e" "and_then None b = b"
  by (simp_all add: and_then_def)

lemma bind_res_Inr [res_iff]: "bind_res r f = Inr y \<longleftrightarrow> (\<exists>x. r = Inr x \<and> f x = Inr y)"
  by (cases r) (simp_all add: bind_res_def)

lemma bind_res_Inl [res_iff]:
  "bind_res r f = Inl e \<longleftrightarrow> r = Inl e \<or> (\<exists>x. r = Inr x \<and> f x = Inl e)"
  by (cases r) (simp_all add: bind_res_def)

lemma bind_res_simps [simp]: "bind_res (Inl e) f = Inl e" "bind_res (Inr x) f = f x"
  by (simp_all add: bind_res_def)

lemma require_Inr [res_iff]: "require a r = Inr x \<longleftrightarrow> a = None \<and> r = Inr x"
  by (simp add: require_def split: option.split)

lemma require_Inl [res_iff]:
  "require a r = Inl e \<longleftrightarrow> a = Some e \<or> (a = None \<and> r = Inl e)"
  by (auto simp: require_def split: option.split)

lemma require_simps [simp]: "require (Some e) r = Inl e" "require None r = r"
  by (simp_all add: require_def)

lemma wrap_res_Inr [simp, res_iff]: "wrap_res f as r = Inr x \<longleftrightarrow> r = Inr x"
  by (cases r) (simp_all add: wrap_res_def)

lemma wrap_res_Inl [res_iff]: "wrap_res f as r = Inl e \<longleftrightarrow> (\<exists>e'. r = Inl e' \<and> e = Wrapf f as e')"
  by (cases r) (auto simp: wrap_res_def)

lemma wrap_res_simps [simp]:
  "wrap_res f as (Inl e) = Inl (Wrapf f as e)" "wrap_res f as (Inr x) = Inr x"
  by (simp_all add: wrap_res_def)

lemma wrap_err_None [simp, res_iff]: "wrap_err f as r = None \<longleftrightarrow> r = None"
  by (simp add: wrap_err_def)

lemma each_err_None [res_iff]: "each_err f xs = None \<longleftrightarrow> (\<forall>x \<in> set xs. f x = None)"
  by (induction xs) auto

lemma map_res_Inr: "map_res f xs = Inr ys \<longleftrightarrow> list_all2 (\<lambda>x y. f x = Inr y) xs ys"
proof (induction xs arbitrary: ys)
  case Nil
  then show ?case by auto
next
  case (Cons x xs)
  show ?case by (cases ys) (auto simp flip: Cons.IH split: sum.splits)
qed

lemma map_res_Inl:
  "map_res f xs = Inl e \<Longrightarrow> \<exists>x \<in> set xs. f x = Inl e"
  by (induction xs) (auto split: sum.splits)

lemma map_res_length: "map_res f xs = Inr ys \<Longrightarrow> length ys = length xs"
  by (auto simp: map_res_Inr dest: list_all2_lengthD)

lemma map_res_total:
  "(\<And>x. x \<in> set xs \<Longrightarrow> f x = Inr (g x)) \<Longrightarrow> map_res f xs = Inr (map g xs)"
  by (induction xs) auto

lemma map_res_mem:
  "map_res f xs = Inr ys \<Longrightarrow> y \<in> set ys \<Longrightarrow> \<exists>x \<in> set xs. f x = Inr y"
  by (induction xs arbitrary: ys) (auto split: sum.splits)

lemma map_res_mem':
  "map_res f xs = Inr ys \<Longrightarrow> x \<in> set xs \<Longrightarrow> \<exists>y \<in> set ys. f x = Inr y"
  by (induction xs arbitrary: ys) (auto split: sum.splits)

lemma map_res_proj:
  assumes "map_res f xs = Inr ys" and "\<And>x y. x \<in> set xs \<Longrightarrow> f x = Inr y \<Longrightarrow> q y = p x"
  shows "map q ys = map p xs"
  using assms by (induction xs arbitrary: ys) (auto split: sum.splits)

section \<open>Lists and maps\<close>

text \<open>Stable sorting by a key (\<open>sort.SliceStable\<close>) keeps sets, multisets and distinctness.\<close>

lemma sum_list_sort_key: "(\<Sum>x \<leftarrow> sort_key k xs. f x) = (\<Sum>x \<leftarrow> xs. (f x :: 'b :: comm_monoid_add))"
  by (metis mset_map mset_sort sum_mset_sum_list)

lemma distinct_map_sort_key [simp]: "distinct (map f (sort_key k xs)) = distinct (map f xs)"
proof -
  have "mset (map f (sort_key k xs)) = mset (map f xs)" by simp
  then show ?thesis by (rule mset_eq_imp_distinct_iff)
qed

lemma map_of_sort_key: "distinct (map fst es) \<Longrightarrow> map_of (sort_key k es) = map_of es"
  by (metis distinct_map_sort_key map_of_inject_set set_sort)

text \<open>A Go map filled by a loop: the last entry with a key wins.\<close>

definition index_by :: "('a \<Rightarrow> 'k) \<Rightarrow> 'a list \<Rightarrow> 'k \<Rightarrow> 'a option" where
  "index_by k xs = map_of (rev (map (\<lambda>x. (k x, x)) xs))"

lemma index_by_Nil [simp]: "index_by k [] = Map.empty"
  by (simp add: index_by_def)

lemma index_by_append1: "index_by k (xs @ [x]) = (index_by k xs)(k x \<mapsto> x)"
  by (simp add: index_by_def)

lemma index_by_Some: "index_by k xs i = Some x \<Longrightarrow> x \<in> set xs \<and> k x = i"
  by (auto simp: index_by_def dest: map_of_SomeD)

lemma index_by_None: "index_by k xs i = None \<longleftrightarrow> i \<notin> k ` set xs"
  by (force simp: index_by_def map_of_eq_None_iff)

lemma index_by_distinct:
  "distinct (map k xs) \<Longrightarrow> x \<in> set xs \<Longrightarrow> index_by k xs (k x) = Some x"
  unfolding index_by_def
  by (rule map_of_is_SomeI) (auto simp: o_def simp flip: rev_map)

lemma sum_list_partition:
  "(\<Sum>x \<leftarrow> xs. f x) = (\<Sum>x \<leftarrow> filter P xs. f x) + (\<Sum>x \<leftarrow> filter (\<lambda>x. \<not> P x) xs. (f x :: 'b :: comm_monoid_add))"
  by (induction xs) (auto simp: ac_simps)

lemma sum_list_mset_cong:
  "mset xs = mset ys \<Longrightarrow> (\<Sum>x \<leftarrow> xs. f x) = (\<Sum>x \<leftarrow> ys. (f x :: 'b :: comm_monoid_add))"
  by (metis mset_map sum_mset_sum_list)

lemma sum_list_set_cong:
  assumes "distinct xs" and "distinct ys" and "set xs = set ys"
  shows "(\<Sum>x \<leftarrow> xs. f x) = (\<Sum>x \<leftarrow> ys. (f x :: 'b :: comm_monoid_add))"
  using assms by (intro sum_list_mset_cong) (simp add: set_eq_iff_mset_eq_distinct)

end
