(* ===== verification/Go_Strings.thy ===== *)
theory Go_Strings
  imports Prelude
begin

text \<open>
  The part of Go's \<open>strings\<close>, \<open>unicode\<close> and \<open>strconv\<close> packages that the program uses.
  A Go string is a sequence of bytes, and so is a \<^typ>\<open>string\<close> of HOL (a list of 8-bit
  \<^typ>\<open>char\<close>s): comparison, prefixes, splitting and lengths agree byte for byte. A
  \<open>range\<close> loop over a Go string decodes UTF-8; \<open>runes\<close> is that decoder, with Go's
  treatment of invalid bytes (code point U+FFFD, one byte consumed).
\<close>

section \<open>Prefixes, suffixes, splitting\<close>

definition HasPrefix :: "string \<Rightarrow> string \<Rightarrow> bool" where
  "HasPrefix s p \<longleftrightarrow> prefix p s"

definition HasSuffix :: "string \<Rightarrow> string \<Rightarrow> bool" where
  "HasSuffix s p \<longleftrightarrow> suffix p s"

definition CutPrefix :: "string \<Rightarrow> string \<Rightarrow> string \<times> bool" where
  "CutPrefix s p = (if HasPrefix s p then (drop (length p) s, True) else (s, False))"

definition TrimPrefix :: "string \<Rightarrow> string \<Rightarrow> string" where
  "TrimPrefix s p = (if HasPrefix s p then drop (length p) s else s)"

definition TrimSuffix :: "string \<Rightarrow> string \<Rightarrow> string" where
  "TrimSuffix s p = (if HasSuffix s p then take (length s - length p) s else s)"

text \<open>\<open>strings.TrimRight(s, "/")\<close>: every trailing occurrence of one byte.\<close>

definition TrimRightByte :: "string \<Rightarrow> char \<Rightarrow> string" where
  "TrimRightByte s c = rev (dropWhile (\<lambda>x. x = c) (rev s))"

text \<open>\<open>strings.Split(s, sep)\<close> for a separator of one byte.\<close>

fun Split :: "string \<Rightarrow> char \<Rightarrow> string list" where
  "Split [] c = [[]]"
| "Split (x # xs) c =
     (if x = c then [] # Split xs c
      else (case Split xs c of [] \<Rightarrow> [[x]] | seg # segs \<Rightarrow> (x # seg) # segs))"

fun Join :: "string list \<Rightarrow> string \<Rightarrow> string" where
  "Join [] sep = []"
| "Join [s] sep = s"
| "Join (s # t # ss) sep = s @ sep @ Join (t # ss) sep"

text \<open>\<open>s[strings.LastIndex(s, c)+1:]\<close>: what follows the last occurrence, or all of \<open>s\<close>.\<close>

definition AfterLast :: "string \<Rightarrow> char \<Rightarrow> string" where
  "AfterLast s c = rev (takeWhile (\<lambda>x. x \<noteq> c) (rev s))"

definition ContainsByte :: "string \<Rightarrow> char \<Rightarrow> bool" where
  "ContainsByte s c \<longleftrightarrow> c \<in> set s"

definition ContainsAny :: "string \<Rightarrow> char list \<Rightarrow> bool" where
  "ContainsAny s cs \<longleftrightarrow> list_ex (\<lambda>c. c \<in> set cs) s"

lemma HasPrefix_iff: "HasPrefix s p \<longleftrightarrow> (\<exists>r. s = p @ r)"
  by (auto simp: HasPrefix_def prefix_def)

lemma CutPrefix_append [simp]: "CutPrefix (p @ r) p = (r, True)"
  by (simp add: CutPrefix_def HasPrefix_def)

lemma CutPrefix_iff: "CutPrefix s p = (r, True) \<longleftrightarrow> s = p @ r"
  by (auto simp: CutPrefix_def HasPrefix_iff split: if_splits)

lemma Split_not_Nil [simp]: "Split s c \<noteq> []"
  by (cases s) (auto split: list.split)

lemma Split_hd_tl: "\<exists>seg segs. Split s c = seg # segs"
  by (cases "Split s c") simp_all

lemma Join_Cons: "Join (s # ss) sep = (if ss = [] then s else s @ sep @ Join ss sep)"
  by (cases ss) simp_all

lemma Join_Split: "Join (Split s c) [c] = s"
proof (induction s)
  case Nil
  then show ?case by simp
next
  case (Cons x xs)
  obtain seg segs where "Split xs c = seg # segs" using Split_hd_tl by blast
  with Cons show ?case by (auto simp: Join_Cons split: if_splits)
qed

lemma Split_no_sep: "seg \<in> set (Split s c) \<Longrightarrow> c \<notin> set seg"
proof (induction s arbitrary: seg)
  case Nil
  then show ?case by simp
next
  case (Cons x xs)
  obtain sg sgs where eq: "Split xs c = sg # sgs" using Split_hd_tl by blast
  with Cons.IH have "c \<notin> set sg" and "\<And>t. t \<in> set sgs \<Longrightarrow> c \<notin> set t" by auto
  with Cons.prems eq show ?case by (auto split: if_splits)
qed

lemma Split_append_sep: "Split (s @ c # t) c = Split s c @ Split t c"
proof (induction s)
  case Nil
  then show ?case by simp
next
  case (Cons x xs)
  obtain sg sgs where eq: "Split xs c = sg # sgs" using Split_hd_tl by blast
  with Cons show ?case by simp
qed

lemma Split_single: "c \<notin> set s \<Longrightarrow> Split s c = [s]"
  by (induction s) auto

lemma AfterLast_no_sep: "c \<notin> set (AfterLast s c)"
  by (auto simp: AfterLast_def dest: set_takeWhileD)

lemma AfterLast_suffix: "suffix (AfterLast s c) s"
  by (metis AfterLast_def rev_rev_ident suffix_to_prefix takeWhile_is_prefix)

section \<open>UTF-8\<close>

text \<open>
  One decoding step: the code point and how many bytes follow the first one
  (\<open>utf8.DecodeRuneInString\<close> returns that number plus one). The accepted ranges of the
  second byte are those of the table in package \<open>unicode/utf8\<close>.
\<close>

definition byte :: "char \<Rightarrow> nat" where
  "byte c = of_char c"

definition rune_error :: nat where
  "rune_error = 65533"

definition cont :: "nat \<Rightarrow> nat \<Rightarrow> nat \<Rightarrow> bool" where
  "cont lo hi b \<longleftrightarrow> lo \<le> b \<and> b \<le> hi"

definition second_range :: "nat \<Rightarrow> nat \<times> nat" where
  "second_range b0 =
     (if b0 = 224 then (160, 191) else if b0 = 237 then (128, 159)
      else if b0 = 240 then (144, 191) else if b0 = 244 then (128, 143) else (128, 191))"

definition in_second :: "nat \<Rightarrow> nat \<Rightarrow> bool" where
  "in_second b0 b1 \<longleftrightarrow> cont (fst (second_range b0)) (snd (second_range b0)) b1"

definition decode2 :: "nat \<Rightarrow> nat list \<Rightarrow> nat \<times> nat" where
  "decode2 b0 bs = (case bs of
       b1 # _ \<Rightarrow> if in_second b0 b1 then ((b0 - 192) * 64 + (b1 - 128), 1) else (rune_error, 0)
     | [] \<Rightarrow> (rune_error, 0))"

definition decode3 :: "nat \<Rightarrow> nat list \<Rightarrow> nat \<times> nat" where
  "decode3 b0 bs = (case bs of
       b1 # b2 # _ \<Rightarrow>
         if in_second b0 b1 \<and> cont 128 191 b2
         then ((b0 - 224) * 4096 + (b1 - 128) * 64 + (b2 - 128), 2) else (rune_error, 0)
     | _ \<Rightarrow> (rune_error, 0))"

definition decode4 :: "nat \<Rightarrow> nat list \<Rightarrow> nat \<times> nat" where
  "decode4 b0 bs = (case bs of
       b1 # b2 # b3 # _ \<Rightarrow>
         if in_second b0 b1 \<and> cont 128 191 b2 \<and> cont 128 191 b3
         then ((b0 - 240) * 262144 + (b1 - 128) * 4096 + (b2 - 128) * 64 + (b3 - 128), 3)
         else (rune_error, 0)
     | _ \<Rightarrow> (rune_error, 0))"

definition decode_rune :: "nat \<Rightarrow> nat list \<Rightarrow> nat \<times> nat" where
  "decode_rune b0 bs =
     (if b0 < 128 then (b0, 0)
      else if 194 \<le> b0 \<and> b0 \<le> 223 then decode2 b0 bs
      else if 224 \<le> b0 \<and> b0 \<le> 239 then decode3 b0 bs
      else if 240 \<le> b0 \<and> b0 \<le> 244 then decode4 b0 bs
      else (rune_error, 0))"

text \<open>The runes of a string, each with the bytes it was decoded from.\<close>

function runes :: "string \<Rightarrow> (nat \<times> string) list" where
  "runes [] = []"
| "runes (c # cs) =
     (let (r, k) = decode_rune (byte c) (map byte (take 3 cs))
      in (r, c # take k cs) # runes (drop k cs))"
  by pat_completeness auto
termination
  by (relation "measure length") auto

definition code_points :: "string \<Rightarrow> nat list" where
  "code_points s = map fst (runes s)"

lemma byte_bound: "byte c < 256"
  by (simp add: byte_def)

lemma runes_concat: "concat (map snd (runes s)) = s"
  by (induction s rule: runes.induct) (auto simp: Let_def split: prod.split)

lemma runes_ascii_Cons: "byte c < 128 \<Longrightarrow> runes (c # cs) = (byte c, [c]) # runes cs"
  by (simp add: decode_rune_def)

lemma runes_ascii:
  "\<forall>c \<in> set s. byte c < 128 \<Longrightarrow> runes s = map (\<lambda>c. (byte c, [c])) s"
  by (induction s) (auto simp: runes_ascii_Cons simp del: runes.simps(2))

lemma runes_Nil_iff [simp]: "runes s = [] \<longleftrightarrow> s = []"
  by (cases s) (auto simp: Let_def split: prod.split)

declare runes.simps(2) [simp del]

section \<open>Character classes and trimming\<close>

text \<open>\<open>unicode.IsControl\<close>: the C0 and C1 controls and DEL.\<close>

definition IsControl :: "nat \<Rightarrow> bool" where
  "IsControl r \<longleftrightarrow> r < 32 \<or> (127 \<le> r \<and> r < 160)"

text \<open>\<open>unicode.IsSpace\<close>: the code points with the White Space property.\<close>

definition IsSpace :: "nat \<Rightarrow> bool" where
  "IsSpace r \<longleftrightarrow> (9 \<le> r \<and> r \<le> 13) \<or> r = 32 \<or> r = 133 \<or> r = 160 \<or> r = 5760 \<or>
     (8192 \<le> r \<and> r \<le> 8202) \<or> r = 8232 \<or> r = 8233 \<or> r = 8239 \<or> r = 8287 \<or> r = 12288"

definition TrimSpace :: "string \<Rightarrow> string" where
  "TrimSpace s =
     (let keep = dropWhile (\<lambda>p. IsSpace (fst p)) (runes s)
      in concat (map snd (rev (dropWhile (\<lambda>p. IsSpace (fst p)) (rev keep)))))"

lemma runes_snd_ne: "p \<in> set (runes s) \<Longrightarrow> snd p \<noteq> []"
  by (induction s rule: runes.induct) (auto simp: Let_def runes.simps(2) split: prod.splits)

lemma TrimSpace_empty_iff: "TrimSpace s = [] \<longleftrightarrow> (\<forall>r \<in> set (code_points s). IsSpace r)"
proof -
  let ?sp = "\<lambda>p :: nat \<times> string. IsSpace (fst p)"
  let ?k = "dropWhile ?sp (runes s)"
  let ?t = "rev (dropWhile ?sp (rev ?k))"
  have ne: "\<forall>p \<in> set ?t. snd p \<noteq> []"
  proof
    fix p assume "p \<in> set ?t"
    then have "p \<in> set (rev ?k)" by (metis set_dropWhileD set_rev)
    then show "snd p \<noteq> []" by (metis runes_snd_ne set_dropWhileD set_rev)
  qed
  have concat_ne: "concat (map snd xs) = [] \<longleftrightarrow> xs = []" if "\<forall>p \<in> set xs. snd p \<noteq> []"
    for xs :: "(nat \<times> string) list"
    using that by (cases xs) auto
  have "TrimSpace s = [] \<longleftrightarrow> dropWhile ?sp (rev ?k) = []"
    unfolding TrimSpace_def Let_def concat_ne [OF ne] by simp
  also have "\<dots> \<longleftrightarrow> (\<forall>p \<in> set ?k. ?sp p)" by (auto simp: dropWhile_eq_Nil_conv)
  also have "\<dots> \<longleftrightarrow> ?k = []"
    using hd_dropWhile [of ?sp "runes s"]
    by (metis (no_types, lifting) empty_iff hd_in_set list.set(1))
  also have "\<dots> \<longleftrightarrow> (\<forall>r \<in> set (code_points s). IsSpace r)"
    by (simp add: dropWhile_eq_Nil_conv code_points_def)
  finally show ?thesis .
qed

section \<open>Case\<close>

definition lower_byte :: "nat \<Rightarrow> nat" where
  "lower_byte b = (if 65 \<le> b \<and> b \<le> 90 then b + 32 else b)"

text \<open>
  \<open>strings.EqualFold(s, t)\<close> for an ASCII string \<open>t\<close> without \<open>k\<close> and \<open>s\<close>: those two are
  the only ASCII letters with a non-ASCII code point in their case-folding orbit, so equality
  under folding is equality of the ASCII lower case.
\<close>

definition EqualFold :: "string \<Rightarrow> string \<Rightarrow> bool" where
  "EqualFold s t \<longleftrightarrow> map (lower_byte \<circ> byte) s = map (lower_byte \<circ> byte) t"

section \<open>Decimal numbers\<close>

definition digit_char :: "nat \<Rightarrow> char" where
  "digit_char d = char_of (48 + d)"

fun digits_of :: "nat \<Rightarrow> string" where
  "digits_of n = (if n < 10 then [digit_char n] else digits_of (n div 10) @ [digit_char (n mod 10)])"

declare digits_of.simps [simp del]

text \<open>\<open>strconv.Itoa\<close> and the verb \<open>%d\<close>.\<close>

definition Itoa :: "int \<Rightarrow> string" where
  "Itoa i = (if i < 0 then CHR ''-'' # digits_of (nat (- i)) else digits_of (nat i))"

definition is_digit :: "char \<Rightarrow> bool" where
  "is_digit c \<longleftrightarrow> 48 \<le> byte c \<and> byte c \<le> 57"

definition digit_val :: "char \<Rightarrow> nat" where
  "digit_val c = byte c - 48"

definition digits_val :: "string \<Rightarrow> int" where
  "digits_val s = foldl (\<lambda>x c. x * 10 + int (digit_val c)) 0 s"

lemma byte_digit_char: "d < 10 \<Longrightarrow> byte (digit_char d) = 48 + d"
  by (simp add: byte_def digit_char_def)

lemma is_digit_digit_char [simp]: "d < 10 \<Longrightarrow> is_digit (digit_char d)"
  by (simp add: is_digit_def byte_digit_char)

lemma digit_val_digit_char [simp]: "d < 10 \<Longrightarrow> digit_val (digit_char d) = d"
  by (simp add: digit_val_def byte_digit_char)

lemma digits_val_append1 [simp]: "digits_val (s @ [c]) = digits_val s * 10 + int (digit_val c)"
  by (simp add: digits_val_def)

lemma digits_val_digits_of: "digits_val (digits_of n) = int n"
proof (induction n rule: digits_of.induct)
  case (1 n)
  show ?case
  proof (cases "n < 10")
    case True
    then show ?thesis by (simp add: digits_of.simps [of n] digits_val_def)
  next
    case False
    then have "digits_val (digits_of n) = int (n div 10) * 10 + int (n mod 10)"
      using 1 by (simp add: digits_of.simps [of n])
    also have "\<dots> = int (n div 10 * 10 + n mod 10)" by (simp only: of_nat_add of_nat_mult of_nat_numeral)
    also have "\<dots> = int n" by (simp only: div_mult_mod_eq)
    finally show ?thesis .
  qed
qed

lemma digits_of_digits: "c \<in> set (digits_of n) \<Longrightarrow> is_digit c"
proof (induction n rule: digits_of.induct)
  case (1 n)
  then show ?case
    by (cases "n < 10") (auto simp: digits_of.simps [of n])
qed

lemma digits_of_ne [simp]: "digits_of n \<noteq> []"
  by (subst digits_of.simps) simp

end
