(* ===== verification/Codec.thy ===== *)
theory Codec
  imports Main
begin

text \<open>
  The interface of a text encoding, which the catalog's columns, the recorded results, the timestamps and
  the plan's digest rely on: on the values that are \<open>ok\<close>, decoding what was encoded gives the value
  back up to \<open>norm\<close> (a timestamp keeps its seconds, a metadata map its entries in key order). An exact codec
  loses nothing, so its texts identify the values.
\<close>

locale codec =
  fixes enc :: "'a \<Rightarrow> 't" and dec :: "'t \<Rightarrow> 'a option" and ok :: "'a \<Rightarrow> bool" and norm :: "'a \<Rightarrow> 'a"
  assumes decodes: "ok x \<Longrightarrow> dec (enc x) = Some (norm x)"
begin

lemma same_text: "ok x \<Longrightarrow> ok y \<Longrightarrow> enc x = enc y \<Longrightarrow> norm x = norm y"
  using decodes by (metis option.inject)

lemma decodes_all: "list_all ok xs \<Longrightarrow> map (dec \<circ> enc) xs = map (Some \<circ> norm) xs"
  by (simp add: decodes list_all_iff)

end

locale exact_codec =
  fixes enc :: "'a \<Rightarrow> 't" and dec :: "'t \<Rightarrow> 'a option" and ok :: "'a \<Rightarrow> bool"
  assumes reads_exactly: "ok x \<Longrightarrow> dec (enc x) = Some x"
begin

lemma text_eq_iff: "ok x \<Longrightarrow> ok y \<Longrightarrow> enc x = enc y \<longleftrightarrow> x = y"
  using reads_exactly by (metis option.inject)

end

sublocale exact_codec \<subseteq> codec enc dec ok "\<lambda>x. x"
  by unfold_locales (rule reads_exactly)

end
