(* ===== verification/Go_Time.thy ===== *)
theory Go_Time
  imports Go_Strings Codec
begin

text \<open>
  The part of package \<open>time\<close> the program uses. A \<open>time.Time\<close> in UTC is the number of
  nanoseconds since 0001-01-01T00:00:00Z, so the zero \<open>Time\<close> is 0. A \<open>time.Duration\<close> is a
  signed 64-bit number of nanoseconds: \<open>Sub\<close> saturates and negation wraps around, as in Go.
  \<open>FormatRFC3339\<close> and \<open>ParseRFC3339\<close> are \<open>Format\<close> and \<open>Parse\<close> with the layout
  \<open>time.RFC3339\<close> (the parser accepts RFC 3339 itself, not the deviations from it that
  \<open>time.Parse\<close> tolerates). \<open>ParseRFC3339_Format\<close> is the round trip: formatting drops the
  fraction of a second and nothing else.
\<close>

section \<open>Instants and durations\<close>

type_synonym time = int
type_synonym duration = int

definition second :: int where "second = 1000000000"
definition max_duration :: int where "max_duration = 9223372036854775807"
definition min_duration :: int where "min_duration = - 9223372036854775808"

definition IsZero :: "time \<Rightarrow> bool" where "IsZero t \<longleftrightarrow> t = 0"
definition After :: "time \<Rightarrow> time \<Rightarrow> bool" where "After t u \<longleftrightarrow> u < t"

definition Sub :: "time \<Rightarrow> time \<Rightarrow> duration" where
  "Sub t u =
     (let d = t - u in
      if min_duration \<le> d \<and> d \<le> max_duration then d
      else if t < u then min_duration else max_duration)"

text \<open>\<open>-d\<close> on \<open>int64\<close>: the most negative value is its own negation.\<close>

definition neg_duration :: "duration \<Rightarrow> duration" where
  "neg_duration d = (if d = min_duration then min_duration else - d)"

section \<open>The civil calendar\<close>

definition is_leap :: "int \<Rightarrow> bool" where
  "is_leap y \<longleftrightarrow> y mod 4 = 0 \<and> (y mod 100 \<noteq> 0 \<or> y mod 400 = 0)"

definition month_days :: "int \<Rightarrow> int list" where
  "month_days y = [31, if is_leap y then 29 else 28, 31, 30, 31, 30, 31, 31, 30, 31, 30, 31]"

text \<open>Days from 0001-01-01 to the first of January of a year.\<close>

definition year_start :: "int \<Rightarrow> int" where
  "year_start y = 365 * (y - 1) + (y - 1) div 4 - (y - 1) div 100 + (y - 1) div 400"

definition year_of_day :: "int \<Rightarrow> int" where
  "year_of_day d =
     (let g = 400 * d div 146097 in
      if year_start (g + 2) \<le> d then g + 2 else if year_start (g + 1) \<le> d then g + 1 else g)"

fun month_of :: "int list \<Rightarrow> int \<Rightarrow> int \<times> int" where
  "month_of [] r = (1, r + 1)"
| "month_of (l # ls) r =
     (if r < l then (1, r + 1) else (case month_of ls (r - l) of (m, d) \<Rightarrow> (m + 1, d)))"

definition civil_of_day :: "int \<Rightarrow> int \<times> int \<times> int" where
  "civil_of_day d =
     (let y = year_of_day d; (m, dd) = month_of (month_days y) (d - year_start y) in (y, m, dd))"

definition day_of_civil :: "int \<Rightarrow> int \<Rightarrow> int \<Rightarrow> int" where
  "day_of_civil y m d = year_start y + sum_list (take (nat (m - 1)) (month_days y)) + d - 1"

lemma div_pred:
  fixes k y :: int
  assumes "1 < k"
  shows "y div k = (y - 1) div k + (if y mod k = 0 then 1 else 0)"
proof (cases "y mod k = 0")
  case True
  have "y - 1 = k * (y div k - 1) + (k - 1)"
    using True mult_div_mod_eq [of k y] by (simp add: algebra_simps)
  then have "(y - 1) div k = y div k - 1"
    by (rule int_div_pos_eq) (use assms in simp_all)
  with True show ?thesis by simp
next
  case False
  have r: "0 < y mod k" "y mod k < k"
    using False assms pos_mod_bound [of k y] pos_mod_sign [of k y] by linarith+
  have "y - 1 = k * (y div k) + (y mod k - 1)"
    using mult_div_mod_eq [of k y] by (simp add: algebra_simps)
  then have "(y - 1) div k = y div k"
    using r by (intro int_div_pos_eq [of _ k _ "y mod k - 1"]) auto
  with False show ?thesis by simp
qed

lemma div_bounds:
  fixes n k :: int
  assumes "0 < k"
  shows "k * (n div k) \<le> n" "n < k * (n div k) + k"
  using mult_div_mod_eq [of k n] pos_mod_bound [OF assms, of n] pos_mod_sign [OF assms, of n] by linarith+

lemma leap_sum:
  fixes s :: int
  shows "(b \<Longrightarrow> a) \<Longrightarrow> (c \<Longrightarrow> b) \<Longrightarrow>
    s + 365 + (if a then 1 else 0) - (if b then 1 else 0) + (if c then 1 else 0)
      = s + (if a \<and> (\<not> b \<or> c) then 366 else 365)"
  by (cases a; cases b; cases c) simp_all

lemma year_start_Suc: "year_start (y + 1) = year_start y + (if is_leap y then 366 else 365)"
proof -
  have m: "y mod 100 = 0 \<Longrightarrow> y mod 4 = 0" "y mod 400 = 0 \<Longrightarrow> y mod 100 = 0"
    using dvd_trans [of 4 100 y] dvd_trans [of 100 400 y] by (simp_all flip: dvd_eq_mod_eq_0)
  have d: "y div 4 = (y - 1) div 4 + (if y mod 4 = 0 then 1 else 0)"
    "y div 100 = (y - 1) div 100 + (if y mod 100 = 0 then 1 else 0)"
    "y div 400 = (y - 1) div 400 + (if y mod 400 = 0 then 1 else 0)"
    by (rule div_pred, simp)+
  have "year_start (y + 1) = 365 * y + y div 4 - y div 100 + y div 400"
    by (simp add: year_start_def)
  also have "\<dots> = year_start y + 365 + (if y mod 4 = 0 then 1 else 0)
      - (if y mod 100 = 0 then 1 else 0) + (if y mod 400 = 0 then 1 else 0)"
    unfolding d year_start_def by (simp add: algebra_simps)
  also have "\<dots> = year_start y + (if is_leap y then 366 else 365)"
    unfolding is_leap_def by (rule leap_sum [OF m])
  finally show ?thesis .
qed

lemma year_start_bounds:
  "400 * year_start y \<le> 146097 * (y - 1) + 400" "146097 * (y - 1) - 800 < 400 * year_start y"
proof -
  note b = div_bounds [of 4 "y - 1"] div_bounds [of 100 "y - 1"] div_bounds [of 400 "y - 1"]
  from b show "400 * year_start y \<le> 146097 * (y - 1) + 400"
    unfolding year_start_def by simp
  from b show "146097 * (y - 1) - 800 < 400 * year_start y"
    unfolding year_start_def by simp
qed

lemma year_of_day_bounds:
  "year_start (year_of_day d) \<le> d \<and> d < year_start (year_of_day d + 1)"
proof -
  define g where "g = 400 * d div 146097"
  have "146097 * g \<le> 400 * d" "400 * d < 146097 * (g + 1)"
    using div_bounds [of 146097 "400 * d"] by (simp_all add: g_def)
  then have "year_start g \<le> d" "d < year_start (g + 3)"
    using year_start_bounds [of g] year_start_bounds [of "g + 3"] by simp_all
  then show ?thesis by (simp add: year_of_day_def Let_def g_def [symmetric] add.assoc)
qed

lemma month_of_bounds:
  assumes "\<forall>l \<in> set ls. 0 < l" and "0 \<le> r" and "r < sum_list ls" and "month_of ls r = (m, d)"
  shows "1 \<le> m \<and> m \<le> int (length ls) \<and> 1 \<le> d \<and> d \<le> ls ! nat (m - 1)
    \<and> sum_list (take (nat (m - 1)) ls) + d - 1 = r"
  using assms
proof (induction ls arbitrary: r m d)
  case Nil
  then show ?case by simp
next
  case (Cons l ls)
  show ?case
  proof (cases "r < l")
    case True
    with Cons.prems show ?thesis by auto
  next
    case False
    obtain m' d' where md: "month_of ls (r - l) = (m', d')" by fastforce
    with Cons.prems False have m: "m = m' + 1" "d = d'" by auto
    have "1 \<le> m' \<and> m' \<le> int (length ls) \<and> 1 \<le> d' \<and> d' \<le> ls ! nat (m' - 1)
        \<and> sum_list (take (nat (m' - 1)) ls) + d' - 1 = r - l"
      using Cons.prems False md by (intro Cons.IH) auto
    moreover from this have "nat m' = Suc (nat (m' - 1))" by linarith
    ultimately show ?thesis by (simp add: m)
  qed
qed

lemma month_days_sum: "sum_list (month_days y) = (if is_leap y then 366 else 365)"
  by (simp add: month_days_def)

lemma length_month_days [simp]: "length (month_days y) = 12"
  by (simp add: month_days_def)

lemma month_days_bounds: "l \<in> set (month_days y) \<Longrightarrow> 0 < l \<and> l \<le> 31"
  by (auto simp: month_days_def split: if_splits)

text \<open>Every day has a civil date, within the calendar's ranges, that leads back to it.\<close>

lemma civil_of_day_spec:
  assumes "civil_of_day n = (y, m, d)"
  shows "y = year_of_day n" "1 \<le> m" "m \<le> 12" "1 \<le> d" "d \<le> month_days y ! nat (m - 1)"
    "d \<le> 31" "day_of_civil y m d = n"
proof -
  from assms show y: "y = year_of_day n" by (auto simp: civil_of_day_def Let_def split: prod.splits)
  have md: "month_of (month_days y) (n - year_start y) = (m, d)"
    using assms by (auto simp: civil_of_day_def Let_def split: prod.splits)
  have "0 \<le> n - year_start y" "n - year_start y < sum_list (month_days y)"
    using year_of_day_bounds [of n] by (auto simp: y month_days_sum year_start_Suc)
  from month_of_bounds [OF _ this md] have
    b: "1 \<le> m \<and> m \<le> 12 \<and> 1 \<le> d \<and> d \<le> month_days y ! nat (m - 1)
      \<and> sum_list (take (nat (m - 1)) (month_days y)) + d - 1 = n - year_start y"
    by (auto dest: month_days_bounds)
  then show "1 \<le> m" "m \<le> 12" "1 \<le> d" "d \<le> month_days y ! nat (m - 1)" "day_of_civil y m d = n"
    by (auto simp: day_of_civil_def)
  have "month_days y ! nat (m - 1) \<in> set (month_days y)" using b by (intro nth_mem) auto
  with b show "d \<le> 31" by (meson month_days_bounds order_trans)
qed

lemma year_start_mono: "y \<le> z \<Longrightarrow> year_start y \<le> year_start z"
  by (induction z rule: int_ge_induct) (auto simp: year_start_Suc split: if_splits)

lemma year_of_day_ge: "year_start y \<le> d \<Longrightarrow> y \<le> year_of_day d"
  using year_of_day_bounds [of d] year_start_mono [of "year_of_day d + 1" y] by linarith

lemma year_of_day_less: "d < year_start y \<Longrightarrow> year_of_day d < y"
  using year_of_day_bounds [of d] year_start_mono [of y "year_of_day d"] by linarith

section \<open>RFC 3339\<close>

definition two_digits :: "int \<Rightarrow> string" where
  "two_digits n = [digit_char (nat n div 10), digit_char (nat n mod 10)]"

text \<open>The year field is zero-padded to four digits; a longer year keeps all of them.\<close>

definition year_digits :: "int \<Rightarrow> string" where
  "year_digits y =
     (let s = digits_of (nat \<bar>y\<bar>)
      in (if y < 0 then ''-'' else []) @ replicate (4 - length s) (CHR ''0'') @ s)"

definition FormatRFC3339 :: "time \<Rightarrow> string" where
  "FormatRFC3339 t =
     (let s = t div second; n = s div 86400; r = s mod 86400; (y, m, d) = civil_of_day n
      in year_digits y @ ''-'' @ two_digits m @ ''-'' @ two_digits d @ ''T'' @
         two_digits (r div 3600) @ '':'' @ two_digits (r div 60 mod 60) @ '':'' @
         two_digits (r mod 60) @ ''Z'')"

text \<open>A field of decimal digits within a range (\<open>parseUint\<close> in \<open>time/format_rfc3339.go\<close>).\<close>

definition parse_uint :: "string \<Rightarrow> int \<Rightarrow> int \<Rightarrow> int option" where
  "parse_uint s lo hi =
     (if list_all is_digit s \<and> lo \<le> digits_val s \<and> digits_val s \<le> hi
      then Some (digits_val s) else None)"

definition char_at :: "string \<Rightarrow> nat \<Rightarrow> char \<Rightarrow> bool" where
  "char_at s i c \<longleftrightarrow> i < length s \<and> s ! i = c"

definition field :: "string \<Rightarrow> nat \<Rightarrow> nat \<Rightarrow> string" where
  "field s i j = take (j - i) (drop i s)"

text \<open>The fraction of a second: at most nine digits count.\<close>

definition parse_fraction :: "string \<Rightarrow> int \<times> string" where
  "parse_fraction s =
     (if 2 \<le> length s \<and> char_at s 0 (CHR ''.'') \<and> is_digit (s ! 1)
      then let ds = takeWhile is_digit (drop 1 s); ns = take 9 ds
           in (digits_val (ns @ replicate (9 - length ns) (CHR ''0'')),
               drop (Suc (length ds)) s)
      else (0, s))"

text \<open>The zone, as the number of seconds east of UTC.\<close>

definition parse_zone :: "string \<Rightarrow> int option" where
  "parse_zone s =
     (if s = ''Z'' then Some 0
      else if length s = 6 \<and> (char_at s 0 (CHR ''-'') \<or> char_at s 0 (CHR ''+'')) \<and> char_at s 3 (CHR '':'')
      then (case (parse_uint (field s 1 3) 0 23, parse_uint (field s 4 6) 0 59) of
          (Some hr, Some mm) \<Rightarrow>
            Some (if char_at s 0 (CHR ''-'') then - ((hr * 60 + mm) * 60) else (hr * 60 + mm) * 60)
        | _ \<Rightarrow> None)
      else None)"

definition date_time :: "string \<Rightarrow> (int \<times> int) option" where
  "date_time s =
     (case (parse_uint (field s 0 4) 0 9999, parse_uint (field s 5 7) 1 12) of
        (Some y, Some m) \<Rightarrow>
          (case (parse_uint (field s 8 10) 1 (month_days y ! nat (m - 1)),
                 parse_uint (field s 11 13) 0 23, parse_uint (field s 14 16) 0 59,
                 parse_uint (field s 17 19) 0 59) of
             (Some d, Some hh, Some mi, Some ss) \<Rightarrow>
               if char_at s 4 (CHR ''-'') \<and> char_at s 7 (CHR ''-'') \<and> char_at s 10 (CHR ''T'')
                 \<and> char_at s 13 (CHR '':'') \<and> char_at s 16 (CHR '':'')
               then Some (day_of_civil y m d, hh * 3600 + mi * 60 + ss) else None
           | _ \<Rightarrow> None)
      | _ \<Rightarrow> None)"

definition ParseRFC3339 :: "string \<Rightarrow> time option" where
  "ParseRFC3339 s =
     (if length s < 19 then None
      else case date_time (take 19 s) of
        None \<Rightarrow> None
      | Some (n, r) \<Rightarrow>
          (case parse_fraction (drop 19 s) of (ns, rest) \<Rightarrow>
             (case parse_zone rest of
                None \<Rightarrow> None
              | Some z \<Rightarrow> Some ((n * 86400 + r - z) * second + ns))))"

lemma parse_two_digits:
  "0 \<le> n \<Longrightarrow> n < 100 \<Longrightarrow> lo \<le> n \<Longrightarrow> n \<le> hi \<Longrightarrow> parse_uint (two_digits n) lo hi = Some n"
proof -
  assume n: "0 \<le> n" "n < 100" "lo \<le> n" "n \<le> hi"
  then have d: "nat n div 10 < 10" "nat n mod 10 < 10" by auto
  then have "digits_val (two_digits n) = int (nat n div 10) * 10 + int (nat n mod 10)"
    by (simp add: two_digits_def digits_val_def)
  also have "\<dots> = int (nat n div 10 * 10 + nat n mod 10)" by (simp only: of_nat_add of_nat_mult of_nat_numeral)
  also have "\<dots> = n" using n by (simp only: div_mult_mod_eq)
  finally show ?thesis using n d by (simp add: parse_uint_def two_digits_def)
qed

lemma length_two_digits [simp]: "length (two_digits n) = 2"
  by (simp add: two_digits_def)

lemma digits_val_zeros: "digits_val (replicate k (CHR ''0'') @ s) = digits_val s"
  by (induction k) (auto simp: digits_val_def digit_val_def byte_def)

lemma length_digits_of_le: "n < 10 ^ k \<Longrightarrow> 0 < k \<Longrightarrow> length (digits_of n) \<le> k"
proof (induction k arbitrary: n)
  case 0
  then show ?case by simp
next
  case (Suc k)
  show ?case
  proof (cases "n < 10")
    case True
    then show ?thesis by (subst digits_of.simps) simp
  next
    case False
    with Suc.prems have "k > 0" by (cases k) auto
    moreover have "n div 10 < 10 ^ k" using Suc.prems by (simp add: less_mult_imp_div_less mult.commute)
    ultimately have "length (digits_of (n div 10)) \<le> k" using Suc.IH by blast
    with False show ?thesis by (subst digits_of.simps) simp
  qed
qed

lemma year_digits_spec:
  assumes "0 \<le> y" "y \<le> 9999"
  shows "length (year_digits y) = 4" "parse_uint (year_digits y) 0 9999 = Some y"
proof -
  have len: "length (digits_of (nat y)) \<le> 4"
    using assms by (intro length_digits_of_le) auto
  then show "length (year_digits y) = 4"
    using assms by (simp add: year_digits_def Let_def)
  have "is_digit (CHR ''0'')" by (simp add: is_digit_def byte_def)
  then have "list_all is_digit (year_digits y)"
    using assms by (auto simp: year_digits_def Let_def list_all_iff dest: digits_of_digits)
  moreover have "digits_val (year_digits y) = y"
    using assms by (simp add: year_digits_def Let_def digits_val_zeros digits_val_digits_of)
  ultimately show "parse_uint (year_digits y) 0 9999 = Some y"
    using assms by (simp add: parse_uint_def)
qed

text \<open>The instants whose year has four digits.\<close>

definition year_ok :: "time \<Rightarrow> bool" where
  "year_ok t \<longleftrightarrow> year_start 0 \<le> t div second div 86400 \<and> t div second div 86400 < year_start 10000"

lemma date_time_fields:
  assumes "length ys = 4" "parse_uint ys 0 9999 = Some y" "1 \<le> m" "m \<le> 12" "1 \<le> d"
    "d \<le> month_days y ! nat (m - 1)" "d \<le> 31" "0 \<le> h" "h < 24" "0 \<le> mi" "mi < 60" "0 \<le> s" "s < 60"
  shows "date_time (ys @ ''-'' @ two_digits m @ ''-'' @ two_digits d @ ''T'' @ two_digits h @
      '':'' @ two_digits mi @ '':'' @ two_digits s) = Some (day_of_civil y m d, h * 3600 + mi * 60 + s)"
  using assms
  by (simp add: date_time_def field_def char_at_def nth_append numeral_eq_Suc parse_two_digits)

lemma parse_fraction_Z: "parse_fraction ''Z'' = (0, ''Z'')"
  by (simp add: parse_fraction_def)

lemma ParseRFC3339_Z:
  "length s = 19 \<Longrightarrow> date_time s = Some (n, r) \<Longrightarrow> ParseRFC3339 (s @ ''Z'') = Some ((n * 86400 + r) * second)"
  by (simp add: ParseRFC3339_def parse_fraction_Z parse_zone_def)

lemma hms: "(r :: int) div 3600 * 3600 + r div 60 mod 60 * 60 + r mod 60 = r"
proof -
  have "r div 3600 = r div 60 div 60" by (simp add: zdiv_zmult2_eq [symmetric])
  moreover have "q * 3600 + m * 60 = (q * 60 + m) * 60" for q m :: int by simp
  ultimately have "r div 3600 * 3600 + r div 60 mod 60 * 60 = (r div 60 div 60 * 60 + r div 60 mod 60) * 60"
    by (simp only:)
  also have "\<dots> = r div 60 * 60" by (simp only: div_mult_mod_eq)
  finally show ?thesis by simp
qed

text \<open>
  Formatting and parsing back gives the instant truncated to the second, for every instant
  whose year has four digits (year 0 to 9999).
\<close>

lemma ParseRFC3339_Format:
  assumes "year_ok t"
  shows "ParseRFC3339 (FormatRFC3339 t) = Some (t div second * second)"
proof -
  define n r where "n = t div second div 86400" and "r = t div second mod 86400"
  obtain y m d where c: "civil_of_day n = (y, m, d)" by (cases "civil_of_day n") auto
  note spec = civil_of_day_spec [OF c]
  have y: "0 \<le> y" "y \<le> 9999"
    using assms year_of_day_ge [of 0 n] year_of_day_less [of n 10000]
    by (auto simp: spec(1) year_ok_def n_def)
  have r: "0 \<le> r" "r < 86400" by (simp_all add: r_def)
  then have "r div 3600 < 24" by (simp add: div_less_iff_less_mult)
  then have dt: "date_time (year_digits y @ ''-'' @ two_digits m @ ''-'' @ two_digits d @ ''T'' @
      two_digits (r div 3600) @ '':'' @ two_digits (r div 60 mod 60) @ '':'' @ two_digits (r mod 60))
      = Some (n, r)"
    using date_time_fields [OF year_digits_spec [OF y] spec(2-6),
        of "r div 3600" "r div 60 mod 60" "r mod 60"] r spec(7)
    by (simp add: hms)
  have "FormatRFC3339 t = (year_digits y @ ''-'' @ two_digits m @ ''-'' @ two_digits d @ ''T'' @
      two_digits (r div 3600) @ '':'' @ two_digits (r div 60 mod 60) @ '':'' @ two_digits (r mod 60)) @ ''Z''"
    by (simp add: FormatRFC3339_def Let_def n_def [symmetric] r_def [symmetric] c)
  moreover have "n * 86400 + r = t div second" by (simp add: n_def r_def)
  ultimately show ?thesis
    using ParseRFC3339_Z [OF _ dt] year_digits_spec(1) [OF y] by simp
qed

lemma trunc_second: "0 \<le> t - t div second * second" "t - t div second * second < second"
  by (simp_all add: minus_div_mult_eq_mod second_def)

interpretation timestamps: codec FormatRFC3339 ParseRFC3339 year_ok "\<lambda>t. t div second * second"
  by unfold_locales (rule ParseRFC3339_Format)

end
