(* ===== verification/Json.thy ===== *)
theory Json
  imports Go_Strings Codec "HOL-Library.AList"
begin

text \<open>
  The part of \<open>encoding/json\<close> the program relies on: \<open>Marshal\<close> on the values it stores (objects
  in field order, map keys sorted, HTML-safe string escapes, invalid UTF-8 written as U+FFFD) and
  \<open>Unmarshal\<close>. Numbers are integers, as in every type the program encodes; a number with a
  fraction or an exponent is refused, as decoding it into a Go integer is. The parser recurses on
  fuel; \<open>Unmarshal\<close> gives it more than the length of the text, and \<open>Unmarshal_Marshal\<close> shows
  that this is enough for every encoded value whose strings are valid UTF-8.
\<close>

section \<open>Values and encoding\<close>

datatype json =
    JNull
  | JBool bool
  | JNum int
  | JStr string
  | JArr "json list"
  | JObj "(string \<times> json) list"

definition hex_digit :: "nat \<Rightarrow> char" where
  "hex_digit d = (if d < 10 then char_of (48 + d) else char_of (87 + d))"

definition u_escape :: "nat \<Rightarrow> string" where
  "u_escape r = CHR 0x5C # CHR ''u'' #
     [hex_digit (r div 4096 mod 16), hex_digit (r div 256 mod 16), hex_digit (r div 16 mod 16), hex_digit (r mod 16)]"

definition short_escapes :: "(nat \<times> char) list" where
  "short_escapes = [(34, CHR 0x22), (92, CHR 0x5C), (8, CHR ''b''), (12, CHR ''f''),
     (10, CHR ''n''), (13, CHR ''r''), (9, CHR ''t'')]"

definition escape_rune :: "nat \<times> string \<Rightarrow> string" where
  "escape_rune p = (case p of (r, bs) \<Rightarrow>
     (case map_of short_escapes r of
        Some c \<Rightarrow> [CHR 0x5C, c]
      | None \<Rightarrow>
          if r < 32 \<or> r = 60 \<or> r = 62 \<or> r = 38 \<or> r = 8232 \<or> r = 8233
             \<or> (r = rune_error \<and> length bs = 1)
          then u_escape r else bs))"

definition quote :: "string \<Rightarrow> string" where
  "quote s = CHR 0x22 # concat (map escape_rune (runes s)) @ [CHR 0x22]"

fun encode :: "json \<Rightarrow> string" where
  "encode JNull = ''null''"
| "encode (JBool b) = (if b then ''true'' else ''false'')"
| "encode (JNum i) = Itoa i"
| "encode (JStr s) = quote s"
| "encode (JArr js) = ''['' @ Join (map encode js) '','' @ '']''"
| "encode (JObj kvs) = ''{'' @ Join (map (\<lambda>(k, v). quote k @ '':'' @ encode v) kvs) '','' @ ''}''"

definition Marshal :: "json \<Rightarrow> string" where
  "Marshal j = encode j"

section \<open>Decoding\<close>

definition hex_val :: "char \<Rightarrow> nat option" where
  "hex_val c =
     (let b = byte c in
      if 48 \<le> b \<and> b \<le> 57 then Some (b - 48)
      else if 97 \<le> b \<and> b \<le> 102 then Some (b - 87)
      else if 65 \<le> b \<and> b \<le> 70 then Some (b - 55) else None)"

fun hex4 :: "string \<Rightarrow> (nat \<times> string) option" where
  "hex4 (a # b # c # d # rest) =
     (case (hex_val a, hex_val b, hex_val c, hex_val d) of
        (Some w, Some x, Some y, Some z) \<Rightarrow> Some (w * 4096 + x * 256 + y * 16 + z, rest)
      | _ \<Rightarrow> None)"
| "hex4 _ = None"

text \<open>\<open>utf8.AppendRune\<close>: surrogates and values out of range become U+FFFD.\<close>

definition utf8_encode :: "nat \<Rightarrow> string" where
  "utf8_encode r0 =
     (let r = (if 1114111 < r0 \<or> (55296 \<le> r0 \<and> r0 \<le> 57343) then rune_error else r0) in
      if r < 128 then [char_of r]
      else if r < 2048 then [char_of (192 + r div 64), char_of (128 + r mod 64)]
      else if r < 65536
      then [char_of (224 + r div 4096), char_of (128 + r div 64 mod 64), char_of (128 + r mod 64)]
      else [char_of (240 + r div 262144), char_of (128 + r div 4096 mod 64),
            char_of (128 + r div 64 mod 64), char_of (128 + r mod 64)])"

definition short_unescape :: "char \<Rightarrow> char option" where
  "short_unescape c =
     map_of [(CHR 0x22, CHR 0x22), (CHR 0x5C, CHR 0x5C), (CHR ''/'', CHR ''/''), (CHR ''b'', CHR 0x08),
       (CHR ''f'', CHR 0x0C), (CHR ''n'', CHR 0x0A), (CHR ''r'', CHR 0x0D), (CHR ''t'', CHR 0x09)] c"

text \<open>After \<open>\\u\<close>: one code unit, or a surrogate pair; a lone surrogate is U+FFFD.\<close>

definition parse_u :: "string \<Rightarrow> (string \<times> string) option" where
  "parse_u s = (case hex4 s of
       None \<Rightarrow> None
     | Some (r, rest) \<Rightarrow>
         if 55296 \<le> r \<and> r \<le> 57343
         then (case rest of
             b # u # rest1 \<Rightarrow>
               (if b = CHR 0x5C \<and> u = CHR ''u''
                then (case hex4 rest1 of
                    Some (r2, rest2) \<Rightarrow>
                      if r \<le> 56319 \<and> 56320 \<le> r2 \<and> r2 \<le> 57343
                      then Some (utf8_encode ((r - 55296) * 1024 + (r2 - 56320) + 65536), rest2)
                      else Some (utf8_encode rune_error, rest)
                  | None \<Rightarrow> Some (utf8_encode rune_error, rest))
                else Some (utf8_encode rune_error, rest))
           | _ \<Rightarrow> Some (utf8_encode rune_error, rest))
         else Some (utf8_encode r, rest))"

lemma hex4_length: "hex4 s = Some (r, rest) \<Longrightarrow> length rest < length s"
  by (induction s rule: hex4.induct) (auto split: option.splits)

lemma parse_u_length: "parse_u s = Some (x, rest) \<Longrightarrow> length rest < length s"
  by (auto simp: parse_u_def split: option.splits if_splits list.splits dest!: hex4_length)

text \<open>The text of a string after its opening quote: its value and what follows the closing quote.\<close>

function parse_chars :: "string \<Rightarrow> (string \<times> string) option" where
  "parse_chars [] = None"
| "parse_chars (c # cs) =
     (if c = CHR 0x22 then Some ([], cs)
      else if c = CHR 0x5C then
        (case cs of
           [] \<Rightarrow> None
         | e # es \<Rightarrow>
             if e = CHR ''u''
             then (case parse_u es of
                 None \<Rightarrow> None
               | Some (x, rest) \<Rightarrow>
                   (case parse_chars rest of None \<Rightarrow> None | Some (s, r) \<Rightarrow> Some (x @ s, r)))
             else (case short_unescape e of
                 None \<Rightarrow> None
               | Some x \<Rightarrow> (case parse_chars es of None \<Rightarrow> None | Some (s, r) \<Rightarrow> Some (x # s, r))))
      else if byte c < 32 then None
      else (let (r, k) = decode_rune (byte c) (map byte (take 3 cs));
                bs = (if r = rune_error \<and> k = 0 then utf8_encode rune_error else c # take k cs)
            in (case parse_chars (drop k cs) of None \<Rightarrow> None | Some (s, t) \<Rightarrow> Some (bs @ s, t))))"
  by pat_completeness auto
termination
  by (relation "measure length") (auto dest: parse_u_length)

definition is_ws :: "char \<Rightarrow> bool" where
  "is_ws c \<longleftrightarrow> c = CHR 0x20 \<or> c = CHR 0x09 \<or> c = CHR 0x0A \<or> c = CHR 0x0D"

definition skip_ws :: "string \<Rightarrow> string" where
  "skip_ws s = dropWhile is_ws s"

definition num_tail :: "char \<Rightarrow> bool" where
  "num_tail c \<longleftrightarrow> is_digit c \<or> c = CHR ''.'' \<or> c = CHR ''e'' \<or> c = CHR ''E''"

definition parse_num :: "string \<Rightarrow> (json \<times> string) option" where
  "parse_num s =
     (let neg = (s \<noteq> [] \<and> hd s = CHR ''-''); t = (if neg then tl s else s);
          ds = takeWhile is_digit t; r = dropWhile is_digit t
      in if ds = [] \<or> (1 < length ds \<and> hd ds = CHR ''0'') \<or> (r \<noteq> [] \<and> num_tail (hd r)) then None
         else Some (JNum (if neg then - digits_val ds else digits_val ds), r))"

fun parse_value :: "nat \<Rightarrow> string \<Rightarrow> (json \<times> string) option"
  and parse_elems :: "nat \<Rightarrow> string \<Rightarrow> (json list \<times> string) option"
  and parse_members :: "nat \<Rightarrow> string \<Rightarrow> ((string \<times> json) list \<times> string) option"
where
  "parse_value 0 s = None"
| "parse_value (Suc n) s =
     (case skip_ws s of
        [] \<Rightarrow> None
      | c # cs \<Rightarrow>
          if c = CHR 0x22 then map_option (\<lambda>(x, r). (JStr x, r)) (parse_chars cs)
          else if c = CHR ''['' then
            (if HasPrefix (skip_ws cs) '']'' then Some (JArr [], tl (skip_ws cs))
             else map_option (\<lambda>(js, r). (JArr js, r)) (parse_elems n cs))
          else if c = CHR ''{'' then
            (if HasPrefix (skip_ws cs) ''}'' then Some (JObj [], tl (skip_ws cs))
             else map_option (\<lambda>(kvs, r). (JObj kvs, r)) (parse_members n cs))
          else if HasPrefix (c # cs) ''null'' then Some (JNull, drop 4 (c # cs))
          else if HasPrefix (c # cs) ''true'' then Some (JBool True, drop 4 (c # cs))
          else if HasPrefix (c # cs) ''false'' then Some (JBool False, drop 5 (c # cs))
          else parse_num (c # cs))"
| "parse_elems 0 s = None"
| "parse_elems (Suc n) s =
     (case parse_value n s of
        None \<Rightarrow> None
      | Some (j, r) \<Rightarrow>
          (case skip_ws r of
             [] \<Rightarrow> None
           | c # r' \<Rightarrow>
               if c = CHR '']'' then Some ([j], r')
               else if c = CHR '','' then map_option (\<lambda>(js, t). (j # js, t)) (parse_elems n r')
               else None))"
| "parse_members 0 s = None"
| "parse_members (Suc n) s =
     (case skip_ws s of
        [] \<Rightarrow> None
      | q # s' \<Rightarrow>
          if q \<noteq> CHR 0x22 then None
          else (case parse_chars s' of
              None \<Rightarrow> None
            | Some (k, s1) \<Rightarrow>
                (case skip_ws s1 of
                   [] \<Rightarrow> None
                 | colon # s2 \<Rightarrow>
                     if colon \<noteq> CHR '':'' then None
                     else (case parse_value n s2 of
                         None \<Rightarrow> None
                       | Some (j, r) \<Rightarrow>
                           (case skip_ws r of
                              [] \<Rightarrow> None
                            | c # r' \<Rightarrow>
                                if c = CHR ''}'' then Some ([(k, j)], r')
                                else if c = CHR '',''
                                then map_option (\<lambda>(kvs, t). ((k, j) # kvs, t)) (parse_members n r')
                                else None)))))"

definition Unmarshal :: "string \<Rightarrow> json option" where
  "Unmarshal s = (case parse_value (Suc (length s)) s of
       None \<Rightarrow> None | Some (j, r) \<Rightarrow> if skip_ws r = [] then Some j else None)"

section \<open>Strings round-trip\<close>

definition valid_utf8 :: "string \<Rightarrow> bool" where
  "valid_utf8 s \<longleftrightarrow> list_all (\<lambda>(r, bs). \<not> (r = rune_error \<and> length bs = 1)) (runes s)"

declare parse_chars.simps(2) [simp del]

lemma decode_rune_k: "decode_rune b bs = (r, k) \<Longrightarrow> k \<le> length bs \<and> k \<le> 3"
  by (auto simp: decode_rune_def decode2_def decode3_def decode4_def split: if_splits list.splits)

lemma decode_rune_ext:
  assumes "decode_rune b bs = (r, k)" and "\<not> (r = rune_error \<and> k = 0)"
  shows "decode_rune b (take k bs @ xs) = (r, k)"
  using assms
  by (auto simp: decode_rune_def decode2_def decode3_def decode4_def split: if_splits list.splits)

lemma decode_rune_take:
  assumes "decode_rune b (map byte (take 3 cs)) = (r, k)" and "\<not> (r = rune_error \<and> k = 0)"
  shows "decode_rune b (map byte (take 3 (take k cs @ t))) = (r, k)" "k \<le> length cs" "k \<le> 3"
proof -
  have k: "k \<le> length (take 3 cs)" "k \<le> 3" using decode_rune_k [OF assms(1)] by auto
  then show "k \<le> length cs" and "k \<le> 3" by auto
  have "map byte (take 3 (take k cs @ t)) = take k (map byte (take 3 cs)) @ map byte (take (3 - k) t)"
    using k(2) \<open>k \<le> length cs\<close> by (cases "k = length cs") (simp_all add: take_map min_absorb1)
  then show "decode_rune b (map byte (take 3 (take k cs @ t))) = (r, k)"
    using decode_rune_ext [OF assms] by simp
qed

lemma decode_ascii:
  assumes "decode_rune (byte c) (map byte (take 3 cs)) = (r, k)" and "r < 128"
  shows "byte c = r \<and> k = 0"
  using assms
  by (auto simp: decode_rune_def decode2_def decode3_def decode4_def in_second_def second_range_def
      cont_def rune_error_def split: if_splits list.splits)

lemma decode_high:
  assumes "decode_rune (byte c) (map byte (take 3 cs)) = (r, k)" and "128 \<le> r"
  shows "128 \<le> byte c"
  using assms by (auto simp: decode_rune_def split: if_splits)

lemma hex_val_hex_digit: "d < 16 \<Longrightarrow> hex_val (hex_digit d) = Some d"
  by (auto simp: hex_val_def hex_digit_def byte_def)

lemma hex4_u_escape: "r < 65536 \<Longrightarrow> hex4 (drop 2 (u_escape r) @ t) = Some (r, t)"
proof -
  assume "r < 65536"
  then have "r div 4096 < 16" by (simp add: less_mult_imp_div_less)
  moreover have "r div 256 = r div 4096 * 16 + r div 256 mod 16"
    using div_mult_mod_eq [of "r div 256" 16] by (simp only: div_mult2_eq [symmetric]) simp
  moreover have "r div 16 = r div 256 * 16 + r div 16 mod 16"
    using div_mult_mod_eq [of "r div 16" 16] by (simp only: div_mult2_eq [symmetric]) simp
  moreover have "r = r div 16 * 16 + r mod 16" by simp
  ultimately have "r div 4096 mod 16 * 4096 + r div 256 mod 16 * 256 + r div 16 mod 16 * 16 + r mod 16 = r"
    by (simp only: mod_less)
  then show ?thesis
    using \<open>r div 4096 < 16\<close> by (simp add: u_escape_def hex_val_hex_digit)
qed

lemma char_of_byte: "char_of (byte c) = c"
  by (simp add: byte_def)

lemma parse_chars_u_escape:
  assumes "r < 55296"
  shows "parse_chars (u_escape r @ t) =
    (case parse_chars t of None \<Rightarrow> None | Some (s, u) \<Rightarrow> Some (utf8_encode r @ s, u))"
proof -
  have u: "u_escape r @ t = CHR 0x5C # CHR ''u'' # (drop 2 (u_escape r) @ t)"
    by (simp add: u_escape_def)
  have "parse_u (drop 2 (u_escape r) @ t) = Some (utf8_encode r, t)"
    using assms by (simp add: parse_u_def hex4_u_escape)
  then show ?thesis unfolding u by (subst parse_chars.simps(2)) simp
qed

lemma short_escapes_invert:
  "list_all (\<lambda>(r, e). e \<noteq> CHR ''u'' \<and> short_unescape e = Some (char_of r)) short_escapes"
  by code_simp

lemma parse_chars_short:
  "map_of short_escapes r = Some e \<Longrightarrow> parse_chars (CHR 0x5C # e # t) =
    (case parse_chars t of None \<Rightarrow> None | Some (s, u) \<Rightarrow> Some (char_of r # s, u))"
proof -
  assume "map_of short_escapes r = Some e"
  then have "(r, e) \<in> set short_escapes" by (rule map_of_SomeD)
  then have "e \<noteq> CHR ''u'' \<and> short_unescape e = Some (char_of r)"
    using short_escapes_invert by (auto simp: list_all_iff)
  then show ?thesis by (subst parse_chars.simps(2)) simp
qed

lemma line_separator:
  assumes "decode_rune (byte c) (map byte (take 3 cs)) = (r, k)" and "r = 8232 \<or> r = 8233"
  shows "utf8_encode r = c # take k cs"
proof -
  from assms obtain b1 b2 where b: "224 \<le> byte c" "byte c \<le> 239" "k = 2"
      "map byte (take 3 cs) = b1 # b2 # drop 2 (map byte (take 3 cs))"
      "128 \<le> b1" "b1 < 192" "128 \<le> b2" "b2 < 192"
      "(byte c - 224) * 4096 + (b1 - 128) * 64 + (b2 - 128) = r"
    by (auto simp: decode_rune_def decode2_def decode3_def decode4_def in_second_def second_range_def
        cont_def rune_error_def split: if_splits list.splits)
  have c226: "byte c = 226" using b assms(2) by linarith
  then have "(b1 - 128) * 64 + (b2 - 128) = r - 8192" using b(9) by simp
  moreover from this have "(b1 - 128) * 64 < 64" using assms(2) by linarith
  then have "b1 - 128 = 0" by simp
  ultimately have num: "byte c = 226" "b1 = 128" "b2 = r - 8064" using c226 b(5,7) assms(2) by auto
  from b(4) obtain c1 c2 cs' where cs: "cs = c1 # c2 # cs'" "byte c1 = b1" "byte c2 = b2"
    by (cases cs; cases "tl cs") auto
  have "c = char_of (226 :: nat)" "c1 = char_of (128 :: nat)" "c2 = char_of (r - 8064)"
    using num cs char_of_byte by metis+
  then show ?thesis using assms(2) b(3) cs by (auto simp: utf8_encode_def)
qed

text \<open>One decoded rune of a valid string, escaped, is read back as its own bytes.\<close>

lemma parse_chars_chunk:
  assumes dec: "decode_rune (byte c) (map byte (take 3 cs)) = (r, k)"
    and ok: "\<not> (r = rune_error \<and> k = 0)"
  shows "parse_chars (escape_rune (r, c # take k cs) @ t) =
    (case parse_chars t of None \<Rightarrow> None | Some (s, u) \<Rightarrow> Some (c # take k cs @ s, u))"
proof -
  note len = decode_rune_take(2) [OF dec ok]
  have not_err: "\<not> (r = rune_error \<and> length (c # take k cs) = 1)" using ok len by auto
  have low: "byte c = r \<and> k = 0 \<and> char_of r = c" if "r < 128"
    using decode_ascii [OF dec that] char_of_byte [of c] by auto
  show ?thesis
  proof (cases "map_of short_escapes r")
    case (Some e)
    then have "r < 128" by (auto simp: short_escapes_def split: if_splits)
    with low Some show ?thesis
      by (simp add: escape_rune_def parse_chars_short split: option.split)
  next
    case None
    show ?thesis
    proof (cases "r < 32 \<or> r = 60 \<or> r = 62 \<or> r = 38 \<or> r = 8232 \<or> r = 8233")
      case True
      then have esc: "escape_rune (r, c # take k cs) = u_escape r"
        using None by (auto simp: escape_rune_def)
      have "utf8_encode r = c # take k cs"
      proof (cases "r < 128")
        case True
        with low show ?thesis by (simp add: utf8_encode_def)
      next
        case False
        with True have "r = 8232 \<or> r = 8233" by auto
        then show ?thesis using line_separator [OF dec] by simp
      qed
      then show ?thesis
        unfolding esc using True by (subst parse_chars_u_escape) (auto split: option.split)
    next
      case False
      then have esc: "escape_rune (r, c # take k cs) = c # take k cs"
        using None not_err len by (auto simp: escape_rune_def min_absorb2)
      have "c \<noteq> CHR 0x22 \<and> c \<noteq> CHR 0x5C \<and> 32 \<le> byte c"
      proof (cases "r < 128")
        case True
        have "r \<noteq> 34 \<and> r \<noteq> 92" using None by (auto simp: short_escapes_def)
        with low [OF True] False show ?thesis by (auto simp: byte_def)
      next
        case hi: False
        with decode_high [OF dec] show ?thesis by (auto simp: byte_def)
      qed
      then show ?thesis
        unfolding esc append_Cons
        by (subst parse_chars.simps(2))
          (use decode_rune_take(1) [OF dec ok, of t] ok len in \<open>auto simp: Let_def split: option.split\<close>)
    qed
  qed
qed

lemma parse_chars_escaped:
  "valid_utf8 s \<Longrightarrow> parse_chars (concat (map escape_rune (runes s)) @ CHR 0x22 # rest) = Some (s, rest)"
proof (induction s rule: runes.induct)
  case 1
  show ?case by (simp add: parse_chars.simps(2))
next
  case (2 c cs)
  obtain r k where dec: "decode_rune (byte c) (map byte (take 3 cs)) = (r, k)" by fastforce
  have runes: "runes (c # cs) = (r, c # take k cs) # runes (drop k cs)"
    by (simp add: runes.simps(2) dec)
  have v: "\<not> (r = rune_error \<and> k = 0)" "valid_utf8 (drop k cs)"
    using "2.prems" by (auto simp: valid_utf8_def runes)
  have "parse_chars (concat (map escape_rune (runes (drop k cs))) @ CHR 0x22 # rest) = Some (drop k cs, rest)"
    using "2.IH" [OF dec [symmetric]] v(2) dec by auto
  with parse_chars_chunk [OF dec v(1)] show ?case by (simp add: runes)
qed

lemma parse_quoted:
  "valid_utf8 s \<Longrightarrow> parse_chars (tl (quote s) @ rest) = Some (s, rest)"
  using parse_chars_escaped by (simp add: quote_def)

lemma quote_Cons: "quote s = CHR 0x22 # tl (quote s)"
  by (simp add: quote_def)

section \<open>Numbers round-trip\<close>

lemma digits_of_hd: "0 < n \<Longrightarrow> hd (digits_of n) \<noteq> CHR ''0''"
proof (induction n rule: digits_of.induct)
  case (1 n)
  show ?case
  proof (cases "n < 10")
    case True
    with "1.prems" have "byte (digit_char n) \<noteq> byte (CHR ''0'')"
      by (simp add: byte_digit_char) (simp add: byte_def)
    then have "digit_char n \<noteq> CHR ''0''" by auto
    with True show ?thesis by (simp add: digits_of.simps [of n])
  next
    case False
    then have "hd (digits_of n) = hd (digits_of (n div 10))" by (subst digits_of.simps) simp
    with False "1.IH" show ?thesis by simp
  qed
qed

lemma digits_of_not_minus: "hd (digits_of n) \<noteq> CHR ''-''"
proof -
  have "is_digit (hd (digits_of n))" using digits_of_digits [of _ n] by (simp add: hd_in_set)
  then show ?thesis by (auto simp: is_digit_def byte_def)
qed

definition number_ends :: "string \<Rightarrow> bool" where
  "number_ends rest \<longleftrightarrow> rest = [] \<or> \<not> num_tail (hd rest)"

lemma takeWhile_digits:
  assumes "number_ends rest"
  shows "takeWhile is_digit (digits_of n @ rest) = digits_of n"
    "dropWhile is_digit (digits_of n @ rest) = rest"
proof -
  have all: "\<forall>c \<in> set (digits_of n). is_digit c" using digits_of_digits by blast
  have "rest = [] \<or> \<not> is_digit (hd rest)"
    using assms by (auto simp: number_ends_def num_tail_def)
  then show "takeWhile is_digit (digits_of n @ rest) = digits_of n"
    "dropWhile is_digit (digits_of n @ rest) = rest"
    using all by (cases rest; simp add: takeWhile_append2 dropWhile_append2)+
qed

lemma digits_of_no_zero: "\<not> (1 < length (digits_of n) \<and> hd (digits_of n) = CHR ''0'')"
proof (cases "n = 0")
  case True
  then show ?thesis by (simp add: digits_of.simps)
qed (use digits_of_hd in blast)

lemma parse_num_Itoa: "number_ends rest \<Longrightarrow> parse_num (Itoa i @ rest) = Some (JNum i, rest)"
  using takeWhile_digits [of rest] digits_of_no_zero digits_of_not_minus
  by (auto simp: parse_num_def Itoa_def Let_def digits_val_digits_of number_ends_def)

section \<open>Values round-trip\<close>

text \<open>All strings of a value, object keys included, are valid UTF-8.\<close>

fun valid_json :: "json \<Rightarrow> bool" where
  "valid_json (JStr s) = valid_utf8 s"
| "valid_json (JArr js) = list_all valid_json js"
| "valid_json (JObj kvs) = list_all (\<lambda>(k, v). valid_utf8 k \<and> valid_json v) kvs"
| "valid_json _ = True"

section \<open>Layouts\<close>

text \<open>
  How the text of a value is laid out: \<open>gap d\<close> is written before each member of a value at depth \<open>d\<close> and before
  its closing bracket, \<open>sp\<close> after a colon. \<open>Marshal\<close> writes nothing there, \<open>MarshalIndent\<close> a line break and the
  indentation. A layout of white space is read back, whatever it is.
\<close>

fun render :: "(nat \<Rightarrow> string) \<Rightarrow> string \<Rightarrow> nat \<Rightarrow> json \<Rightarrow> string" where
  "render gap sp d (JArr js) =
     (if js = [] then ''[]''
      else ''['' @ Join (map (\<lambda>j. gap (Suc d) @ render gap sp (Suc d) j) js) '','' @ gap d @ '']'')"
| "render gap sp d (JObj kvs) =
     (if kvs = [] then ''{}''
      else ''{'' @ Join (map (\<lambda>(k, v). gap (Suc d) @ quote k @ '':'' @ sp @ render gap sp (Suc d) v) kvs) '','' @ gap d @ ''}'')"
| "render gap sp d j = encode j"

lemma encode_render: "encode j = render (\<lambda>d. []) [] d j"
proof (induction j arbitrary: d)
  case (JArr js)
  then show ?case by (simp cong: map_cong)
next
  case (JObj kvs)
  then have "encode v = render (\<lambda>d. []) [] (Suc d) v" if "(k, v) \<in> set kvs" for k v using that by fastforce
  then show ?case by (auto intro!: arg_cong [of _ _ "\<lambda>xs. Join xs _"] map_cong)
qed simp_all

text \<open>\<open>json.MarshalIndent(v, "", "  ")\<close>.\<close>

definition MarshalIndent :: "json \<Rightarrow> string" where
  "MarshalIndent j = render (\<lambda>d. CHR 0x0A # concat (replicate d ''  '')) '' '' 0 j"

lemma Itoa_hd: "\<exists>c cs. Itoa i = c # cs \<and> (is_digit c \<or> c = CHR ''-'')"
  using digits_of_digits [of "hd (digits_of (nat i))" "nat i"]
  by (cases "digits_of (nat i)") (auto simp: Itoa_def)

lemma skip_ws_char: "\<not> is_ws c \<Longrightarrow> skip_ws (c # s) = c # s"
  by (simp add: skip_ws_def)

lemma is_ws_delims [simp]:
  "\<not> is_ws (CHR '']'')" "\<not> is_ws (CHR '','')" "\<not> is_ws (CHR ''}'')" "\<not> is_ws (CHR '':'')" "\<not> is_ws (CHR 0x22)"
  "\<not> is_ws (CHR ''['')" "\<not> is_ws (CHR ''{'')"
  by (simp_all add: is_ws_def)

lemma number_ends_delims [simp]:
  "number_ends (CHR '']'' # s)" "number_ends (CHR '','' # s)" "number_ends (CHR ''}'' # s)" "number_ends []"
  by (simp_all add: number_ends_def num_tail_def is_digit_def byte_def)

text \<open>White space before a value, an element or a member is skipped.\<close>

definition blank :: "string \<Rightarrow> bool" where
  "blank w \<longleftrightarrow> list_all is_ws w"

lemma skip_ws_blank: "blank w \<Longrightarrow> skip_ws (w @ s) = skip_ws s"
  by (simp add: skip_ws_def blank_def list_all_iff)

lemma parse_blank:
  assumes "blank w"
  shows "parse_value n (w @ s) = parse_value n s" "parse_elems n (w @ s) = parse_elems n s"
    "parse_members n (w @ s) = parse_members n s"
proof -
  show v: "parse_value n (w @ s) = parse_value n s" for n by (cases n) (simp_all add: skip_ws_blank [OF assms])
  show "parse_elems n (w @ s) = parse_elems n s" by (cases n) (simp_all add: v)
  show "parse_members n (w @ s) = parse_members n s" by (cases n) (simp_all add: skip_ws_blank [OF assms])
qed

lemma number_ends_blank: "blank w \<Longrightarrow> number_ends s \<Longrightarrow> number_ends (w @ s)"
  by (cases w) (auto simp: number_ends_def blank_def is_ws_def num_tail_def is_digit_def byte_def)

section \<open>Laid out values are read back\<close>

locale layout =
  fixes gap :: "nat \<Rightarrow> string" and sp :: string
  assumes gap_blank: "blank (gap d)" and sp_blank: "blank sp"
begin

definition reads_back :: "json \<Rightarrow> bool" where
  "reads_back j \<longleftrightarrow> (\<forall>d n rest. length (render gap sp d j) \<le> n \<longrightarrow> number_ends rest \<longrightarrow>
     parse_value n (render gap sp d j @ rest) = Some (j, rest))"

lemma reads_backD:
  "reads_back j \<Longrightarrow> length (render gap sp d j) \<le> n \<Longrightarrow> number_ends rest \<Longrightarrow>
    parse_value n (render gap sp d j @ rest) = Some (j, rest)"
  by (simp add: reads_back_def)

lemma render_hd:
  "\<exists>c cs. render gap sp d j = c # cs \<and> \<not> is_ws c \<and> c \<noteq> CHR '']'' \<and> c \<noteq> CHR ''}''"
proof (cases j)
  case (JNum i)
  then show ?thesis using Itoa_hd [of i] by (auto simp: is_ws_def is_digit_def byte_def)
qed (auto simp: is_ws_def quote_def)

definition element :: "nat \<Rightarrow> json \<Rightarrow> string" where
  "element d j = gap d @ render gap sp d j"

definition member_text :: "nat \<Rightarrow> string \<times> json \<Rightarrow> string" where
  "member_text d kv = (case kv of (k, v) \<Rightarrow> gap d @ quote k @ '':'' @ sp @ render gap sp d v)"

lemma parse_element:
  assumes "reads_back j" and "length (element d j) \<le> n" and "number_ends rest"
  shows "parse_value n (element d j @ rest) = Some (j, rest)"
  using assms reads_backD [OF assms(1), of d n rest] by (simp add: element_def parse_blank [OF gap_blank])

lemma parse_elems_laid_out:
  assumes "list_all reads_back js" and "js \<noteq> []" and "length (Join (map (element d) js) '','') < n" and "blank w"
  shows "parse_elems n (Join (map (element d) js) '','' @ w @ CHR '']'' # rest) = Some (js, rest)"
  using assms
proof (induction js arbitrary: n)
  case (Cons j js)
  then obtain m where n: "n = Suc m" by (cases n) auto
  from Cons.prems have j: "reads_back j" by simp
  have w: "number_ends (w @ CHR '']'' # rest)" "skip_ws (w @ CHR '']'' # rest) = CHR '']'' # rest"
    using number_ends_blank [OF assms(4)] skip_ws_blank [OF assms(4)] by (simp_all add: skip_ws_char)
  show ?case
  proof (cases js)
    case Nil
    with Cons.prems n parse_element [OF j _ w(1), of d m] show ?thesis by (simp add: w(2))
  next
    case (Cons j' js')
    let ?tail = "Join (map (element d) js) '',''"
    have J: "Join (map (element d) (j # js)) '','' = element d j @ CHR '','' # ?tail" using Cons by simp
    have len: "length (element d j) \<le> m" "length ?tail < m" using Cons.prems(3) n unfolding J by simp_all
    have "parse_elems m (?tail @ w @ CHR '']'' # rest) = Some (js, rest)"
      using Cons.prems(1,4) Cons len by (intro Cons.IH) auto
    with parse_element [OF j len(1), of "CHR '','' # ?tail @ w @ CHR '']'' # rest"] show ?thesis
      unfolding J n by (simp add: skip_ws_char)
  qed
qed simp

lemma parse_member:
  assumes "valid_utf8 k" and "reads_back v" and "length (render gap sp d v) \<le> m" and "number_ends t"
    and "skip_ws t = c # t'" and "c = CHR '','' \<or> c = CHR ''}''"
  shows "parse_members (Suc m) (member_text d (k, v) @ t) =
    (if c = CHR ''}'' then Some ([(k, v)], t')
     else map_option (\<lambda>(kvs, t). ((k, v) # kvs, t)) (parse_members m t'))"
proof -
  have q: "member_text d (k, v) @ t = gap d @ CHR 0x22 # (tl (quote k) @ CHR '':'' # sp @ render gap sp d v @ t)"
    by (simp add: member_text_def quote_def)
  from reads_backD [OF assms(2,3,4)] show ?thesis
    unfolding q parse_blank(3) [OF gap_blank] using assms(5,6)
    by (auto simp: skip_ws_char parse_quoted [OF assms(1)] parse_blank(1) [OF sp_blank])
qed

lemma parse_members_laid_out:
  assumes "list_all (\<lambda>(k, v). valid_utf8 k \<and> reads_back v) kvs" and "kvs \<noteq> []"
    and "length (Join (map (member_text d) kvs) '','') < n" and "blank w"
  shows "parse_members n (Join (map (member_text d) kvs) '','' @ w @ CHR ''}'' # rest) = Some (kvs, rest)"
  using assms
proof (induction kvs arbitrary: n)
  case (Cons kv kvs)
  then obtain m where n: "n = Suc m" by (cases n) auto
  obtain k v where kv: "kv = (k, v)" by fastforce
  from Cons.prems kv have v: "valid_utf8 k" "reads_back v" by simp_all
  have w: "number_ends (w @ CHR ''}'' # rest)" "skip_ws (w @ CHR ''}'' # rest) = CHR ''}'' # rest"
    using number_ends_blank [OF assms(4)] skip_ws_blank [OF assms(4)] by (simp_all add: skip_ws_char)
  show ?case
  proof (cases kvs)
    case Nil
    with Cons.prems n have "length (render gap sp d v) \<le> m" by (simp add: kv member_text_def)
    from parse_member [OF v this w] Nil n show ?thesis by (simp add: kv)
  next
    case (Cons kv' kvs')
    let ?tail = "Join (map (member_text d) kvs) '',''"
    have J: "Join (map (member_text d) (kv # kvs)) '','' = member_text d (k, v) @ CHR '','' # ?tail"
      using Cons kv by simp
    have len: "length (render gap sp d v) \<le> m" "length ?tail < m"
      using Cons.prems(3) n unfolding J by (simp_all add: member_text_def)
    have "parse_members m (?tail @ w @ CHR ''}'' # rest) = Some (kvs, rest)"
      using Cons.prems(1,4) Cons len by (intro Cons.IH) auto
    with parse_member [OF v len(1), of "CHR '','' # ?tail @ w @ CHR ''}'' # rest" "CHR '',''"] show ?thesis
      unfolding J n by (simp add: kv skip_ws_char)
  qed
qed simp

lemma render_JArr: "js \<noteq> [] \<Longrightarrow> render gap sp d (JArr js) = ''['' @ Join (map (element (Suc d)) js) '','' @ gap d @ '']''"
  by (simp add: element_def [abs_def])

lemma render_JObj: "kvs \<noteq> [] \<Longrightarrow> render gap sp d (JObj kvs) = ''{'' @ Join (map (member_text (Suc d)) kvs) '','' @ gap d @ ''}''"
proof -
  have "(\<lambda>(k, v). gap (Suc d) @ quote k @ '':'' @ sp @ render gap sp (Suc d) v) = member_text (Suc d)"
    by (auto simp: fun_eq_iff member_text_def)
  then show "kvs \<noteq> [] \<Longrightarrow> ?thesis" by simp
qed

text \<open>What follows an opening bracket of a value with members is no closing one.\<close>

lemma not_closed:
  assumes "xs \<noteq> []" and "\<And>x. x \<in> set xs \<Longrightarrow> \<exists>w t cs. x = w @ t # cs \<and> blank w \<and> \<not> is_ws t \<and> t \<noteq> c"
  shows "\<not> HasPrefix (skip_ws (Join xs sep @ rest)) [c]"
proof -
  obtain x ys where xs: "xs = x # ys" using assms(1) by (cases xs) auto
  obtain w t cs where x: "x = w @ t # cs" "blank w" "\<not> is_ws t" "t \<noteq> c" using assms(2) [of x] xs by auto
  then have "\<exists>tail. Join xs sep @ rest = w @ t # tail" by (cases ys) (simp_all add: xs)
  then obtain tail where "Join xs sep @ rest = w @ t # tail" by blast
  then show ?thesis using x(2-4) by (simp add: skip_ws_blank skip_ws_char HasPrefix_def)
qed

lemma reads_backI:
  assumes "\<And>d m rest. length (render gap sp d j) \<le> Suc m \<Longrightarrow> number_ends rest \<Longrightarrow>
    parse_value (Suc m) (render gap sp d j @ rest) = Some (j, rest)"
  shows "reads_back j"
  unfolding reads_back_def
proof (intro allI impI)
  fix d n rest
  assume n: "length (render gap sp d j) \<le> n" and rest: "number_ends rest"
  then obtain m where "n = Suc m" using render_hd [of d j] by (cases n) auto
  with assms n rest show "parse_value n (render gap sp d j @ rest) = Some (j, rest)" by simp
qed

lemma reads_back_JArr:
  assumes "list_all reads_back js"
  shows "reads_back (JArr js)"
proof (rule reads_backI)
  fix d m rest
  assume len: "length (render gap sp d (JArr js)) \<le> Suc m"
  show "parse_value (Suc m) (render gap sp d (JArr js) @ rest) = Some (JArr js, rest)"
  proof (cases "js = []")
    case True
    then show ?thesis by (simp add: skip_ws_char HasPrefix_def)
  next
    case False
    have "\<not> HasPrefix (skip_ws (Join (map (element (Suc d)) js) '','' @ gap d @ CHR '']'' # rest)) '']''"
    proof (rule not_closed)
      fix x assume "x \<in> set (map (element (Suc d)) js)"
      then obtain j where "x = element (Suc d) j" by auto
      then show "\<exists>w t cs. x = w @ t # cs \<and> blank w \<and> \<not> is_ws t \<and> t \<noteq> CHR '']''"
        using render_hd [of "Suc d" j] gap_blank unfolding element_def by metis
    qed (use False in simp)
    moreover have "length (Join (map (element (Suc d)) js) '','') < m" using len unfolding render_JArr [OF False] by simp
    ultimately show ?thesis
      using parse_elems_laid_out [OF assms False _ gap_blank, of "Suc d" m d rest] unfolding render_JArr [OF False]
      by (simp add: skip_ws_char)
  qed
qed

lemma reads_back_JObj:
  assumes "list_all (\<lambda>(k, v). valid_utf8 k \<and> reads_back v) kvs"
  shows "reads_back (JObj kvs)"
proof (rule reads_backI)
  fix d m rest
  assume len: "length (render gap sp d (JObj kvs)) \<le> Suc m"
  show "parse_value (Suc m) (render gap sp d (JObj kvs) @ rest) = Some (JObj kvs, rest)"
  proof (cases "kvs = []")
    case True
    then show ?thesis by (simp add: skip_ws_char HasPrefix_def)
  next
    case False
    have "\<not> HasPrefix (skip_ws (Join (map (member_text (Suc d)) kvs) '','' @ gap d @ CHR ''}'' # rest)) ''}''"
    proof (rule not_closed)
      fix x assume "x \<in> set (map (member_text (Suc d)) kvs)"
      then obtain k v where "x = gap (Suc d) @ CHR 0x22 # tl (quote k) @ '':'' @ sp @ render gap sp (Suc d) v"
        by (auto simp: member_text_def quote_def)
      then show "\<exists>w t cs. x = w @ t # cs \<and> blank w \<and> \<not> is_ws t \<and> t \<noteq> CHR ''}''"
        using gap_blank is_ws_delims(5) by fastforce
    qed (use False in simp)
    moreover have "length (Join (map (member_text (Suc d)) kvs) '','') < m" using len unfolding render_JObj [OF False] by simp
    ultimately show ?thesis
      using parse_members_laid_out [OF assms False _ gap_blank, of "Suc d" m d rest] unfolding render_JObj [OF False]
      by (simp add: skip_ws_char)
  qed
qed

lemma reads_back_all: "valid_json j \<Longrightarrow> reads_back j"
proof (induction j)
  case (JNum i)
  show ?case
  proof (rule reads_backI)
    fix d m rest
    assume rest: "number_ends rest"
    obtain c cs where c: "Itoa i = c # cs" "is_digit c \<or> c = CHR ''-''" using Itoa_hd by blast
    from c(2) have "\<not> is_ws c" "c \<noteq> CHR 0x22" "c \<noteq> CHR ''[''" "c \<noteq> CHR ''{''" "c \<noteq> CHR ''n''"
      "c \<noteq> CHR ''t''" "c \<noteq> CHR ''f''"
      by (auto simp: is_ws_def is_digit_def byte_def)
    then show "parse_value (Suc m) (render gap sp d (JNum i) @ rest) = Some (JNum i, rest)"
      using parse_num_Itoa [OF rest, of i] by (simp add: c(1) skip_ws_char HasPrefix_def)
  qed
next
  case (JStr s)
  then have "parse_chars (tl (quote s) @ rest) = Some (s, rest)" for rest by (simp add: parse_quoted)
  moreover have "render gap sp d (JStr s) = CHR 0x22 # tl (quote s)" for d using quote_Cons [of s] by simp
  ultimately show ?case by (intro reads_backI) (simp add: skip_ws_char del: render.simps)
next
  case (JArr js)
  then show ?case by (intro reads_back_JArr) (auto simp: list_all_iff)
next
  case (JObj kvs)
  then show ?case by (intro reads_back_JObj) (fastforce simp: list_all_iff)
next
  case JNull
  show ?case by (rule reads_backI) (simp add: skip_ws_char is_ws_def HasPrefix_def)
next
  case (JBool b)
  show ?case by (rule reads_backI, cases b) (simp_all add: skip_ws_char is_ws_def HasPrefix_def)
qed

text \<open>The whole text, with white space after it.\<close>

lemma Unmarshal_render:
  assumes "valid_json j" and "blank w"
  shows "Unmarshal (render gap sp d j @ w) = Some j"
proof -
  have "skip_ws w = []" using skip_ws_blank [OF assms(2), of "[]"] by (simp add: skip_ws_def)
  moreover have "parse_value (Suc (length (render gap sp d j @ w))) (render gap sp d j @ w) = Some (j, w)"
    using number_ends_blank [OF assms(2), of "[]"] by (intro reads_backD [OF reads_back_all [OF assms(1)]]) simp_all
  ultimately show ?thesis by (simp add: Unmarshal_def)
qed

end

interpretation compact: layout "\<lambda>d. []" "[]"
  by unfold_locales (simp_all add: blank_def)

interpretation indented: layout "\<lambda>d. CHR 0x0A # concat (replicate d ''  '')" "'' ''"
  by unfold_locales (simp_all add: blank_def is_ws_def list_all_iff)

text \<open>Decoding what was encoded gives the value back.\<close>

lemma Unmarshal_Marshal:
  assumes "valid_json j"
  shows "Unmarshal (Marshal j) = Some j"
  using compact.Unmarshal_render [OF assms, of "[]" 0] by (simp add: Marshal_def encode_render [of _ 0] blank_def)

lemma Unmarshal_MarshalIndent:
  assumes "valid_json j" and "blank w"
  shows "Unmarshal (MarshalIndent j @ w) = Some j"
  using indented.Unmarshal_render [OF assms] by (simp add: MarshalIndent_def)

interpretation texts: exact_codec Marshal Unmarshal valid_json
  by unfold_locales (rule Unmarshal_Marshal)

end
