(* ===== verification/Storage.thy ===== *)
theory Storage
  imports Go_Time Json "HOL-Library.Word"
begin

text \<open>
  Package \<open>internal/storage\<close>: the read-only storage seam (\<open>Reader\<close> in \<open>reader.go\<close>), the
  classification of storage answers into the three sentinel errors, and the compatibility check
  of \<open>compat.go\<close>.

  A \<open>reader\<close> value is what storage answers during one run of the code: the answers of
  \<open>ListObjects\<close>, \<open>ReadObject\<close> and \<open>StatObject\<close> are independent functions, so the listing may
  name an object that a later call no longer finds. The callers modelled here call each of them
  at most once per key in a run, so this covers storage that changes while they work.
  Sizes are \<open>int64\<close>, i.e. 64-bit words read as signed. A Go map from strings to strings is its
  list of entries, and \<open>None\<close> is the nil map.
\<close>

section \<open>Objects\<close>

type_synonym int64 = "64 word"

type_synonym str_map = "(string \<times> string) list option"

definition entries :: "str_map \<Rightarrow> (string \<times> string) list" where
  "entries m = (case m of None \<Rightarrow> [] | Some es \<Rightarrow> es)"

definition map_ok :: "str_map \<Rightarrow> bool" where
  "map_ok m \<longleftrightarrow> distinct (map fst (entries m))"

text \<open>Two entry lists are the same Go map.\<close>

definition same_map :: "str_map \<Rightarrow> str_map \<Rightarrow> bool" where
  "same_map m n \<longleftrightarrow> map_of (entries m) = map_of (entries n)"

text \<open>\<open>json.Marshal\<close> and \<open>json.Unmarshal\<close> of a \<open>map[string]string\<close>: keys are sorted.\<close>

definition json_of_map :: "str_map \<Rightarrow> json" where
  "json_of_map m = (case m of None \<Rightarrow> JNull
     | Some es \<Rightarrow> JObj (map (\<lambda>(k, v). (k, JStr v)) (sort_key fst es)))"

fun decode_entries :: "(string \<times> json) list \<Rightarrow> (string \<times> string) list \<Rightarrow> (string \<times> string) list option" where
  "decode_entries [] acc = Some acc"
| "decode_entries ((k, JStr v) # kvs) acc = decode_entries kvs (AList.update k v acc)"
| "decode_entries ((k, JNull) # kvs) acc = decode_entries kvs (AList.update k [] acc)"
| "decode_entries _ acc = None"

definition map_of_json :: "json \<Rightarrow> str_map option" where
  "map_of_json j = (case j of
       JNull \<Rightarrow> Some None
     | JObj kvs \<Rightarrow> map_option Some (decode_entries kvs [])
     | _ \<Rightarrow> None)"

definition map_utf8 :: "str_map \<Rightarrow> bool" where
  "map_utf8 m \<longleftrightarrow> list_all (\<lambda>(k, v). valid_utf8 k \<and> valid_utf8 v) (entries m)"

lemma update_new: "k \<notin> fst ` set al \<Longrightarrow> AList.update k v al = al @ [(k, v)]"
  by (induction al) auto

lemma decode_entries_strings:
  "distinct (map fst (acc @ es)) \<Longrightarrow>
    decode_entries (map (\<lambda>(k, v). (k, JStr v)) es) acc = Some (acc @ es)"
proof (induction es arbitrary: acc)
  case Nil
  then show ?case by simp
next
  case (Cons e es)
  obtain k v where e: "e = (k, v)" by fastforce
  with Cons.prems have "AList.update k v acc = acc @ [(k, v)]" by (intro update_new) auto
  moreover have "decode_entries (map (\<lambda>(k, v). (k, JStr v)) es) (acc @ [(k, v)]) = Some ((acc @ [(k, v)]) @ es)"
    using Cons.prems e by (intro Cons.IH) simp
  ultimately show ?case by (simp add: e)
qed

text \<open>User metadata survives the text column: the same map, its entries in key order.\<close>

lemma map_of_json_of_map:
  "map_ok m \<Longrightarrow> map_of_json (json_of_map m) = Some (map_option (sort_key fst) m)"
  using decode_entries_strings [of "[]" "sort_key fst (the m)"]
  by (cases m) (auto simp: map_of_json_def json_of_map_def map_ok_def entries_def distinct_map_sort_key)

lemma same_map_sorted: "map_ok m \<Longrightarrow> same_map (map_option (sort_key fst) m) m"
  by (cases m) (auto simp: same_map_def map_ok_def entries_def map_of_sort_key)

lemma valid_json_of_map: "map_utf8 m \<Longrightarrow> valid_json (json_of_map m)"
  by (cases m) (auto simp: map_utf8_def json_of_map_def entries_def list_all_iff)

lemma map_of_json_Unmarshal:
  assumes "map_ok m" and "map_utf8 m"
  shows "Option.bind (Unmarshal (Marshal (json_of_map m))) map_of_json = Some (map_option (sort_key fst) m)"
  using assms by (simp add: texts.reads_exactly valid_json_of_map map_of_json_of_map)

interpretation metadata: codec "\<lambda>m. Marshal (json_of_map m)" "\<lambda>s. Option.bind (Unmarshal s) map_of_json"
    "\<lambda>m. map_ok m \<and> map_utf8 m" "map_option (sort_key fst)"
  by unfold_locales (simp add: map_of_json_Unmarshal)

record object_listing =
  ol_Key :: string
  ol_Size :: int64
  ol_ETag :: string
  ol_LastModified :: time

record object_content =
  oc_Key :: string
  oc_Size :: int64
  oc_ETag :: string
  oc_LastModified :: time
  oc_ContentType :: string
  oc_ContentEncoding :: string
  oc_CacheControl :: string
  oc_UserMetadata :: str_map
  oc_SHA256 :: string

record object_meta =
  om_Key :: string
  om_Size :: int64
  om_ETag :: string
  om_LastModified :: time
  om_ContentType :: string
  om_ContentEncoding :: string
  om_CacheControl :: string
  om_UserMetadata :: str_map

record reader =
  ListObjects :: "object_listing list res"
  ReadObject :: "string \<Rightarrow> object_content res"
  StatObject :: "string \<Rightarrow> object_meta res"

section \<open>Status classification\<close>

definition classifyStatus :: "string \<Rightarrow> int \<Rightarrow> error" where
  "classifyStatus action status =
     (if status = 404 then Wrapf ''%w during %s'' [action] ErrObjectNotFound
      else if status = 408 \<or> status = 429 \<or> 500 \<le> status
      then Wrapf ''%w during %s (status %d)'' [action, Itoa status] ErrStorageUnavailable
      else Wrapf ''%w during %s (status %d)'' [action, Itoa status] ErrStorageMisconfigured)"

text \<open>Every failing status is exactly one of the three sentinels.\<close>

lemma classifyStatus_sentinel:
  "errors_Is (classifyStatus a n) ErrObjectNotFound \<longleftrightarrow> n = 404"
  "errors_Is (classifyStatus a n) ErrStorageUnavailable \<longleftrightarrow> n = 408 \<or> n = 429 \<or> 500 \<le> n"
  "errors_Is (classifyStatus a n) ErrStorageMisconfigured \<longleftrightarrow> n \<noteq> 404 \<and> n \<noteq> 408 \<and> n \<noteq> 429 \<and> n < 500"
  by (auto simp: classifyStatus_def)

section \<open>The compatibility check\<close>

record compatibility_report =
  cr_Objects :: nat
  cr_TotalBytes :: int64
  cr_DownloadedKeys :: "string list"

definition compatDownloadedBodyLimit :: nat where
  "compatDownloadedBodyLimit = 8"

definition CheckCompatibility :: "reader \<Rightarrow> compatibility_report res" where
  "CheckCompatibility r =
     bind_res (wrap_res ''list bucket: %w'' [] (ListObjects r)) (\<lambda>listings.
       let total = sum_list (map ol_Size listings);
           keys = sort (map ol_Key listings);
           sample = (if compatDownloadedBodyLimit < length keys
                     then take compatDownloadedBodyLimit keys else keys)
       in bind_res
            (map_res (\<lambda>key. map_sum id oc_Key
                (wrap_res ''read object %q: %w'' [key] (ReadObject r key))) sample)
            (\<lambda>downloaded. Inr \<lparr>cr_Objects = length listings, cr_TotalBytes = total,
                                cr_DownloadedKeys = downloaded\<rparr>))"

text \<open>A Go comparison \<open>a < 0\<close> on \<open>int64\<close>, and exact addition when nothing overflows.\<close>

definition negative :: "int64 \<Rightarrow> bool" where
  "negative n \<longleftrightarrow> sint n < 0"

lemma CheckCompatibility_Inr:
  assumes "CheckCompatibility r = Inr rep"
    and "\<And>key c. ReadObject r key = Inr c \<Longrightarrow> oc_Key c = key"
  obtains ls where "ListObjects r = Inr ls" "cr_Objects rep = length ls"
    "cr_TotalBytes rep = sum_list (map ol_Size ls)"
    "cr_DownloadedKeys rep = take 8 (sort (map ol_Key ls))"
    "\<And>key. key \<in> set (cr_DownloadedKeys rep) \<Longrightarrow> \<exists>c. ReadObject r key = Inr c"
proof -
  from assms(1) obtain ls where ls: "ListObjects r = Inr ls"
    by (auto simp: CheckCompatibility_def bind_res_def wrap_res_def split: sum.splits)
  let ?ks = "take 8 (sort (map ol_Key ls))"
  let ?f = "\<lambda>key. map_sum id oc_Key (wrap_res ''read object %q: %w'' [key] (ReadObject r key))"
  from assms(1) ls obtain ds where ds: "map_res ?f ?ks = Inr ds"
    and rep: "rep = \<lparr>cr_Objects = length ls, cr_TotalBytes = sum_list (map ol_Size ls), cr_DownloadedKeys = ds\<rparr>"
    by (auto simp: CheckCompatibility_def compatDownloadedBodyLimit_def Let_def res_iff split: if_splits)
  have f: "y = key \<and> (\<exists>c. ReadObject r key = Inr c)" if "?f key = Inr y" for key y
    using that assms(2) by (cases "ReadObject r key") auto
  have "ds = ?ks"
    using map_res_proj [OF ds, of id id] f by simp
  moreover have "\<exists>c. ReadObject r key = Inr c" if "key \<in> set ?ks" for key
    using map_res_mem' [OF ds that] f by blast
  ultimately show ?thesis using that ls rep by simp
qed

end
