(* ===== verification/Json_Struct.thy ===== *)
theory Json_Struct
  imports Storage
begin

text \<open>
  Encoding and decoding of Go structs with \<open>encoding/json\<close>: a struct is an object with its fields in
  declaration order, and decoding assigns each member to the field whose name equals its key, or
  equals it under \<open>foldName\<close>. A missing member and \<open>null\<close> leave the field's zero value; a value of
  the wrong type or a number outside the field's range is an error. Of several members for one
  field the last that is not \<open>null\<close> counts. A nil slice is \<open>null\<close>, as the program's slices that
  grow by \<open>append\<close> are when nothing was appended.
\<close>

section \<open>Decoding\<close>

definition fold_rune :: "nat \<Rightarrow> nat" where
  "fold_rune r = (if r = 383 then 115 else if r = 8490 then 107 else lower_byte r)"

text \<open>Field names are ASCII, so U+017F and U+212A are the only other runes that fold to theirs.\<close>

definition field_match :: "string \<Rightarrow> string \<Rightarrow> bool" where
  "field_match key name \<longleftrightarrow> map fold_rune (code_points key) = map fold_rune (code_points name)"

type_synonym members = "(string \<times> json) list"

definition get_field :: "members \<Rightarrow> string \<Rightarrow> json" where
  "get_field kvs name =
     (case filter (\<lambda>(k, v). v \<noteq> JNull \<and> field_match k name) (rev kvs) of [] \<Rightarrow> JNull | (k, v) # _ \<Rightarrow> v)"

definition decode_obj :: "json \<Rightarrow> members option" where
  "decode_obj j = (case j of JObj kvs \<Rightarrow> Some kvs | JNull \<Rightarrow> Some [] | _ \<Rightarrow> None)"

definition decode_str :: "json \<Rightarrow> string option" where
  "decode_str j = (case j of JStr s \<Rightarrow> Some s | JNull \<Rightarrow> Some [] | _ \<Rightarrow> None)"

definition decode_int :: "json \<Rightarrow> int option" where
  "decode_int j = (case j of JNull \<Rightarrow> Some 0
     | JNum i \<Rightarrow> (if - 9223372036854775808 \<le> i \<and> i < 9223372036854775808 then Some i else None) | _ \<Rightarrow> None)"

definition decode_int64 :: "json \<Rightarrow> int64 option" where
  "decode_int64 j = map_option word_of_int (decode_int j)"

fun sequence :: "'a option list \<Rightarrow> 'a list option" where
  "sequence [] = Some []"
| "sequence (None # xs) = None"
| "sequence (Some x # xs) = map_option ((#) x) (sequence xs)"

definition decode_list :: "(json \<Rightarrow> 'a option) \<Rightarrow> json \<Rightarrow> 'a list option" where
  "decode_list f j = (case j of JArr js \<Rightarrow> sequence (map f js) | JNull \<Rightarrow> Some [] | _ \<Rightarrow> None)"

section \<open>Encoding\<close>

text \<open>A slice grown by \<open>append\<close> from nil, and a slice made by \<open>make\<close>.\<close>

definition json_slice :: "('a \<Rightarrow> json) \<Rightarrow> 'a list \<Rightarrow> json" where
  "json_slice f xs = (if xs = [] then JNull else JArr (map f xs))"

definition json_array :: "('a \<Rightarrow> json) \<Rightarrow> 'a list \<Rightarrow> json" where
  "json_array f xs = JArr (map f xs)"

definition json_int64 :: "int64 \<Rightarrow> json" where
  "json_int64 n = JNum (sint n)"

text \<open>\<open>omitempty\<close> on a string field.\<close>

definition omit_empty :: "string \<Rightarrow> string \<Rightarrow> members" where
  "omit_empty name s = (if s = [] then [] else [(name, JStr s)])"

lemma sequence_map:
  "(\<And>x. x \<in> set xs \<Longrightarrow> f x = Some (g x)) \<Longrightarrow> sequence (map f xs) = Some (map g xs)"
  by (induction xs) auto

lemma decode_list_encoded:
  "(\<And>x. x \<in> set xs \<Longrightarrow> f (g x) = Some x) \<Longrightarrow> decode_list f (json_array g xs) = Some xs"
  "(\<And>x. x \<in> set xs \<Longrightarrow> f (g x) = Some x) \<Longrightarrow> decode_list f (json_slice g xs) = Some xs"
  using sequence_map [of xs "f \<circ> g" id]
  by (auto simp: decode_list_def json_array_def json_slice_def)

lemma decode_int64_encoded [simp]: "decode_int64 (json_int64 n) = Some n"
proof -
  have "- 9223372036854775808 \<le> sint n" "sint n < 9223372036854775808"
    using sint_ge [of n] sint_lt [of n] by simp_all
  then show ?thesis by (simp add: decode_int64_def decode_int_def json_int64_def)
qed

lemma decode_simps [simp]:
  "decode_str (JStr s) = Some s" "decode_str JNull = Some []"
  "decode_obj (JObj kvs) = Some kvs" "decode_obj JNull = Some []"
  by (simp_all add: decode_str_def decode_obj_def)

text \<open>Reading a field back: the names of one struct fold to different strings.\<close>

lemma field_match_refl [simp]: "field_match k k"
  by (simp add: field_match_def)

definition fold_distinct :: "string list \<Rightarrow> bool" where
  "fold_distinct names \<longleftrightarrow> distinct (map (\<lambda>k. map fold_rune (code_points k)) names)"

text \<open>For ASCII names the folding is the ASCII lower case.\<close>

definition lower :: "string \<Rightarrow> nat list" where
  "lower s = map (lower_byte \<circ> byte) s"

lemma fold_ascii:
  assumes "list_all (\<lambda>c. byte c < 128) s"
  shows "map fold_rune (code_points s) = lower s"
proof -
  have "code_points s = map byte s"
    using assms by (simp add: code_points_def runes_ascii list_all_iff)
  then show ?thesis using assms by (auto simp: lower_def fold_rune_def list_all_iff)
qed

lemma ascii_fold_distinct:
  "list_all (list_all (\<lambda>c. byte c < 128)) names \<Longrightarrow> distinct (map lower names) \<Longrightarrow> fold_distinct names"
proof -
  assume "list_all (list_all (\<lambda>c. byte c < 128)) names" and "distinct (map lower names)"
  moreover from this(1) have "map (\<lambda>k. map fold_rune (code_points k)) names = map lower names"
    by (simp add: fold_ascii list_all_iff)
  ultimately show ?thesis by (simp only: fold_distinct_def)
qed

lemma get_field_distinct:
  assumes "fold_distinct (map fst kvs)" and "(k, v) \<in> set kvs"
  shows "get_field kvs k = v"
proof -
  have other: "v' = v" if "(k', v') \<in> set kvs" "field_match k' k" for k' v'
  proof -
    have "k' = k"
      using assms that unfolding fold_distinct_def field_match_def
      by (metis (no_types, lifting) distinct_map fst_conv image_eqI inj_onD list.set_map)
    with that assms show ?thesis
      unfolding fold_distinct_def by (metis (no_types, lifting) distinct_map eq_key_imp_eq_value)
  qed
  let ?fs = "filter (\<lambda>(k', v'). v' \<noteq> JNull \<and> field_match k' k) (rev kvs)"
  show ?thesis
  proof (cases ?fs)
    case Nil
    then have "\<not> (v \<noteq> JNull \<and> field_match k k)"
      using assms(2) by (auto simp: filter_empty_conv)
    then show ?thesis using Nil by (simp add: get_field_def)
  next
    case (Cons p ps)
    then have "set (p # ps) \<subseteq> set kvs \<inter> {q. field_match (fst q) k}"
      unfolding Cons [symmetric] by auto
    then have "snd p = v" using other [of "fst p" "snd p"] by simp
    then show ?thesis using Cons by (cases p) (simp add: get_field_def)
  qed
qed

lemma get_field_missing:
  "(\<And>k' v'. (k', v') \<in> set kvs \<Longrightarrow> \<not> field_match k' k) \<Longrightarrow> get_field kvs k = JNull"
proof -
  assume "\<And>k' v'. (k', v') \<in> set kvs \<Longrightarrow> \<not> field_match k' k"
  then have "filter (\<lambda>(k', v'). v' \<noteq> JNull \<and> field_match k' k) (rev kvs) = []"
    by (auto simp: filter_empty_conv)
  then show ?thesis by (simp add: get_field_def)
qed

end
