(* ===== verification/Sha256.thy ===== *)
theory Sha256
  imports Json "HOL-Library.Word"
begin

unbundle bit_operations_syntax

text \<open>
  \<open>crypto/sha256\<close> and \<open>encoding/hex\<close>, which bind plan digests, request hashes, probed bodies and
  the S3 payload hash: the compression function of FIPS 180-4 on 32-bit words, the padding of a
  message to whole blocks, and \<open>hex.EncodeToString\<close>. Every digest has 32 bytes, so every
  rendered digest has 64 hexadecimal digits; the digest of the empty message is evaluated.
\<close>

section \<open>Hexadecimal\<close>

type_synonym byte8 = "8 word"

definition hex_byte :: "byte8 \<Rightarrow> string" where
  "hex_byte b = [hex_digit (unat b div 16), hex_digit (unat b mod 16)]"

text \<open>\<open>hex.EncodeToString\<close>.\<close>

definition hex_bytes :: "byte8 list \<Rightarrow> string" where
  "hex_bytes bs = concat (map hex_byte bs)"

section \<open>The hash\<close>

type_synonym word32 = "32 word"

definition K256 :: "word32 list" where
  "K256 =
   [1116352408, 1899447441, 3049323471, 3921009573, 961987163, 1508970993, 2453635748, 2870763221,
    3624381080, 310598401, 607225278, 1426881987, 1925078388, 2162078206, 2614888103, 3248222580,
    3835390401, 4022224774, 264347078, 604807628, 770255983, 1249150122, 1555081692, 1996064986,
    2554220882, 2821834349, 2952996808, 3210313671, 3336571891, 3584528711, 113926993, 338241895,
    666307205, 773529912, 1294757372, 1396182291, 1695183700, 1986661051, 2177026350, 2456956037,
    2730485921, 2820302411, 3259730800, 3345764771, 3516065817, 3600352804, 4094571909, 275423344,
    430227734, 506948616, 659060556, 883997877, 958139571, 1322822218, 1537002063, 1747873779,
    1955562222, 2024104815, 2227730452, 2361852424, 2428436474, 2756734187, 3204031479, 3329325298]"

type_synonym hash_state = "word32 \<times> word32 \<times> word32 \<times> word32 \<times> word32 \<times> word32 \<times> word32 \<times> word32"

definition H256 :: hash_state where
  "H256 = (1779033703, 3144134277, 1013904242, 2773480762, 1359893119, 2600822924, 528734635, 1541459225)"

definition rotr :: "nat \<Rightarrow> word32 \<Rightarrow> word32" where
  "rotr n x = drop_bit n x OR push_bit (32 - n) x"

text \<open>The message schedule, newest word first: 16 words of the block, then one new word per step.\<close>

definition next_word :: "word32 list \<Rightarrow> word32" where
  "next_word ws =
     (let w2 = ws ! 1; w7 = ws ! 6; w15 = ws ! 14; w16 = ws ! 15;
          s0 = rotr 7 w15 XOR rotr 18 w15 XOR drop_bit 3 w15;
          s1 = rotr 17 w2 XOR rotr 19 w2 XOR drop_bit 10 w2
      in w16 + s0 + w7 + s1)"

fun schedule :: "nat \<Rightarrow> word32 list \<Rightarrow> word32 list" where
  "schedule 0 ws = ws"
| "schedule (Suc n) ws = schedule n (next_word ws # ws)"

definition round256 :: "hash_state \<Rightarrow> word32 \<times> word32 \<Rightarrow> hash_state" where
  "round256 st kw = (case st of (a, b, c, d, e, f, g, h) \<Rightarrow> (case kw of (k, w) \<Rightarrow>
     (let s1 = rotr 6 e XOR rotr 11 e XOR rotr 25 e;
          ch = (e AND f) XOR (NOT e AND g);
          t1 = h + s1 + ch + k + w;
          s0 = rotr 2 a XOR rotr 13 a XOR rotr 22 a;
          maj = (a AND b) XOR (a AND c) XOR (b AND c)
      in (t1 + (s0 + maj), a, b, c, d + t1, e, f, g))))"

definition add_state :: "hash_state \<Rightarrow> hash_state \<Rightarrow> hash_state" where
  "add_state s t = (case s of (a, b, c, d, e, f, g, h) \<Rightarrow> (case t of (a', b', c', d', e', f', g', h') \<Rightarrow>
     (a + a', b + b', c + c', d + d', e + e', f + f', g + g', h + h')))"

fun words_be :: "byte8 list \<Rightarrow> word32 list" where
  "words_be (a # b # c # d # rest) =
     (push_bit 24 (ucast a) OR push_bit 16 (ucast b) OR push_bit 8 (ucast c) OR ucast d) # words_be rest"
| "words_be _ = []"

definition compress :: "hash_state \<Rightarrow> byte8 list \<Rightarrow> hash_state" where
  "compress st block =
     add_state st (foldl round256 st (zip K256 (rev (schedule 48 (rev (words_be block))))))"

function blocks :: "byte8 list \<Rightarrow> byte8 list list" where
  "blocks bs = (if length bs < 64 then [] else take 64 bs # blocks (drop 64 bs))"
  by pat_completeness auto
termination by (relation "measure length") auto

declare blocks.simps [simp del]

definition be64 :: "nat \<Rightarrow> byte8 list" where
  "be64 n = map (\<lambda>i. word_of_nat (n div 256 ^ (7 - i))) [0..<8]"

text \<open>One bit, zeros up to 56 modulo 64, and the length in bits.\<close>

definition pad :: "byte8 list \<Rightarrow> byte8 list" where
  "pad bs = bs @ 0x80 # replicate ((119 - length bs mod 64) mod 64) 0 @ be64 (8 * length bs)"

definition bytes_of_word :: "word32 \<Rightarrow> byte8 list" where
  "bytes_of_word w = [ucast (drop_bit 24 w), ucast (drop_bit 16 w), ucast (drop_bit 8 w), ucast w]"

definition state_bytes :: "hash_state \<Rightarrow> byte8 list" where
  "state_bytes st = (case st of (a, b, c, d, e, f, g, h) \<Rightarrow> concat (map bytes_of_word [a, b, c, d, e, f, g, h]))"

definition Sum256 :: "byte8 list \<Rightarrow> byte8 list" where
  "Sum256 bs = state_bytes (foldl compress H256 (blocks (pad bs)))"

text \<open>The bytes of a Go string, and its digest in hexadecimal.\<close>

definition str_bytes :: "string \<Rightarrow> byte8 list" where
  "str_bytes s = map (word_of_nat \<circ> byte) s"

definition sha256_hex :: "string \<Rightarrow> string" where
  "sha256_hex s = hex_bytes (Sum256 (str_bytes s))"

lemma length_hex_bytes [simp]: "length (hex_bytes bs) = 2 * length bs"
  by (induction bs) (simp_all add: hex_bytes_def hex_byte_def)

lemma length_Sum256 [simp]: "length (Sum256 bs) = 32"
  by (simp add: Sum256_def state_bytes_def bytes_of_word_def split: prod.split)

lemma length_sha256_hex [simp]: "length (sha256_hex s) = 64"
  by (simp add: sha256_hex_def)

text \<open>Hexadecimal is injective: different digests are different strings.\<close>

lemma hex_digit_inj: "i < 16 \<Longrightarrow> j < 16 \<Longrightarrow> hex_digit i = hex_digit j \<Longrightarrow> i = j"
  by (metis hex_val_hex_digit option.inject)

lemma hex_byte_inj: "hex_byte a = hex_byte b \<longleftrightarrow> a = b"
proof
  assume "hex_byte a = hex_byte b"
  moreover have "unat a < 256" "unat b < 256"
    using unsigned_less [of a] unsigned_less [of b] by simp_all
  ultimately have "unat a div 16 = unat b div 16 \<and> unat a mod 16 = unat b mod 16"
    using hex_digit_inj [of "unat a div 16" "unat b div 16"] hex_digit_inj [of "unat a mod 16" "unat b mod 16"]
    by (simp add: hex_byte_def)
  then show "a = b" by (metis div_mult_mod_eq unsigned_word_eqI)
qed simp

lemma hex_bytes_inj: "hex_bytes as = hex_bytes bs \<longleftrightarrow> as = bs"
proof (induction as arbitrary: bs)
  case Nil
  show ?case by (cases bs) (simp_all add: hex_bytes_def hex_byte_def)
next
  case (Cons a as)
  show ?case
  proof (cases bs)
    case Nil
    then show ?thesis by (simp add: hex_bytes_def hex_byte_def)
  next
    case c: (Cons b bs')
    have "hex_bytes (a # as) = hex_bytes (b # bs') \<longleftrightarrow> hex_byte a = hex_byte b \<and> hex_bytes as = hex_bytes bs'"
      by (auto simp: hex_bytes_def hex_byte_def)
    then show ?thesis using Cons.IH by (simp add: c hex_byte_inj)
  qed
qed

lemma str_bytes_inj: "str_bytes s = str_bytes t \<longleftrightarrow> s = t"
proof -
  have "inj (\<lambda>c. word_of_nat (byte c) :: byte8)"
  proof (rule injI)
    fix c d assume eq: "(word_of_nat (byte c) :: byte8) = word_of_nat (byte d)"
    have "unat (word_of_nat (byte c) :: byte8) = byte c" for c
      using byte_bound [of c] by (simp add: unat_of_nat take_bit_nat_eq_self)
    with eq have "byte c = byte d" by metis
    then show "c = d" using char_of_byte by metis
  qed
  then show ?thesis by (simp add: str_bytes_def o_def inj_map_eq_map)
qed

text \<open>Two texts with one digest are the same text or a collision of SHA-256.\<close>

definition collision :: "string \<Rightarrow> string \<Rightarrow> bool" where
  "collision s t \<longleftrightarrow> s \<noteq> t \<and> Sum256 (str_bytes s) = Sum256 (str_bytes t)"

lemma sha256_hex_eq: "sha256_hex s = sha256_hex t \<longleftrightarrow> s = t \<or> collision s t"
  by (auto simp: sha256_hex_def hex_bytes_inj collision_def)

end
