(* ===== verification/Catalog_Store.thy ===== *)
theory Catalog_Store
  imports Json_Struct Sha256
begin

unbundle bit_operations_syntax

text \<open>
  The SQLite catalog behind package \<open>internal/catalog\<close>: its tables as the migrations in
  \<open>internal/catalog/migrations\<close> create them, the constraints they declare, and transactions.

  A table is the list of its rows in insertion (rowid) order. An \<open>INSERT\<close> checks what the
  schema checks at once: primary keys, \<open>UNIQUE\<close>, \<open>CHECK\<close> and the immediate foreign keys. The one
  deferred foreign key, \<open>publications.current_manifest_id\<close>, is checked at \<open>COMMIT\<close>. A transaction
  works on a copy: an error anywhere leaves the catalog as it was (the deferred \<open>Rollback\<close>).
  What the environment decides is the record \<open>env\<close>: the random bytes \<open>NewID\<close> draws, the clock, and
  which statement of the transaction, if any, fails in the driver.
\<close>

section \<open>Tables\<close>

record project_row =
  prw_id :: string
  prw_prefix :: string
  prw_display_name :: string
  prw_description :: string
  prw_entity_revision :: string
  prw_created_at :: string
  prw_updated_at :: string

record publication_row =
  pub_id :: string
  pub_project_id :: string
  pub_path :: string
  pub_display_name :: string
  pub_description :: string
  pub_entry_point :: string
  pub_routing_mode :: string
  pub_content_changed_at :: string
  pub_entity_revision :: string
  pub_current_manifest_id :: "string option"
  pub_created_at :: string
  pub_updated_at :: string

record manifest_row =
  man_id :: string
  man_publication_id :: string
  man_plan_digest :: string
  man_created_at :: string

record object_row =
  obj_manifest_id :: string
  obj_key :: string
  obj_relative_path :: string
  obj_size :: int64
  obj_etag :: string
  obj_modified_at :: string
  obj_content_type :: string
  obj_content_encoding :: string
  obj_cache_control :: string
  obj_user_metadata :: string
  obj_sha256 :: string

record observation_row =
  obs_id :: string
  obs_observed_at :: string
  obs_status :: string
  obs_details_json :: string
  obs_mutation_lock :: string
  obs_total_bytes :: int64
  obs_accepted_bytes :: int64
  obs_unclaimed_bytes :: int64

record publication_observation_row =
  pob_id :: string
  pob_observation_id :: string
  pob_publication_id :: string
  pob_state :: string
  pob_observed_size :: "int64 option"
  pob_status_detail :: string

record operation_row =
  op_operation_id :: string
  op_request_hash :: string
  op_plan_digest :: string
  op_status :: string
  op_result_json :: string
  op_created_at :: string

record catalog =
  projects :: "project_row list"
  publications :: "publication_row list"
  manifest_revisions :: "manifest_row list"
  manifest_objects :: "object_row list"
  observations :: "observation_row list"
  publication_observations :: "publication_observation_row list"
  adoption_operations :: "operation_row list"

definition empty_catalog :: catalog where
  "empty_catalog = \<lparr>projects = [], publications = [], manifest_revisions = [], manifest_objects = [],
     observations = [], publication_observations = [], adoption_operations = []\<rparr>"

section \<open>Constraints\<close>

definition constraint :: "string \<Rightarrow> error" where
  "constraint what = Errorf ''constraint failed: %s'' [what]"

definition routing_modes :: "string list" where
  "routing_modes = [''exact_file'', ''directory_index'', ''fallback'']"

definition observation_states :: "string list" where
  "observation_states = [''in_sync'', ''drifted'', ''missing'']"

definition mutation_locks :: "string list" where
  "mutation_locks = [''none'', ''global'', ''publication'']"

definition insert_project :: "project_row \<Rightarrow> catalog \<Rightarrow> catalog res" where
  "insert_project r c =
     (if length (prw_id r) = 36 \<and> prw_id r \<notin> prw_id ` set (projects c)
         \<and> prw_prefix r \<notin> prw_prefix ` set (projects c)
      then Inr (c\<lparr>projects := projects c @ [r]\<rparr>) else Inl (constraint ''projects''))"

definition insert_publication :: "publication_row \<Rightarrow> catalog \<Rightarrow> catalog res" where
  "insert_publication r c =
     (if length (pub_id r) = 36 \<and> pub_id r \<notin> pub_id ` set (publications c)
         \<and> pub_path r \<notin> pub_path ` set (publications c)
         \<and> pub_project_id r \<in> prw_id ` set (projects c)
         \<and> pub_routing_mode r \<in> set routing_modes
      then Inr (c\<lparr>publications := publications c @ [r]\<rparr>) else Inl (constraint ''publications''))"

definition insert_manifest :: "manifest_row \<Rightarrow> catalog \<Rightarrow> catalog res" where
  "insert_manifest r c =
     (if length (man_id r) = 36 \<and> man_id r \<notin> man_id ` set (manifest_revisions c)
         \<and> man_publication_id r \<in> pub_id ` set (publications c)
      then Inr (c\<lparr>manifest_revisions := manifest_revisions c @ [r]\<rparr>)
      else Inl (constraint ''manifest_revisions''))"

definition insert_object :: "object_row \<Rightarrow> catalog \<Rightarrow> catalog res" where
  "insert_object r c =
     (if (obj_manifest_id r, obj_key r) \<notin> (\<lambda>r. (obj_manifest_id r, obj_key r)) ` set (manifest_objects c)
         \<and> obj_manifest_id r \<in> man_id ` set (manifest_revisions c) \<and> \<not> negative (obj_size r)
      then Inr (c\<lparr>manifest_objects := manifest_objects c @ [r]\<rparr>)
      else Inl (constraint ''manifest_objects''))"

definition insert_observation :: "observation_row \<Rightarrow> catalog \<Rightarrow> catalog res" where
  "insert_observation r c =
     (if length (obs_id r) = 36 \<and> obs_id r \<notin> obs_id ` set (observations c)
         \<and> obs_mutation_lock r \<in> set mutation_locks \<and> \<not> negative (obs_total_bytes r)
         \<and> \<not> negative (obs_accepted_bytes r) \<and> \<not> negative (obs_unclaimed_bytes r)
      then Inr (c\<lparr>observations := observations c @ [r]\<rparr>) else Inl (constraint ''observations''))"

definition insert_publication_observation :: "publication_observation_row \<Rightarrow> catalog \<Rightarrow> catalog res" where
  "insert_publication_observation r c =
     (if length (pob_id r) = 36 \<and> pob_id r \<notin> pob_id ` set (publication_observations c)
         \<and> (pob_observation_id r, pob_publication_id r)
             \<notin> (\<lambda>r. (pob_observation_id r, pob_publication_id r)) ` set (publication_observations c)
         \<and> pob_observation_id r \<in> obs_id ` set (observations c)
         \<and> pob_publication_id r \<in> pub_id ` set (publications c)
         \<and> pob_state r \<in> set observation_states
      then Inr (c\<lparr>publication_observations := publication_observations c @ [r]\<rparr>)
      else Inl (constraint ''publication_observations''))"

definition insert_operation :: "operation_row \<Rightarrow> catalog \<Rightarrow> catalog res" where
  "insert_operation r c =
     (if op_operation_id r \<notin> op_operation_id ` set (adoption_operations c) \<and> op_status r = ''committed''
      then Inr (c\<lparr>adoption_operations := adoption_operations c @ [r]\<rparr>)
      else Inl (constraint ''adoption_operations''))"

text \<open>The deferred foreign key, checked when the transaction commits.\<close>

definition deferred_ok :: "catalog \<Rightarrow> bool" where
  "deferred_ok c \<longleftrightarrow> list_all (\<lambda>p. case pub_current_manifest_id p of
       None \<Rightarrow> True | Some m \<Rightarrow> m \<in> man_id ` set (manifest_revisions c)) (publications c)"

section \<open>Identities\<close>

text \<open>\<open>NewID\<close> of \<open>ids.go\<close>, from its 16 random bytes: the version nibble is 4, the variant bits are 10.\<close>

definition uuid :: "byte8 list \<Rightarrow> string" where
  "uuid rand =
     (let bs = rand[6 := (rand ! 6 AND 0x0f) OR 0x40];
          bs = bs[8 := (bs ! 8 AND 0x3f) OR 0x80];
          hexed = hex_bytes bs
      in take 8 hexed @ ''-'' @ take 4 (drop 8 hexed) @ ''-'' @ take 4 (drop 12 hexed) @ ''-''
         @ take 4 (drop 16 hexed) @ ''-'' @ take 12 (drop 20 hexed))"

section \<open>Transactions\<close>

record env =
  env_rand :: "nat \<Rightarrow> nat \<Rightarrow> byte8"
  env_now :: time
  env_fault :: "nat \<Rightarrow> bool"

record tx =
  tx_cat :: catalog
  tx_ids :: nat
  tx_stmts :: nat

definition driver_error :: error where
  "driver_error = Errorf ''catalog driver error'' []"

text \<open>\<open>s.db.Begin()\<close>.\<close>

definition begin_tx :: "env \<Rightarrow> catalog \<Rightarrow> tx res" where
  "begin_tx e c =
     (if env_fault e 0 then Inl driver_error else Inr \<lparr>tx_cat = c, tx_ids = 0, tx_stmts = 1\<rparr>)"

text \<open>The \<open>n\<close>-th query of an operation that runs outside a transaction.\<close>

definition query_db :: "env \<Rightarrow> nat \<Rightarrow> 'a \<Rightarrow> 'a res" where
  "query_db e n x = (if env_fault e n then Inl driver_error else Inr x)"

definition draw :: "env \<Rightarrow> nat \<Rightarrow> string" where
  "draw e n = uuid (map (env_rand e n) [0..<16])"

lemma uuid_first_byte:
  assumes "length rand = 16"
  shows "take 2 (uuid rand) = hex_byte (rand ! 0)"
proof -
  let ?bs = "rand[6 := (rand ! 6 AND 0x0f) OR 0x40]"
  let ?cs = "?bs[8 := (?bs ! 8 AND 0x3f) OR 0x80]"
  have ne: "?cs \<noteq> []" using assms by auto
  moreover have "hd ?cs = rand ! 0" using hd_conv_nth [OF ne] assms by (simp add: nth_list_update)
  ultimately obtain bs where "?cs = rand ! 0 # bs" by (metis list.exhaust_sel)
  then show ?thesis by (simp add: uuid_def Let_def hex_bytes_def hex_byte_def take_Cons')
qed

text \<open>The version nibble is 4 and the variant bits are 10.\<close>

lemma unat_nibble: "unat (b :: byte8) div 16 = unat (drop_bit 4 b)"
  by (simp only: unat_drop_bit_eq) (simp add: drop_bit_eq_div)

lemma version_nibble: "unat ((w AND 0x0f) OR 0x40 :: byte8) div 16 = 4"
  unfolding unat_nibble by (simp add: drop_bit_and drop_bit_or)

lemma and_3_cases: "(x :: byte8) AND 3 \<in> {0, 1, 2, 3}"
proof -
  have "x AND 3 = x AND mask 2" by (simp add: mask_eq_exp_minus_1)
  then have "unat (x AND 3) < 4" using and_mask_less' [of 2 x] by (simp add: word_less_nat_alt)
  then have "unat (x AND 3) \<in> {0, 1, 2, 3}" by auto
  moreover have "x AND 3 = word_of_nat n" if "unat (x AND 3) = n" for n
    using that by (metis of_nat_unat ucast_id)
  ultimately show ?thesis by fastforce
qed

lemma variant_nibble: "unat ((w AND 0x3f) OR 0x80 :: byte8) div 16 \<in> {8, 9, 10, 11}"
proof -
  have "drop_bit 4 ((w AND 0x3f) OR 0x80 :: byte8) = (drop_bit 4 w AND 3) OR 8"
    by (simp add: drop_bit_and drop_bit_or)
  then show ?thesis using and_3_cases [of "drop_bit 4 w"] unfolding unat_nibble by auto
qed

definition uuid_shape :: "string \<Rightarrow> bool" where
  "uuid_shape s \<longleftrightarrow> length s = 36 \<and> s ! 8 = CHR ''-'' \<and> s ! 13 = CHR ''-'' \<and> s ! 18 = CHR ''-'' \<and>
     s ! 23 = CHR ''-'' \<and> s ! 14 = CHR ''4'' \<and> s ! 19 \<in> set ''89ab''"

lemma hex_digits_used:
  "hex_digit 4 = CHR ''4''" "hex_digit 8 = CHR ''8''" "hex_digit 9 = CHR ''9''" "hex_digit 10 = CHR ''a''"
  "hex_digit 11 = CHR ''b''"
  by (simp_all add: hex_digit_def char_of_def bit_0)

lemma uuid_has_shape:
  assumes "length rand = 16"
  shows "uuid_shape (uuid rand)"
proof -
  obtain r0 r1 r2 r3 r4 r5 r6 r7 r8 r9 r10 r11 r12 r13 r14 r15 where
    r: "rand = [r0, r1, r2, r3, r4, r5, r6, r7, r8, r9, r10, r11, r12, r13, r14, r15]"
    using assms by (auto simp: length_Suc_conv eval_nat_numeral)
  define v where "v = (r6 AND 0x0f) OR 0x40"
  define w where "w = (r8 AND 0x3f) OR 0x80"
  have v: "hex_digit (unat v div 16) = CHR ''4''"
    unfolding v_def version_nibble by (rule hex_digits_used)
  have w: "hex_digit (unat w div 16) \<in> set ''89ab''"
    using variant_nibble [of r8] unfolding w_def [symmetric] by (auto simp: hex_digits_used)
  have "rand[6 := v, 8 := w] = [r0, r1, r2, r3, r4, r5, v, r7, w, r9, r10, r11, r12, r13, r14, r15]"
    by (simp add: r)
  then have "uuid rand = take 8 (hex_bytes [r0, r1, r2, r3, r4, r5, v, r7, w, r9, r10, r11, r12, r13, r14, r15])
      @ ''-'' @ take 4 (drop 8 (hex_bytes [r0, r1, r2, r3, r4, r5, v, r7, w, r9, r10, r11, r12, r13, r14, r15]))
      @ ''-'' @ take 4 (drop 12 (hex_bytes [r0, r1, r2, r3, r4, r5, v, r7, w, r9, r10, r11, r12, r13, r14, r15]))
      @ ''-'' @ take 4 (drop 16 (hex_bytes [r0, r1, r2, r3, r4, r5, v, r7, w, r9, r10, r11, r12, r13, r14, r15]))
      @ ''-'' @ take 12 (drop 20 (hex_bytes [r0, r1, r2, r3, r4, r5, v, r7, w, r9, r10, r11, r12, r13, r14, r15]))"
    by (simp add: uuid_def Let_def r v_def w_def)
  then show ?thesis using v w by (simp add: uuid_shape_def hex_bytes_def hex_byte_def)
qed

lemma draw_first_byte: "draw e n = draw e' m \<Longrightarrow> env_rand e n 0 = env_rand e' m 0"
  using uuid_first_byte [of "map (env_rand e n) [0..<16]"] uuid_first_byte [of "map (env_rand e' m) [0..<16]"]
  by (simp add: draw_def hex_byte_inj)

text \<open>\<open>NewID\<close>: the next 16 random bytes as a UUIDv4; \<open>env_rand e n i\<close> is byte \<open>i\<close> of draw \<open>n\<close>.\<close>

definition NewID :: "env \<Rightarrow> tx \<Rightarrow> string \<times> tx" where
  "NewID e t = (draw e (tx_ids t), t\<lparr>tx_ids := Suc (tx_ids t)\<rparr>)"

text \<open>\<open>tx.Exec\<close>: the statement fails in the driver, violates a constraint, or takes effect.\<close>

definition exec :: "env \<Rightarrow> (catalog \<Rightarrow> catalog res) \<Rightarrow> tx \<Rightarrow> tx res" where
  "exec e stmt t =
     (if env_fault e (tx_stmts t) then Inl driver_error
      else case stmt (tx_cat t) of Inl err \<Rightarrow> Inl err
        | Inr c \<Rightarrow> Inr (t\<lparr>tx_cat := c, tx_stmts := Suc (tx_stmts t)\<rparr>))"

text \<open>\<open>tx.QueryRow\<close>: the result of a query on the transaction's state.\<close>

definition query_row :: "env \<Rightarrow> (catalog \<Rightarrow> 'a) \<Rightarrow> tx \<Rightarrow> ('a \<times> tx) res" where
  "query_row e q t =
     (if env_fault e (tx_stmts t) then Inl driver_error
      else Inr (q (tx_cat t), t\<lparr>tx_stmts := Suc (tx_stmts t)\<rparr>))"

definition commit_tx :: "env \<Rightarrow> tx \<Rightarrow> catalog res" where
  "commit_tx e t =
     (if env_fault e (tx_stmts t) then Inl driver_error
      else if deferred_ok (tx_cat t) then Inr (tx_cat t)
      else Inl (constraint ''FOREIGN KEY''))"

text \<open>Loops over a transaction that stop at the first error.\<close>

fun fold_tx :: "('a \<Rightarrow> 's \<Rightarrow> 's res) \<Rightarrow> 'a list \<Rightarrow> 's \<Rightarrow> 's res" where
  "fold_tx f [] t = Inr t"
| "fold_tx f (x # xs) t = bind_res (f x t) (fold_tx f xs)"

fun map_tx :: "('a \<Rightarrow> 's \<Rightarrow> ('b \<times> 's) res) \<Rightarrow> 'a list \<Rightarrow> 's \<Rightarrow> ('b list \<times> 's) res" where
  "map_tx f [] t = Inr ([], t)"
| "map_tx f (x # xs) t =
     bind_res (f x t) (\<lambda>(y, t). bind_res (map_tx f xs t) (\<lambda>(ys, t). Inr (y # ys, t)))"

text \<open>The outcome of a function that runs one transaction: the catalog changes on success only.\<close>

definition run_tx :: "catalog \<Rightarrow> ('a \<times> catalog) res \<Rightarrow> 'a res \<times> catalog" where
  "run_tx c r = (case r of Inl e \<Rightarrow> (Inl e, c) | Inr (x, c') \<Rightarrow> (Inr x, c'))"

lemma run_tx_Inl: "run_tx c r = (Inl e, c') \<Longrightarrow> c' = c"
  by (auto simp: run_tx_def split: sum.splits)

lemma run_tx_Inr: "run_tx c r = (Inr x, c') \<longleftrightarrow> r = Inr (x, c')"
  by (auto simp: run_tx_def split: sum.splits)

section \<open>The schema's invariant\<close>

definition catalog_ok :: "catalog \<Rightarrow> bool" where
  "catalog_ok c \<longleftrightarrow>
     distinct (map prw_id (projects c)) \<and> distinct (map prw_prefix (projects c)) \<and>
     distinct (map pub_id (publications c)) \<and> distinct (map pub_path (publications c)) \<and>
     pub_project_id ` set (publications c) \<subseteq> prw_id ` set (projects c) \<and>
     pub_routing_mode ` set (publications c) \<subseteq> set routing_modes \<and>
     distinct (map man_id (manifest_revisions c)) \<and>
     man_publication_id ` set (manifest_revisions c) \<subseteq> pub_id ` set (publications c) \<and>
     distinct (map (\<lambda>r. (obj_manifest_id r, obj_key r)) (manifest_objects c)) \<and>
     obj_manifest_id ` set (manifest_objects c) \<subseteq> man_id ` set (manifest_revisions c) \<and>
     (\<forall>r \<in> set (manifest_objects c). \<not> negative (obj_size r)) \<and>
     distinct (map obs_id (observations c)) \<and>
     distinct (map pob_id (publication_observations c)) \<and>
     distinct (map (\<lambda>r. (pob_observation_id r, pob_publication_id r)) (publication_observations c)) \<and>
     pob_observation_id ` set (publication_observations c) \<subseteq> obs_id ` set (observations c) \<and>
     pob_publication_id ` set (publication_observations c) \<subseteq> pub_id ` set (publications c) \<and>
     pob_state ` set (publication_observations c) \<subseteq> set observation_states \<and>
     distinct (map op_operation_id (adoption_operations c))"

named_theorems insert_defs \<open>the INSERT statements\<close>

declare insert_project_def [insert_defs] insert_publication_def [insert_defs] insert_manifest_def [insert_defs]
  insert_object_def [insert_defs] insert_observation_def [insert_defs]
  insert_publication_observation_def [insert_defs] insert_operation_def [insert_defs]

lemma catalog_ok_empty: "catalog_ok empty_catalog" "deferred_ok empty_catalog"
  by (simp_all add: catalog_ok_def empty_catalog_def deferred_ok_def)

lemma insert_project_ok: "insert_project r c = Inr c' \<Longrightarrow> catalog_ok c \<Longrightarrow> catalog_ok c'"
  by (clarsimp simp: insert_defs catalog_ok_def subset_insertI2 split: if_splits)

lemma insert_publication_ok: "insert_publication r c = Inr c' \<Longrightarrow> catalog_ok c \<Longrightarrow> catalog_ok c'"
  by (clarsimp simp: insert_defs catalog_ok_def subset_insertI2 split: if_splits)

lemma insert_manifest_ok: "insert_manifest r c = Inr c' \<Longrightarrow> catalog_ok c \<Longrightarrow> catalog_ok c'"
  by (clarsimp simp: insert_defs catalog_ok_def subset_insertI2 split: if_splits)

lemma insert_object_ok: "insert_object r c = Inr c' \<Longrightarrow> catalog_ok c \<Longrightarrow> catalog_ok c'"
  by (clarsimp simp: insert_defs catalog_ok_def subset_insertI2 split: if_splits)

lemma insert_observation_ok: "insert_observation r c = Inr c' \<Longrightarrow> catalog_ok c \<Longrightarrow> catalog_ok c'"
  by (clarsimp simp: insert_defs catalog_ok_def subset_insertI2 split: if_splits)

lemma insert_publication_observation_ok:
  "insert_publication_observation r c = Inr c' \<Longrightarrow> catalog_ok c \<Longrightarrow> catalog_ok c'"
  by (clarsimp simp: insert_defs catalog_ok_def subset_insertI2 split: if_splits)

lemma insert_operation_ok: "insert_operation r c = Inr c' \<Longrightarrow> catalog_ok c \<Longrightarrow> catalog_ok c'"
  by (clarsimp simp: insert_defs catalog_ok_def subset_insertI2 split: if_splits)

lemmas insert_ok = insert_project_ok insert_publication_ok insert_manifest_ok insert_object_ok
  insert_observation_ok insert_publication_observation_ok insert_operation_ok

lemma exec_Inr [res_iff]: "exec e stmt t = Inr t' \<longleftrightarrow>
    \<not> env_fault e (tx_stmts t) \<and> (\<exists>c. stmt (tx_cat t) = Inr c \<and> t' = t\<lparr>tx_cat := c, tx_stmts := Suc (tx_stmts t)\<rparr>)"
  by (auto simp: exec_def split: sum.splits)

lemma query_row_Inr [res_iff]: "query_row e q t = Inr (x, t') \<longleftrightarrow>
    \<not> env_fault e (tx_stmts t) \<and> x = q (tx_cat t) \<and> t' = t\<lparr>tx_stmts := Suc (tx_stmts t)\<rparr>"
  by (auto simp: query_row_def)

lemma begin_tx_Inr [res_iff]: "begin_tx e c = Inr t \<longleftrightarrow> \<not> env_fault e 0 \<and> t = \<lparr>tx_cat = c, tx_ids = 0, tx_stmts = 1\<rparr>"
  by (auto simp: begin_tx_def)

lemma query_db_Inr [res_iff]: "query_db e n x = Inr y \<longleftrightarrow> \<not> env_fault e n \<and> y = x"
  by (auto simp: query_db_def)

lemma commit_tx_Inr [res_iff]: "commit_tx e t = Inr c \<longleftrightarrow>
    \<not> env_fault e (tx_stmts t) \<and> deferred_ok (tx_cat t) \<and> c = tx_cat t"
  by (auto simp: commit_tx_def)

lemma length_uuid: "length rand = 16 \<Longrightarrow> length (uuid rand) = 36"
  by (simp add: uuid_def Let_def)

lemma length_draw [simp]: "length (draw e n) = 36"
  by (simp add: draw_def length_uuid)

end
