(* ===== verification/Catalog_Adopt.thy ===== *)
theory Catalog_Adopt
  imports Catalog_Store
begin

text \<open>
  \<open>internal/catalog/adopt.go\<close>: the durable adoption operation. \<open>CommitAdoptionBatch\<close> normalises the
  batch, rechecks its preconditions and inserts every Project, Publication, manifest revision and
  object in the code's order inside one transaction, with the identities drawn in the code's order;
  \<open>FindOperation\<close> finds the recorded result. The abstract specification is \<open>accepted\<close>: the accepted
  Publications of a catalog with their current manifests. A commit that succeeds appends exactly the
  normalised batch to it, one that fails changes nothing, and fresh identities, free prefixes and
  paths and a working driver are enough for it to succeed.
\<close>

section \<open>Batches and results\<close>

record adopted_object =
  ao_Key :: string
  ao_RelativePath :: string
  ao_Size :: int64
  ao_ETag :: string
  ao_ModifiedAt :: string
  ao_ContentType :: string
  ao_ContentEncoding :: string
  ao_CacheControl :: string
  ao_UserMetadata :: str_map
  ao_SHA256 :: string

record adopted_publication =
  ap_Path :: string
  ap_DisplayName :: string
  ap_Description :: string
  ap_EntryPoint :: string
  ap_RoutingMode :: string
  ap_ContentChangedAt :: string
  ap_Objects :: "adopted_object list"

record adopted_project =
  aj_Prefix :: string
  aj_DisplayName :: string
  aj_Description :: string
  aj_Publications :: "adopted_publication list"

record batch_input =
  bi_OperationID :: string
  bi_RequestHash :: string
  bi_PlanDigest :: string
  bi_Projects :: "adopted_project list"

record publication_result =
  pr_PublicationID :: string
  pr_PublicationPath :: string
  pr_ManifestRevisionID :: string
  pr_ObjectCount :: int
  pr_AcceptedSize :: int64

record project_result =
  jr_ProjectID :: string
  jr_ProjectPrefix :: string
  jr_Publications :: "publication_result list"

record adoption_result =
  ar_OperationID :: string
  ar_Status :: string
  ar_ObjectCount :: int
  ar_AcceptedSize :: int64
  ar_Projects :: "project_result list"
  ar_CommittedAt :: string

record operation_record =
  or_OperationID :: string
  or_RequestHash :: string
  or_PlanDigest :: string
  or_ResultJSON :: string

section \<open>The JSON of a result\<close>

definition json_of_publication_result :: "publication_result \<Rightarrow> json" where
  "json_of_publication_result r = JObj
     [(''publicationId'', JStr (pr_PublicationID r)), (''publicationPath'', JStr (pr_PublicationPath r)),
      (''manifestRevisionId'', JStr (pr_ManifestRevisionID r)), (''objectCount'', JNum (pr_ObjectCount r)),
      (''acceptedSize'', json_int64 (pr_AcceptedSize r))]"

definition json_of_project_result :: "project_result \<Rightarrow> json" where
  "json_of_project_result r = JObj
     [(''projectId'', JStr (jr_ProjectID r)), (''projectPrefix'', JStr (jr_ProjectPrefix r)),
      (''publications'', json_array json_of_publication_result (jr_Publications r))]"

definition json_of_result :: "adoption_result \<Rightarrow> json" where
  "json_of_result r = JObj
     [(''operationId'', JStr (ar_OperationID r)), (''status'', JStr (ar_Status r)),
      (''objectCount'', JNum (ar_ObjectCount r)), (''acceptedSize'', json_int64 (ar_AcceptedSize r)),
      (''projects'', json_array json_of_project_result (ar_Projects r)),
      (''committedAt'', JStr (ar_CommittedAt r))]"

definition decode_publication_result :: "json \<Rightarrow> publication_result option" where
  "decode_publication_result j =
     Option.bind (decode_obj j) (\<lambda>kvs.
     Option.bind (decode_str (get_field kvs ''publicationId'')) (\<lambda>i.
     Option.bind (decode_str (get_field kvs ''publicationPath'')) (\<lambda>p.
     Option.bind (decode_str (get_field kvs ''manifestRevisionId'')) (\<lambda>m.
     Option.bind (decode_int (get_field kvs ''objectCount'')) (\<lambda>n.
     Option.bind (decode_int64 (get_field kvs ''acceptedSize'')) (\<lambda>a.
       Some \<lparr>pr_PublicationID = i, pr_PublicationPath = p, pr_ManifestRevisionID = m,
             pr_ObjectCount = n, pr_AcceptedSize = a\<rparr>))))))"

definition decode_project_result :: "json \<Rightarrow> project_result option" where
  "decode_project_result j =
     Option.bind (decode_obj j) (\<lambda>kvs.
     Option.bind (decode_str (get_field kvs ''projectId'')) (\<lambda>i.
     Option.bind (decode_str (get_field kvs ''projectPrefix'')) (\<lambda>p.
     Option.bind (decode_list decode_publication_result (get_field kvs ''publications'')) (\<lambda>ps.
       Some \<lparr>jr_ProjectID = i, jr_ProjectPrefix = p, jr_Publications = ps\<rparr>))))"

text \<open>\<open>json.Unmarshal\<close> into an \<open>AdoptionResult\<close>.\<close>

definition decode_result :: "json \<Rightarrow> adoption_result option" where
  "decode_result j =
     Option.bind (decode_obj j) (\<lambda>kvs.
     Option.bind (decode_str (get_field kvs ''operationId'')) (\<lambda>i.
     Option.bind (decode_str (get_field kvs ''status'')) (\<lambda>s.
     Option.bind (decode_int (get_field kvs ''objectCount'')) (\<lambda>n.
     Option.bind (decode_int64 (get_field kvs ''acceptedSize'')) (\<lambda>a.
     Option.bind (decode_list decode_project_result (get_field kvs ''projects'')) (\<lambda>ps.
     Option.bind (decode_str (get_field kvs ''committedAt'')) (\<lambda>t.
       Some \<lparr>ar_OperationID = i, ar_Status = s, ar_ObjectCount = n, ar_AcceptedSize = a,
             ar_Projects = ps, ar_CommittedAt = t\<rparr>)))))))"

section \<open>Normalising the batch\<close>

text \<open>The inner loop of \<open>normalizeBatchProjects\<close>; \<open>seen\<close> holds the keys of \<open>seenPaths\<close>.\<close>

fun normalize_paths :: "string \<Rightarrow> string set \<Rightarrow> adopted_publication list \<Rightarrow> string set res" where
  "normalize_paths prfx seen [] = Inr seen"
| "normalize_paths prfx seen (p # ps) =
     (if ap_Path p = [] then Inl (Errorf ''every adopted publication of project %q needs a path'' [prfx])
      else if ap_Path p \<in> seen then Inl (Errorf ''publication path %q is declared twice in the batch'' [ap_Path p])
      else if ap_Objects p = [] then Inl (Errorf ''adopted publication %q has no objects'' [ap_Path p])
      else normalize_paths prfx (insert (ap_Path p) seen) ps)"

fun normalize_loop :: "string set \<Rightarrow> string set \<Rightarrow> adopted_project list \<Rightarrow> adopted_project list res" where
  "normalize_loop seenPrefixes seenPaths [] = Inr []"
| "normalize_loop seenPrefixes seenPaths (j # js) =
     (if aj_Prefix j = [] then Inl (Errorf ''every adopted project needs a prefix'' [])
      else if aj_Publications j = [] then Inl (Errorf ''adopted project %q has no publications'' [aj_Prefix j])
      else if aj_Prefix j \<in> seenPrefixes
      then Inl (Errorf ''project prefix %q is declared twice in the batch'' [aj_Prefix j])
      else let sorted = sort_key ap_Path (aj_Publications j) in
        bind_res (normalize_paths (aj_Prefix j) seenPaths sorted) (\<lambda>seen.
        bind_res (normalize_loop (insert (aj_Prefix j) seenPrefixes) seen js) (\<lambda>rest.
          Inr (j\<lparr>aj_Publications := sorted\<rparr> # rest))))"

definition normalizeBatchProjects :: "adopted_project list \<Rightarrow> adopted_project list res" where
  "normalizeBatchProjects js =
     (if js = [] then Inl (Errorf ''an adoption batch must contain at least one project'' [])
      else map_sum id (sort_key aj_Prefix) (normalize_loop {} {} js))"

section \<open>The transaction\<close>

definition check_free :: "env \<Rightarrow> (catalog \<Rightarrow> bool) \<Rightarrow> error \<Rightarrow> string \<Rightarrow> tx \<Rightarrow> tx res" where
  "check_free e found managed failed t =
     bind_res (wrap_res failed [] (query_row e found t)) (\<lambda>(hit, t). if hit then Inl managed else Inr t)"

definition check_publication :: "env \<Rightarrow> adopted_publication \<Rightarrow> tx \<Rightarrow> tx res" where
  "check_publication e p =
     check_free e (\<lambda>c. ap_Path p \<in> pub_path ` set (publications c))
       (Errorf ''publication path %q is already managed'' [ap_Path p]) ''check publication path: %w''"

definition check_project :: "env \<Rightarrow> adopted_project \<Rightarrow> tx \<Rightarrow> tx res" where
  "check_project e j t =
     bind_res (check_free e (\<lambda>c. aj_Prefix j \<in> prw_prefix ` set (projects c))
         (Errorf ''project prefix %q is already managed'' [aj_Prefix j]) ''check project prefix: %w'' t)
       (fold_tx (check_publication e) (aj_Publications j))"

definition check_operation :: "env \<Rightarrow> string \<Rightarrow> tx \<Rightarrow> tx res" where
  "check_operation e opid =
     check_free e (\<lambda>c. opid \<in> op_operation_id ` set (adoption_operations c))
       (Errorf ''operation ID %q already exists with different content'' [opid]) ''check adoption operation: %w''"

definition object_row_of :: "string \<Rightarrow> adopted_object \<Rightarrow> object_row" where
  "object_row_of m ob =
     \<lparr>obj_manifest_id = m, obj_key = ao_Key ob, obj_relative_path = ao_RelativePath ob, obj_size = ao_Size ob,
      obj_etag = ao_ETag ob, obj_modified_at = ao_ModifiedAt ob, obj_content_type = ao_ContentType ob,
      obj_content_encoding = ao_ContentEncoding ob, obj_cache_control = ao_CacheControl ob,
      obj_user_metadata = Marshal (json_of_map (ao_UserMetadata ob)), obj_sha256 = ao_SHA256 ob\<rparr>"

definition insert_adopted_object :: "env \<Rightarrow> string \<Rightarrow> adopted_object \<Rightarrow> tx \<Rightarrow> tx res" where
  "insert_adopted_object e m ob t =
     wrap_res ''insert manifest object %q: %w'' [ao_Key ob] (exec e (insert_object (object_row_of m ob)) t)"

definition adopt_publication ::
    "env \<Rightarrow> string \<Rightarrow> string \<Rightarrow> string \<Rightarrow> adopted_publication \<Rightarrow> tx \<Rightarrow> (publication_result \<times> tx) res" where
  "adopt_publication e now digest projectID p t =
     (let (publicationID, t) = NewID e t;
          (manifestID, t) = NewID e t;
          acceptedSize = sum_list (map ao_Size (ap_Objects p));
          (revision, t) = NewID e t in
      bind_res (wrap_res ''insert publication %q: %w'' [ap_Path p]
        (exec e (insert_publication
          \<lparr>pub_id = publicationID, pub_project_id = projectID, pub_path = ap_Path p,
           pub_display_name = ap_DisplayName p, pub_description = ap_Description p,
           pub_entry_point = ap_EntryPoint p, pub_routing_mode = ap_RoutingMode p,
           pub_content_changed_at = ap_ContentChangedAt p, pub_entity_revision = revision,
           pub_current_manifest_id = Some manifestID, pub_created_at = now, pub_updated_at = now\<rparr>) t)) (\<lambda>t.
      bind_res (wrap_res ''insert manifest revision for %q: %w'' [ap_Path p]
        (exec e (insert_manifest
          \<lparr>man_id = manifestID, man_publication_id = publicationID, man_plan_digest = digest,
           man_created_at = now\<rparr>) t)) (\<lambda>t.
      bind_res (fold_tx (insert_adopted_object e manifestID) (ap_Objects p) t) (\<lambda>t.
        Inr (\<lparr>pr_PublicationID = publicationID, pr_PublicationPath = ap_Path p,
              pr_ManifestRevisionID = manifestID, pr_ObjectCount = int (length (ap_Objects p)),
              pr_AcceptedSize = acceptedSize\<rparr>, t)))))"

definition adopt_project ::
    "env \<Rightarrow> string \<Rightarrow> string \<Rightarrow> adopted_project \<Rightarrow> tx \<Rightarrow> (project_result \<times> tx) res" where
  "adopt_project e now digest j t =
     (let (projectID, t) = NewID e t;
          (revision, t) = NewID e t in
      bind_res (wrap_res ''insert project %q: %w'' [aj_Prefix j]
        (exec e (insert_project
          \<lparr>prw_id = projectID, prw_prefix = aj_Prefix j, prw_display_name = aj_DisplayName j,
           prw_description = aj_Description j, prw_entity_revision = revision,
           prw_created_at = now, prw_updated_at = now\<rparr>) t)) (\<lambda>t.
      bind_res (map_tx (adopt_publication e now digest projectID) (aj_Publications j) t) (\<lambda>(ps, t).
        Inr (\<lparr>jr_ProjectID = projectID, jr_ProjectPrefix = aj_Prefix j, jr_Publications = ps\<rparr>, t))))"

text \<open>The result the loops assemble; the code leaves its \<open>CommittedAt\<close> at the zero value.\<close>

definition adoption_result_of :: "string \<Rightarrow> project_result list \<Rightarrow> adoption_result" where
  "adoption_result_of opid js =
     (let ps = concat (map jr_Publications js) in
      \<lparr>ar_OperationID = opid, ar_Status = ''committed'', ar_ObjectCount = sum_list (map pr_ObjectCount ps),
       ar_AcceptedSize = sum_list (map pr_AcceptedSize ps), ar_Projects = js, ar_CommittedAt = []\<rparr>)"

definition record_operation :: "env \<Rightarrow> string \<Rightarrow> batch_input \<Rightarrow> adoption_result \<Rightarrow> tx \<Rightarrow> tx res" where
  "record_operation e now input result t =
     wrap_res ''record adoption operation: %w'' [] (exec e (insert_operation
       \<lparr>op_operation_id = bi_OperationID input, op_request_hash = bi_RequestHash input,
        op_plan_digest = bi_PlanDigest input, op_status = ''committed'',
        op_result_json = Marshal (json_of_result result), op_created_at = now\<rparr>) t)"

definition commit_batch :: "env \<Rightarrow> batch_input \<Rightarrow> catalog \<Rightarrow> (adoption_result \<times> catalog) res" where
  "commit_batch e input c =
     (if bi_OperationID input = [] then Inl (Errorf ''an operation ID is required'' [])
      else bind_res (normalizeBatchProjects (bi_Projects input)) (\<lambda>js.
      bind_res (wrap_res ''begin adoption transaction: %w'' [] (begin_tx e c)) (\<lambda>t.
      bind_res (fold_tx (check_project e) js t) (\<lambda>t.
      bind_res (check_operation e (bi_OperationID input) t) (\<lambda>t.
      let now = FormatRFC3339 (env_now e) in
      bind_res (map_tx (adopt_project e now (bi_PlanDigest input)) js t) (\<lambda>(results, t).
      let result = adoption_result_of (bi_OperationID input) results in
      bind_res (record_operation e now input result t) (\<lambda>t.
      bind_res (wrap_res ''commit adoption transaction: %w'' [] (commit_tx e t)) (\<lambda>c'.
        Inr (result, c')))))))))"

text \<open>The deferred \<open>Rollback\<close>: whatever failed, the catalog is the one the transaction began with.\<close>

definition CommitAdoptionBatch :: "env \<Rightarrow> batch_input \<Rightarrow> catalog \<Rightarrow> adoption_result res \<times> catalog" where
  "CommitAdoptionBatch e input c = run_tx c (commit_batch e input c)"

definition FindOperation :: "env \<Rightarrow> string \<Rightarrow> catalog \<Rightarrow> operation_record option res" where
  "FindOperation e opid c =
     wrap_res ''look up adoption operation: %w'' [] (query_db e 0
       (map_option (\<lambda>r. \<lparr>or_OperationID = op_operation_id r, or_RequestHash = op_request_hash r,
           or_PlanDigest = op_plan_digest r, or_ResultJSON = op_result_json r\<rparr>)
         (find (\<lambda>r. op_operation_id r = opid) (adoption_operations c))))"

end
