(* ===== verification/Catalog_Accepted.thy ===== *)
theory Catalog_Accepted
  imports Catalog_Adopt
begin

text \<open>
  The abstract specification of the catalog and the refinement proof of adoption. \<open>accepted c\<close> is what
  the catalog has accepted: every Publication with its Project's prefix, its facts and the objects of
  its current manifest, without the identities the rows carry. An adoption that commits appends the
  offered Publications of the normalised batch, in its order, and touches neither the observations nor
  the earlier rows of any table.
\<close>

section \<open>Accepted state\<close>

record accepted_publication =
  acc_prefix :: "string option"
  acc_path :: string
  acc_display_name :: string
  acc_description :: string
  acc_entry_point :: string
  acc_routing_mode :: string
  acc_content_changed_at :: string
  acc_objects :: "object_row list"

definition anonymous :: "object_row \<Rightarrow> object_row" where
  "anonymous r = r\<lparr>obj_manifest_id := []\<rparr>"

definition manifest_of :: "catalog \<Rightarrow> string option \<Rightarrow> object_row list" where
  "manifest_of c m = map anonymous (filter (\<lambda>r. Some (obj_manifest_id r) = m) (manifest_objects c))"

definition prefix_of :: "catalog \<Rightarrow> string \<Rightarrow> string option" where
  "prefix_of c pid = map_option prw_prefix (find (\<lambda>r. prw_id r = pid) (projects c))"

definition accepted_of :: "catalog \<Rightarrow> publication_row \<Rightarrow> accepted_publication" where
  "accepted_of c p =
     \<lparr>acc_prefix = prefix_of c (pub_project_id p), acc_path = pub_path p, acc_display_name = pub_display_name p,
      acc_description = pub_description p, acc_entry_point = pub_entry_point p,
      acc_routing_mode = pub_routing_mode p, acc_content_changed_at = pub_content_changed_at p,
      acc_objects = manifest_of c (pub_current_manifest_id p)\<rparr>"

definition accepted :: "catalog \<Rightarrow> accepted_publication list" where
  "accepted c = map (accepted_of c) (publications c)"

definition offered :: "string \<Rightarrow> adopted_publication \<Rightarrow> accepted_publication" where
  "offered prfx p =
     \<lparr>acc_prefix = Some prfx, acc_path = ap_Path p, acc_display_name = ap_DisplayName p,
      acc_description = ap_Description p, acc_entry_point = ap_EntryPoint p,
      acc_routing_mode = ap_RoutingMode p, acc_content_changed_at = ap_ContentChangedAt p,
      acc_objects = map (object_row_of []) (ap_Objects p)\<rparr>"

definition offered_project :: "adopted_project \<Rightarrow> accepted_publication list" where
  "offered_project j = map (offered (aj_Prefix j)) (aj_Publications j)"

text \<open>The invariant of a catalog between transactions.\<close>

definition consistent :: "catalog \<Rightarrow> bool" where
  "consistent c \<longleftrightarrow> catalog_ok c \<and> deferred_ok c"

section \<open>One publication\<close>

lemma fold_insert_objects:
  "fold_tx (insert_adopted_object e m) obs t = Inr t' \<Longrightarrow>
     tx_cat t' = (tx_cat t)\<lparr>manifest_objects := manifest_objects (tx_cat t) @ map (object_row_of m) obs\<rparr> \<and>
     (catalog_ok (tx_cat t) \<longrightarrow> catalog_ok (tx_cat t')) \<and> tx_ids t' = tx_ids t"
proof (induction obs arbitrary: t)
  case Nil
  then show ?case by simp
next
  case (Cons ob obs)
  from Cons.prems obtain t1 where t1: "insert_adopted_object e m ob t = Inr t1"
    and rest: "fold_tx (insert_adopted_object e m) obs t1 = Inr t'" by (auto simp: res_iff)
  from t1 obtain c1 where c1: "insert_object (object_row_of m ob) (tx_cat t) = Inr c1"
    and t1': "t1 = t\<lparr>tx_cat := c1, tx_stmts := Suc (tx_stmts t)\<rparr>"
    by (auto simp: insert_adopted_object_def res_iff)
  from c1 have "c1 = (tx_cat t)\<lparr>manifest_objects := manifest_objects (tx_cat t) @ [object_row_of m ob]\<rparr>"
    by (auto simp: insert_object_def split: if_splits)
  then show ?case using Cons.IH [OF rest] insert_object_ok [OF c1] t1' by auto
qed

text \<open>The rows one publication adds.\<close>

definition publication_row_of :: "env \<Rightarrow> string \<Rightarrow> string \<Rightarrow> nat \<Rightarrow> adopted_publication \<Rightarrow> publication_row" where
  "publication_row_of e now pid n p =
     \<lparr>pub_id = draw e n, pub_project_id = pid, pub_path = ap_Path p,
      pub_display_name = ap_DisplayName p, pub_description = ap_Description p,
      pub_entry_point = ap_EntryPoint p, pub_routing_mode = ap_RoutingMode p,
      pub_content_changed_at = ap_ContentChangedAt p, pub_entity_revision = draw e (n + 2),
      pub_current_manifest_id = Some (draw e (n + 1)), pub_created_at = now, pub_updated_at = now\<rparr>"

definition manifest_row_of :: "env \<Rightarrow> string \<Rightarrow> string \<Rightarrow> nat \<Rightarrow> manifest_row" where
  "manifest_row_of e now digest n =
     \<lparr>man_id = draw e (n + 1), man_publication_id = draw e n, man_plan_digest = digest, man_created_at = now\<rparr>"

definition publication_result_of :: "env \<Rightarrow> nat \<Rightarrow> adopted_publication \<Rightarrow> publication_result" where
  "publication_result_of e n p =
     \<lparr>pr_PublicationID = draw e n, pr_PublicationPath = ap_Path p, pr_ManifestRevisionID = draw e (n + 1),
      pr_ObjectCount = int (length (ap_Objects p)), pr_AcceptedSize = sum_list (map ao_Size (ap_Objects p))\<rparr>"

definition with_publication :: "env \<Rightarrow> string \<Rightarrow> string \<Rightarrow> string \<Rightarrow> nat \<Rightarrow> adopted_publication \<Rightarrow> catalog \<Rightarrow> catalog" where
  "with_publication e now digest pid n p c = c
     \<lparr>publications := publications c @ [publication_row_of e now pid n p],
      manifest_revisions := manifest_revisions c @ [manifest_row_of e now digest n],
      manifest_objects := manifest_objects c @ map (object_row_of (draw e (n + 1))) (ap_Objects p)\<rparr>"

lemma adopt_publication_eq:
  "adopt_publication e now digest pid p t =
     bind_res (wrap_res ''insert publication %q: %w'' [ap_Path p]
        (exec e (insert_publication (publication_row_of e now pid (tx_ids t) p)) (t\<lparr>tx_ids := tx_ids t + 3\<rparr>))) (\<lambda>t1.
     bind_res (wrap_res ''insert manifest revision for %q: %w'' [ap_Path p]
        (exec e (insert_manifest (manifest_row_of e now digest (tx_ids t))) t1)) (\<lambda>t2.
     bind_res (fold_tx (insert_adopted_object e (draw e (tx_ids t + 1))) (ap_Objects p) t2) (\<lambda>t3.
       Inr (publication_result_of e (tx_ids t) p, t3))))"
  by (simp add: adopt_publication_def NewID_def publication_row_of_def manifest_row_of_def
      publication_result_of_def numeral_3_eq_3 numeral_2_eq_2)

lemma adopt_publication_Inr:
  assumes "adopt_publication e now digest pid p t = Inr (r, t')"
  shows "tx_cat t' = with_publication e now digest pid (tx_ids t) p (tx_cat t)"
    and "tx_ids t' = tx_ids t + 3" and "r = publication_result_of e (tx_ids t) p"
    and "draw e (tx_ids t + 1) \<notin> man_id ` set (manifest_revisions (tx_cat t))"
    and "catalog_ok (tx_cat t) \<Longrightarrow> catalog_ok (tx_cat t')"
proof -
  let ?n = "tx_ids t" let ?c = "tx_cat t"
  let ?pr = "publication_row_of e now pid ?n p" let ?mr = "manifest_row_of e now digest ?n"
  from assms obtain c1 c2 s where c1: "insert_publication ?pr ?c = Inr c1"
    and c2: "insert_manifest ?mr c1 = Inr c2"
    and objs: "fold_tx (insert_adopted_object e (draw e (?n + 1))) (ap_Objects p)
                 (t\<lparr>tx_ids := ?n + 3, tx_cat := c2, tx_stmts := s\<rparr>) = Inr t'"
    and r: "r = publication_result_of e ?n p"
    by (auto simp: adopt_publication_eq res_iff)
  from c1 have c1': "c1 = ?c\<lparr>publications := publications ?c @ [?pr]\<rparr>"
    by (auto simp: insert_publication_def split: if_splits)
  from c2 have c2': "c2 = c1\<lparr>manifest_revisions := manifest_revisions c1 @ [?mr]\<rparr>"
    and m: "man_id ?mr \<notin> man_id ` set (manifest_revisions c1)"
    by (auto simp: insert_manifest_def split: if_splits)
  show "r = publication_result_of e ?n p" by (rule r)
  show "tx_ids t' = ?n + 3" using fold_insert_objects [OF objs] by simp
  show "tx_cat t' = with_publication e now digest pid ?n p ?c"
    using fold_insert_objects [OF objs] c1' c2' by (simp add: with_publication_def)
  show "draw e (?n + 1) \<notin> man_id ` set (manifest_revisions ?c)"
    using m c1' by (simp add: manifest_row_of_def)
  show "catalog_ok (tx_cat t')" if "catalog_ok ?c"
    using fold_insert_objects [OF objs] insert_publication_ok [OF c1 that] insert_manifest_ok [OF c2] by auto
qed

lemma anonymous_row [simp]: "anonymous (object_row_of m ob) = object_row_of [] ob"
  by (simp add: anonymous_def object_row_of_def)

lemma object_row_manifest [simp]: "obj_manifest_id (object_row_of m ob) = m"
  by (simp add: object_row_of_def)

text \<open>A fresh manifest neither shows up in nor disturbs what was accepted before.\<close>

lemma manifest_of_fresh:
  assumes "catalog_ok c" and "m \<notin> man_id ` set (manifest_revisions c)"
    and "manifest_objects c' = manifest_objects c @ map (object_row_of m) obs"
  shows "manifest_of c' (Some m) = map (object_row_of []) obs"
    and "m' \<noteq> Some m \<Longrightarrow> manifest_of c' m' = manifest_of c m'"
proof -
  have "filter (\<lambda>r. Some (obj_manifest_id r) = Some m) (manifest_objects c) = []"
    using assms(1,2) by (auto simp: catalog_ok_def filter_empty_conv)
  then show "manifest_of c' (Some m) = map (object_row_of []) obs"
    using assms(3) by (simp add: manifest_of_def o_def)
  show "manifest_of c' m' = manifest_of c m'" if "m' \<noteq> Some m"
    using that assms(3) by (auto simp: manifest_of_def o_def)
qed

lemma accepted_with_publication:
  assumes "consistent c" and fresh: "draw e (n + 1) \<notin> man_id ` set (manifest_revisions c)"
    and "prefix_of c pid = Some prfx"
  shows "accepted (with_publication e now digest pid n p c) = accepted c @ [offered prfx p]"
proof -
  let ?c' = "with_publication e now digest pid n p c"
  have ok: "catalog_ok c" "deferred_ok c" using assms(1) by (simp_all add: consistent_def)
  have objs: "manifest_objects ?c' = manifest_objects c @ map (object_row_of (draw e (n + 1))) (ap_Objects p)"
    by (simp add: with_publication_def)
  note mo = manifest_of_fresh [OF ok(1) fresh objs]
  have prfx': "prefix_of ?c' = prefix_of c" by (rule ext) (simp add: prefix_of_def with_publication_def)
  have "accepted_of ?c' q = accepted_of c q" if "q \<in> set (publications c)" for q
  proof -
    have "pub_current_manifest_id q \<noteq> Some (draw e (n + 1))"
      using that ok(2) fresh by (auto simp: deferred_ok_def list_all_iff)
    then show ?thesis using mo(2) prfx' by (simp add: accepted_of_def)
  qed
  moreover have "accepted_of ?c' (publication_row_of e now pid n p) = offered prfx p"
    using mo(1) prfx' assms(3) by (simp add: accepted_of_def offered_def publication_row_of_def)
  ultimately show ?thesis by (simp add: accepted_def with_publication_def)
qed

lemma deferred_with_publication: "deferred_ok c \<Longrightarrow> deferred_ok (with_publication e now digest pid n p c)"
  by (auto simp: deferred_ok_def with_publication_def list_all_iff publication_row_of_def manifest_row_of_def
      split: option.splits)

section \<open>Projects and the whole batch\<close>

text \<open>What a step of the transaction may change: it appends to the accepted state.\<close>

definition appends :: "catalog \<Rightarrow> catalog \<Rightarrow> accepted_publication list \<Rightarrow> string list \<Rightarrow> bool" where
  "appends c c' ps prfxs \<longleftrightarrow>
     accepted c' = accepted c @ ps \<and>
     map prw_prefix (projects c') = map prw_prefix (projects c) @ prfxs \<and>
     (\<exists>js. projects c' = projects c @ js) \<and>
     prefix (publications c) (publications c') \<and> prefix (manifest_revisions c) (manifest_revisions c') \<and>
     prefix (manifest_objects c) (manifest_objects c') \<and>
     observations c' = observations c \<and> publication_observations c' = publication_observations c \<and>
     adoption_operations c' = adoption_operations c"

lemma appends_refl: "appends c c [] []"
  by (simp add: appends_def)

lemma appends_trans:
  assumes "appends c1 c2 ps prfxs" and "appends c2 c3 ps' prfxs'"
  shows "appends c1 c3 (ps @ ps') (prfxs @ prfxs')"
proof -
  note d1 = assms(1) [unfolded appends_def] and d2 = assms(2) [unfolded appends_def]
  have "prefix (publications c1) (publications c3)" "prefix (manifest_revisions c1) (manifest_revisions c3)"
    "prefix (manifest_objects c1) (manifest_objects c3)"
    using d1 d2 prefix_order.trans by blast+
  moreover have "\<exists>js. projects c3 = projects c1 @ js" using d1 d2 by (metis append.assoc)
  ultimately show ?thesis unfolding appends_def using d1 d2 by simp
qed

lemma deferred_ok_cong:
  "publications c' = publications c \<Longrightarrow> manifest_revisions c' = manifest_revisions c \<Longrightarrow>
    deferred_ok c' = deferred_ok c"
  unfolding deferred_ok_def by metis

lemma find_append_case:
  "find P (xs @ ys) = (case find P xs of None \<Rightarrow> find P ys | Some x \<Rightarrow> Some x)"
  by (induction xs) auto

lemma prefix_of_append:
  "prefix_of c pid = Some prfx \<Longrightarrow> projects c' = projects c @ js \<Longrightarrow> prefix_of c' pid = Some prfx"
  by (auto simp: prefix_of_def find_append_case split: option.splits)

lemma adopt_publication_appends:
  assumes "adopt_publication e now digest pid p t = Inr (r, t')"
    and "consistent (tx_cat t)" and "prefix_of (tx_cat t) pid = Some prfx"
  shows "consistent (tx_cat t') \<and> appends (tx_cat t) (tx_cat t') [offered prfx p] []
         \<and> projects (tx_cat t') = projects (tx_cat t)"
proof -
  note inr = adopt_publication_Inr [OF assms(1)]
  have "consistent (tx_cat t')"
    using assms(2) inr(1) inr(5) deferred_with_publication by (simp add: consistent_def)
  moreover have "accepted (tx_cat t') = accepted (tx_cat t) @ [offered prfx p]"
    using accepted_with_publication [OF assms(2) inr(4) assms(3)] inr(1) by simp
  ultimately show ?thesis using inr(1) by (simp add: appends_def with_publication_def)
qed

lemma map_adopt_publications:
  assumes "map_tx (adopt_publication e now digest pid) ps t = Inr (rs, t')"
    and "consistent (tx_cat t)" and "prefix_of (tx_cat t) pid = Some prfx"
  shows "consistent (tx_cat t') \<and> appends (tx_cat t) (tx_cat t') (map (offered prfx) ps) []
         \<and> projects (tx_cat t') = projects (tx_cat t)"
  using assms
proof (induction ps arbitrary: t rs)
  case Nil
  then show ?case by (simp add: appends_refl)
next
  case (Cons p ps)
  from Cons.prems(1) obtain r t1 rs' where r: "adopt_publication e now digest pid p t = Inr (r, t1)"
    and rs: "map_tx (adopt_publication e now digest pid) ps t1 = Inr (rs', t')"
    by (auto simp: res_iff)
  note one = adopt_publication_appends [OF r Cons.prems(2,3)]
  have "prefix_of (tx_cat t1) pid = Some prfx" using one Cons.prems(3) by (simp add: prefix_of_def)
  with Cons.IH [OF rs] one have rest: "consistent (tx_cat t')"
    "appends (tx_cat t1) (tx_cat t') (map (offered prfx) ps) []" "projects (tx_cat t') = projects (tx_cat t)"
    by simp_all
  from appends_trans [OF _ rest(2)] one have
    "appends (tx_cat t) (tx_cat t') ([offered prfx p] @ map (offered prfx) ps) ([] @ [])" by blast
  with rest show ?case by simp
qed

text \<open>A new Project owns nothing yet: it changes no accepted Publication.\<close>

lemma insert_project_appends:
  assumes ins: "insert_project row c = Inr c1" and ok: "consistent c"
  shows "consistent c1 \<and> appends c c1 [] [prw_prefix row] \<and> prefix_of c1 (prw_id row) = Some (prw_prefix row)"
proof -
  from ins have c1: "c1 = c\<lparr>projects := projects c @ [row]\<rparr>" and fresh: "prw_id row \<notin> prw_id ` set (projects c)"
    by (auto simp: insert_project_def split: if_splits)
  have old: "prefix_of c1 (pub_project_id q) = prefix_of c (pub_project_id q)" if "q \<in> set (publications c)" for q
  proof -
    have "pub_project_id q \<in> prw_id ` set (projects c)"
      using ok that by (auto simp: consistent_def catalog_ok_def)
    then show ?thesis using fresh
      by (auto simp: prefix_of_def c1 find_append_case split: option.splits)
  qed
  have "manifest_of c1 = manifest_of c"
    by (rule ext) (simp add: manifest_of_def c1)
  then have acc: "accepted c1 = accepted c"
    using old by (simp add: accepted_def accepted_of_def c1)
  then have "appends c c1 [] [prw_prefix row]" by (simp add: appends_def c1)
  moreover have "consistent c1"
    using ok insert_project_ok [OF ins] deferred_ok_cong [of c1 c] by (simp add: consistent_def c1)
  moreover have "find (\<lambda>r. prw_id r = prw_id row) (projects c) = None"
    using fresh by (simp add: find_None_iff) (metis image_eqI)
  ultimately show ?thesis by (simp add: prefix_of_def c1 find_append_case)
qed

lemma adopt_project_appends:
  assumes "adopt_project e now digest j t = Inr (r, t')" and ok: "consistent (tx_cat t)"
  shows "consistent (tx_cat t') \<and> appends (tx_cat t) (tx_cat t') (offered_project j) [aj_Prefix j]"
proof -
  let ?row = "\<lparr>prw_id = draw e (tx_ids t), prw_prefix = aj_Prefix j, prw_display_name = aj_DisplayName j,
     prw_description = aj_Description j, prw_entity_revision = draw e (Suc (tx_ids t)),
     prw_created_at = now, prw_updated_at = now\<rparr>"
  from assms(1) obtain c1 s ps where c1: "insert_project ?row (tx_cat t) = Inr c1"
    and ps: "map_tx (adopt_publication e now digest (draw e (tx_ids t))) (aj_Publications j)
      (t\<lparr>tx_ids := Suc (Suc (tx_ids t)), tx_cat := c1, tx_stmts := s\<rparr>) = Inr (ps, t')"
    by (auto simp: adopt_project_def NewID_def res_iff)
  from insert_project_appends [OF c1 ok] show ?thesis
    using map_adopt_publications [OF ps, of "aj_Prefix j"] appends_trans
    by (fastforce simp: offered_project_def)
qed

lemma map_adopt_projects:
  assumes "map_tx (adopt_project e now digest) js t = Inr (rs, t')" and "consistent (tx_cat t)"
  shows "consistent (tx_cat t') \<and>
    appends (tx_cat t) (tx_cat t') (concat (map offered_project js)) (map aj_Prefix js)"
  using assms
proof (induction js arbitrary: t rs)
  case Nil
  then show ?case by (simp add: appends_refl)
next
  case (Cons j js)
  from Cons.prems(1) obtain r t1 rs' where r: "adopt_project e now digest j t = Inr (r, t1)"
    and rs: "map_tx (adopt_project e now digest) js t1 = Inr (rs', t')"
    by (auto simp: res_iff)
  note one = adopt_project_appends [OF r Cons.prems(2)]
  with Cons.IH [OF rs] have rest: "consistent (tx_cat t')"
    "appends (tx_cat t1) (tx_cat t') (concat (map offered_project js)) (map aj_Prefix js)" by simp_all
  from appends_trans [OF _ rest(2)] one rest(1) show ?case by fastforce
qed

text \<open>The prechecks only read.\<close>

lemma check_free_cat: "check_free e q m f t = Inr t' \<Longrightarrow> tx_cat t' = tx_cat t \<and> tx_ids t' = tx_ids t \<and> \<not> q (tx_cat t)"
  by (auto simp: check_free_def res_iff split: if_splits)

lemma check_publications_cat:
  "fold_tx (check_publication e) ps t = Inr t' \<Longrightarrow> tx_cat t' = tx_cat t \<and> tx_ids t' = tx_ids t \<and>
     (\<forall>p \<in> set ps. ap_Path p \<notin> pub_path ` set (publications (tx_cat t)))"
proof (induction ps arbitrary: t)
  case (Cons p ps)
  from Cons.prems obtain t1 where t1: "check_publication e p t = Inr t1"
    and rest: "fold_tx (check_publication e) ps t1 = Inr t'" by (auto simp: res_iff)
  from t1 have "tx_cat t1 = tx_cat t \<and> tx_ids t1 = tx_ids t \<and> ap_Path p \<notin> pub_path ` set (publications (tx_cat t))"
    unfolding check_publication_def by (rule check_free_cat)
  with Cons.IH [OF rest] show ?case by simp
qed simp

lemma check_projects_cat:
  "fold_tx (check_project e) js t = Inr t' \<Longrightarrow> tx_cat t' = tx_cat t \<and> tx_ids t' = tx_ids t \<and>
     (\<forall>j \<in> set js. aj_Prefix j \<notin> prw_prefix ` set (projects (tx_cat t)) \<and>
        (\<forall>p \<in> set (aj_Publications j). ap_Path p \<notin> pub_path ` set (publications (tx_cat t))))"
proof (induction js arbitrary: t)
  case (Cons j js)
  from Cons.prems obtain t1 t2 where
    t1: "check_free e (\<lambda>c. aj_Prefix j \<in> prw_prefix ` set (projects c))
         (Errorf ''project prefix %q is already managed'' [aj_Prefix j]) ''check project prefix: %w'' t = Inr t1"
    and t2: "fold_tx (check_publication e) (aj_Publications j) t1 = Inr t2"
    and rest: "fold_tx (check_project e) js t2 = Inr t'"
    by (simp only: fold_tx.simps check_project_def [of e j] res_iff) blast
  show ?case using check_free_cat [OF t1] check_publications_cat [OF t2] Cons.IH [OF rest] by simp
qed simp

text \<open>The recorded operation of a commit.\<close>

definition operation_row_of :: "env \<Rightarrow> batch_input \<Rightarrow> adoption_result \<Rightarrow> operation_row" where
  "operation_row_of e input r =
     \<lparr>op_operation_id = bi_OperationID input, op_request_hash = bi_RequestHash input,
      op_plan_digest = bi_PlanDigest input, op_status = ''committed'',
      op_result_json = Marshal (json_of_result r), op_created_at = FormatRFC3339 (env_now e)\<rparr>"

lemma commit_batch_Inr:
  assumes "commit_batch e input c = Inr (r, c')" and ok: "consistent c"
  obtains js where "normalizeBatchProjects (bi_Projects input) = Inr js"
    and "consistent c'"
    and "accepted c' = accepted c @ concat (map offered_project js)"
    and "map prw_prefix (projects c') = map prw_prefix (projects c) @ map aj_Prefix js"
    and "observations c' = observations c" "publication_observations c' = publication_observations c"
    and "adoption_operations c' = adoption_operations c @ [operation_row_of e input r]"
    and "bi_OperationID input \<notin> op_operation_id ` set (adoption_operations c)"
    and "prefix (publications c) (publications c')" "prefix (manifest_objects c) (manifest_objects c')"
proof -
  let ?now = "FormatRFC3339 (env_now e)"
  from assms(1) obtain js t t1 t2 t3 t4 results where
    js: "normalizeBatchProjects (bi_Projects input) = Inr js"
    and t: "t = \<lparr>tx_cat = c, tx_ids = 0, tx_stmts = 1\<rparr>"
    and t1: "fold_tx (check_project e) js t = Inr t1"
    and t2: "check_operation e (bi_OperationID input) t1 = Inr t2"
    and t3: "map_tx (adopt_project e ?now (bi_PlanDigest input)) js t2 = Inr (results, t3)"
    and r: "r = adoption_result_of (bi_OperationID input) results"
    and t4: "record_operation e ?now input r t3 = Inr t4"
    and c': "c' = tx_cat t4" and def: "deferred_ok (tx_cat t4)"
    unfolding commit_batch_def Let_def by (auto simp: res_iff split: if_splits)
  have c1: "tx_cat t1 = c" using check_projects_cat [OF t1] t by simp
  have c2: "tx_cat t2 = c" "bi_OperationID input \<notin> op_operation_id ` set (adoption_operations c)"
    using check_free_cat [OF t2 [unfolded check_operation_def]] c1 by auto
  note app = map_adopt_projects [OF t3, unfolded c2(1), OF ok]
  from t4 obtain c4 where c4: "insert_operation (operation_row_of e input r) (tx_cat t3) = Inr c4" "tx_cat t4 = c4"
    by (auto simp: record_operation_def res_iff operation_row_of_def)
  from c4(1) have c4': "c4 = (tx_cat t3)\<lparr>adoption_operations := adoption_operations (tx_cat t3) @ [operation_row_of e input r]\<rparr>"
    by (auto simp: insert_operation_def split: if_splits)
  have "manifest_of c4 = manifest_of (tx_cat t3)" "prefix_of c4 = prefix_of (tx_cat t3)"
    by (rule ext, simp add: manifest_of_def prefix_of_def c4')+
  then have "accepted c4 = accepted (tx_cat t3)"
    by (simp add: accepted_def accepted_of_def c4')
  moreover have "consistent c4"
    using app insert_operation_ok [OF c4(1)] def c4(2) by (simp add: consistent_def)
  ultimately show ?thesis using that [OF js] app c2(2) c' c4(2) by (simp add: appends_def c4')
qed

section \<open>Normalisation\<close>

definition sorted_project :: "adopted_project \<Rightarrow> adopted_project" where
  "sorted_project j = j\<lparr>aj_Publications := sort_key ap_Path (aj_Publications j)\<rparr>"

definition batch_paths :: "adopted_project list \<Rightarrow> string list" where
  "batch_paths js = concat (map (\<lambda>j. map ap_Path (aj_Publications j)) js)"

definition complete_publication :: "adopted_publication \<Rightarrow> bool" where
  "complete_publication p \<longleftrightarrow> ap_Path p \<noteq> [] \<and> ap_Objects p \<noteq> []"

definition complete_project :: "adopted_project \<Rightarrow> bool" where
  "complete_project j \<longleftrightarrow> aj_Prefix j \<noteq> [] \<and> aj_Publications j \<noteq> [] \<and>
     list_all complete_publication (aj_Publications j)"

text \<open>What a batch must be to be accepted: complete, and no prefix and no path declared twice.\<close>

definition well_formed_batch :: "adopted_project list \<Rightarrow> bool" where
  "well_formed_batch js \<longleftrightarrow> js \<noteq> [] \<and> list_all complete_project js \<and>
     distinct (map aj_Prefix js) \<and> distinct (batch_paths js)"

lemma normalize_paths_Inr:
  "normalize_paths prfx seen ps = Inr s \<longleftrightarrow>
     list_all complete_publication ps \<and> distinct (map ap_Path ps) \<and> ap_Path ` set ps \<inter> seen = {} \<and>
     s = ap_Path ` set ps \<union> seen"
  by (induction ps arbitrary: seen) (auto simp: complete_publication_def)

lemma list_all_sort_key [simp]: "list_all P (sort_key k xs) = list_all P xs"
  by (simp add: list_all_iff)

lemma normalize_loop_Inr:
  "normalize_loop sp sq js = Inr ns \<longleftrightarrow>
     list_all complete_project js \<and> distinct (map aj_Prefix js) \<and> aj_Prefix ` set js \<inter> sp = {} \<and>
     distinct (batch_paths js) \<and> set (batch_paths js) \<inter> sq = {} \<and> ns = map sorted_project js"
proof (induction js arbitrary: sp sq ns)
  case Nil
  then show ?case by (auto simp: batch_paths_def)
next
  case (Cons j js)
  have paths: "set (batch_paths (j # js)) = ap_Path ` set (aj_Publications j) \<union> set (batch_paths js)"
    "distinct (batch_paths (j # js)) \<longleftrightarrow> distinct (map ap_Path (aj_Publications j)) \<and> distinct (batch_paths js)
       \<and> ap_Path ` set (aj_Publications j) \<inter> set (batch_paths js) = {}"
    by (simp_all add: batch_paths_def)
  have "normalize_loop sp sq (j # js) = Inr ns \<longleftrightarrow>
     aj_Prefix j \<noteq> [] \<and> aj_Publications j \<noteq> [] \<and> aj_Prefix j \<notin> sp \<and>
     (list_all complete_publication (aj_Publications j) \<and> distinct (map ap_Path (aj_Publications j)) \<and>
      ap_Path ` set (aj_Publications j) \<inter> sq = {}) \<and>
     (\<exists>ms. normalize_loop (insert (aj_Prefix j) sp) (ap_Path ` set (aj_Publications j) \<union> sq) js = Inr ms \<and>
        ns = sorted_project j # ms)"
    by (auto simp: Let_def res_iff normalize_paths_Inr sorted_project_def)
  also have "\<dots> \<longleftrightarrow> list_all complete_project (j # js) \<and> distinct (map aj_Prefix (j # js)) \<and>
     aj_Prefix ` set (j # js) \<inter> sp = {} \<and> distinct (batch_paths (j # js)) \<and>
     set (batch_paths (j # js)) \<inter> sq = {} \<and> ns = map sorted_project (j # js)"
    unfolding Cons.IH paths complete_project_def [of j] list.pred_inject by auto
  finally show ?case .
qed

definition normal_form :: "adopted_project list \<Rightarrow> adopted_project list" where
  "normal_form js = sort_key aj_Prefix (map sorted_project js)"

lemma map_sum_Inr: "map_sum id f r = Inr x \<longleftrightarrow> (\<exists>y. r = Inr y \<and> x = f y)"
  by (cases r) auto

lemma normalizeBatchProjects_Inr:
  "normalizeBatchProjects js = Inr ns \<longleftrightarrow> well_formed_batch js \<and> ns = normal_form js"
  by (auto simp: normalizeBatchProjects_def well_formed_batch_def normal_form_def normalize_loop_Inr map_sum_Inr)

lemma offered_normal_form:
  "mset (concat (map offered_project (normal_form js))) = mset (concat (map offered_project js))"
proof -
  have one: "mset (offered_project (sorted_project j)) = mset (offered_project j)" for j
    by (simp add: offered_project_def sorted_project_def)
  have "mset (concat (map offered_project (map sorted_project js))) = mset (concat (map offered_project js))"
    by (induction js) (simp_all add: one)
  moreover have "mset (concat (map offered_project (sort_key aj_Prefix ks))) = mset (concat (map offered_project ks))" for ks
    using sum_list_sort_key [of "\<lambda>j. mset (offered_project j)" aj_Prefix ks] by (simp add: mset_concat o_def)
  ultimately show ?thesis by (simp add: normal_form_def)
qed

lemma prefixes_normal_form: "mset (map aj_Prefix (normal_form js)) = mset (map aj_Prefix js)"
  by (simp add: normal_form_def sorted_project_def image_mset.compositionality o_def)

section \<open>The recorded result reads back\<close>

lemma result_names:
  "fold_distinct [''publicationId'', ''publicationPath'', ''manifestRevisionId'', ''objectCount'', ''acceptedSize'']"
  "fold_distinct [''projectId'', ''projectPrefix'', ''publications'']"
  "fold_distinct [''operationId'', ''status'', ''objectCount'', ''acceptedSize'', ''projects'', ''committedAt'']"
  by (rule ascii_fold_distinct; simp add: lower_def lower_byte_def byte_def)+

definition int_range :: "int \<Rightarrow> bool" where
  "int_range i \<longleftrightarrow> - 9223372036854775808 \<le> i \<and> i < 9223372036854775808"

definition counts_ok :: "adoption_result \<Rightarrow> bool" where
  "counts_ok r \<longleftrightarrow> int_range (ar_ObjectCount r) \<and>
     list_all (\<lambda>j. list_all (\<lambda>p. int_range (pr_ObjectCount p)) (jr_Publications j)) (ar_Projects r)"

lemma decode_int_JNum: "int_range i \<Longrightarrow> decode_int (JNum i) = Some i"
  by (simp add: int_range_def decode_int_def)

lemma decode_publication_result_encoded:
  assumes "int_range (pr_ObjectCount r)"
  shows "decode_publication_result (json_of_publication_result r) = Some r"
proof -
  let ?kvs = "[(''publicationId'', JStr (pr_PublicationID r)), (''publicationPath'', JStr (pr_PublicationPath r)),
      (''manifestRevisionId'', JStr (pr_ManifestRevisionID r)), (''objectCount'', JNum (pr_ObjectCount r)),
      (''acceptedSize'', json_int64 (pr_AcceptedSize r))]"
  have g: "get_field ?kvs k = v" if "(k, v) \<in> set ?kvs" for k v
    using that result_names(1) by (intro get_field_distinct) simp_all
  then show ?thesis
    by (simp add: decode_publication_result_def json_of_publication_result_def decode_int_JNum [OF assms])
qed

lemma decode_project_result_encoded:
  assumes "list_all (\<lambda>p. int_range (pr_ObjectCount p)) (jr_Publications r)"
  shows "decode_project_result (json_of_project_result r) = Some r"
proof -
  let ?kvs = "[(''projectId'', JStr (jr_ProjectID r)), (''projectPrefix'', JStr (jr_ProjectPrefix r)),
      (''publications'', json_array json_of_publication_result (jr_Publications r))]"
  have g: "get_field ?kvs k = v" if "(k, v) \<in> set ?kvs" for k v
    using that result_names(2) by (intro get_field_distinct) simp_all
  have "decode_list decode_publication_result (json_array json_of_publication_result (jr_Publications r))
      = Some (jr_Publications r)"
    using assms by (intro decode_list_encoded) (simp add: list_all_iff decode_publication_result_encoded)
  with g show ?thesis by (simp add: decode_project_result_def json_of_project_result_def)
qed

lemma decode_result_encoded:
  assumes "counts_ok r"
  shows "decode_result (json_of_result r) = Some r"
proof -
  let ?kvs = "[(''operationId'', JStr (ar_OperationID r)), (''status'', JStr (ar_Status r)),
      (''objectCount'', JNum (ar_ObjectCount r)), (''acceptedSize'', json_int64 (ar_AcceptedSize r)),
      (''projects'', json_array json_of_project_result (ar_Projects r)),
      (''committedAt'', JStr (ar_CommittedAt r))]"
  have g: "get_field ?kvs k = v" if "(k, v) \<in> set ?kvs" for k v
    using that result_names(3) by (intro get_field_distinct) simp_all
  have "decode_list decode_project_result (json_array json_of_project_result (ar_Projects r)) = Some (ar_Projects r)"
    using assms by (intro decode_list_encoded) (simp add: counts_ok_def list_all_iff decode_project_result_encoded)
  with g assms show ?thesis
    by (simp add: decode_result_def json_of_result_def counts_ok_def decode_int_JNum)
qed

interpretation results: exact_codec "\<lambda>r. Marshal (json_of_result r)" "\<lambda>s. Option.bind (Unmarshal s) decode_result"
    "\<lambda>r. counts_ok r \<and> valid_json (json_of_result r)"
  by unfold_locales (simp add: texts.reads_exactly decode_result_encoded)

end
