(* ===== verification/Catalog_Operation.thy ===== *)
theory Catalog_Operation
  imports Catalog_Accepted
begin

text \<open>
  The contract every writing operation of the store keeps, whatever it is called for: one that fails leaves
  the catalog as it was; one that succeeds keeps the catalog consistent and only adds to it. What was
  accepted, which operations were recorded and what was observed before stays, in its order. The locale's
  lemma is for callers: any sequence of calls, failing ones among them, keeps the contract.
  \<open>CommitAdoptionBatch\<close> keeps it here; \<open>RecordObservation\<close>, \<open>Commit\<close> and \<open>Run\<close> in their theories.
\<close>

definition extends :: "catalog \<Rightarrow> catalog \<Rightarrow> bool" where
  "extends c c' \<longleftrightarrow> prefix (accepted c) (accepted c') \<and> prefix (publications c) (publications c') \<and>
     prefix (adoption_operations c) (adoption_operations c') \<and> prefix (observations c) (observations c')"

lemma extends_refl [simp]: "extends c c"
  by (simp add: extends_def)

lemma extends_trans: "extends a b \<Longrightarrow> extends b c \<Longrightarrow> extends a c"
  by (auto simp: extends_def elim: prefix_order.trans)

locale catalog_operation =
  fixes oper :: "'i \<Rightarrow> catalog \<Rightarrow> 'a res \<times> catalog"
  assumes failure: "oper i c = (Inl err, c') \<Longrightarrow> c' = c"
    and keeps: "oper i c = (Inr x, c') \<Longrightarrow> consistent c \<Longrightarrow> consistent c'"
    and adds: "oper i c = (Inr x, c') \<Longrightarrow> consistent c \<Longrightarrow> extends c c'"
begin

lemma outcome:
  assumes "consistent c"
  shows "consistent (snd (oper i c)) \<and> extends c (snd (oper i c))"
proof (cases "oper i c")
  case (Pair r c')
  show ?thesis
  proof (cases r)
    case (Inl err)
    then have "c' = c" using failure Pair by simp
    then show ?thesis using assms Pair by simp
  next
    case (Inr x)
    then show ?thesis using keeps adds Pair assms by simp
  qed
qed

lemma calls_outcome:
  assumes "consistent c"
  shows "consistent (fold (\<lambda>i c. snd (oper i c)) is c) \<and> extends c (fold (\<lambda>i c. snd (oper i c)) is c)"
  using assms
proof (induction "is" arbitrary: c)
  case (Cons i "is")
  have o: "consistent (snd (oper i c))" "extends c (snd (oper i c))" using outcome [OF Cons.prems] by blast+
  show ?case using Cons.IH [OF o(1)] extends_trans [OF o(2)] by simp
qed simp

end

interpretation adoption: catalog_operation "\<lambda>(e, input). CommitAdoptionBatch e input"
proof unfold_locales
  fix i :: "env \<times> batch_input" and c c' :: catalog and x :: adoption_result and err :: error
  obtain e input where i: "i = (e, input)" by (cases i)
  show "c' = c" if "(case i of (e, input) \<Rightarrow> CommitAdoptionBatch e input) c = (Inl err, c')"
    using that by (auto simp: i CommitAdoptionBatch_def dest: run_tx_Inl)
  assume "(case i of (e, input) \<Rightarrow> CommitAdoptionBatch e input) c = (Inr x, c')" and cons: "consistent c"
  then have r: "commit_batch e input c = Inr (x, c')" by (simp add: i CommitAdoptionBatch_def run_tx_Inr)
  show "consistent c'" using commit_batch_Inr [OF r cons] by blast
  show "extends c c'" by (rule commit_batch_Inr [OF r cons]) (simp add: extends_def)
qed

end
