(* ===== verification/Catalog_Observation.thy ===== *)
theory Catalog_Observation
  imports Catalog_Operation "HOL-Library.Product_Lexorder"
begin

text \<open>
  \<open>internal/catalog/observation.go\<close>: reading the accepted manifests (\<open>AcceptedManifests\<close>), recording one
  complete bucket observation in one transaction (\<open>RecordObservation\<close>) and reading the newest one back
  (\<open>LatestObservation\<close>). The manifests are the accepted state of the catalog in path and key order;
  a recorded observation leaves every accepted table as it was and is what the next read returns,
  with its time truncated to the second.
\<close>

section \<open>Data\<close>

definition StateInSync :: string where "StateInSync = ''in_sync''"
definition StateDrifted :: string where "StateDrifted = ''drifted''"
definition StateMissing :: string where "StateMissing = ''missing''"
definition LockNone :: string where "LockNone = ''none''"
definition LockGlobal :: string where "LockGlobal = ''global''"
definition LockPublication :: string where "LockPublication = ''publication''"
definition observationComplete :: string where "observationComplete = ''complete''"

record manifest_object =
  mo_Key :: string
  mo_RelativePath :: string
  mo_Size :: int64
  mo_ETag :: string
  mo_ModifiedAt :: string
  mo_ContentType :: string
  mo_ContentEncoding :: string
  mo_CacheControl :: string
  mo_UserMetadata :: str_map
  mo_SHA256 :: string

record publication_manifest =
  pm_PublicationID :: string
  pm_Path :: string
  pm_Objects :: "manifest_object list"

record publication_observation_record =
  por_PublicationID :: string
  por_State :: string
  por_ObservedSize :: "int64 option"
  por_StatusDetail :: string

record observation_record =
  oor_ObservedAt :: time
  oor_MutationLock :: string
  oor_TotalBytes :: int64
  oor_AcceptedBytes :: int64
  oor_UnclaimedBytes :: int64
  oor_UnclaimedKeys :: "string list"
  oor_Publications :: "publication_observation_record list"

record bucket_usage =
  bu_QuotaBytes :: int64
  bu_TotalBytes :: int64
  bu_AcceptedBytes :: int64
  bu_UnclaimedBytes :: int64

record publication_observation =
  po_State :: string
  po_ObservedSize :: "int64 option"
  po_StatusDetail :: string

record observation_result =
  ors_ObservationID :: string
  ors_ObservedAt :: time
  ors_MutationLock :: string
  ors_Usage :: bucket_usage
  ors_UnclaimedKeys :: "string list"
  ors_Publications :: "string \<Rightarrow> publication_observation option"

section \<open>The accepted manifests\<close>

text \<open>The query: publications joined with the objects of their current manifest, by path and key.\<close>

definition joined_rows :: "catalog \<Rightarrow> (publication_row \<times> object_row) list" where
  "joined_rows c = sort_key (\<lambda>(p, r). (pub_path p, obj_key r))
     [(p, r). p \<leftarrow> publications c, r \<leftarrow> manifest_objects c, Some (obj_manifest_id r) = pub_current_manifest_id p]"

definition decode_metadata :: "string \<Rightarrow> str_map option" where
  "decode_metadata text = Option.bind (Unmarshal text) map_of_json"

definition manifest_object_of :: "object_row \<Rightarrow> str_map \<Rightarrow> manifest_object" where
  "manifest_object_of r m =
     \<lparr>mo_Key = obj_key r, mo_RelativePath = obj_relative_path r, mo_Size = obj_size r, mo_ETag = obj_etag r,
      mo_ModifiedAt = obj_modified_at r, mo_ContentType = obj_content_type r,
      mo_ContentEncoding = obj_content_encoding r, mo_CacheControl = obj_cache_control r,
      mo_UserMetadata = m, mo_SHA256 = obj_sha256 r\<rparr>"

text \<open>The map of manifests with the order of first appearance, as one list.\<close>

fun add_object :: "string \<Rightarrow> string \<Rightarrow> manifest_object \<Rightarrow> publication_manifest list \<Rightarrow> publication_manifest list" where
  "add_object pid path ob [] = [\<lparr>pm_PublicationID = pid, pm_Path = path, pm_Objects = [ob]\<rparr>]"
| "add_object pid path ob (m # ms) =
     (if pm_PublicationID m = pid then m\<lparr>pm_Objects := pm_Objects m @ [ob]\<rparr> # ms
      else m # add_object pid path ob ms)"

fun manifests_loop ::
    "(publication_row \<times> object_row) list \<Rightarrow> publication_manifest list \<Rightarrow> publication_manifest list res" where
  "manifests_loop [] acc = Inr acc"
| "manifests_loop ((p, r) # rows) acc =
     (case decode_metadata (obj_user_metadata r) of
        None \<Rightarrow> Inl (Errorf ''decode accepted metadata for %q: %w'' [obj_key r])
      | Some m \<Rightarrow> manifests_loop rows (add_object (pub_id p) (pub_path p) (manifest_object_of r m) acc))"

definition AcceptedManifests :: "env \<Rightarrow> catalog \<Rightarrow> publication_manifest list res" where
  "AcceptedManifests e c =
     bind_res (wrap_res ''query accepted manifests: %w'' [] (query_db e 0 (joined_rows c)))
       (\<lambda>rows. manifests_loop rows [])"

section \<open>Recording an observation\<close>

definition known_lock :: "string \<Rightarrow> bool" where
  "known_lock l \<longleftrightarrow> l \<in> {LockNone, LockGlobal, LockPublication}"

definition known_state :: "string \<Rightarrow> bool" where
  "known_state s \<longleftrightarrow> s \<in> {StateInSync, StateDrifted, StateMissing}"

definition observation_details :: "string list \<Rightarrow> string" where
  "observation_details keys = Marshal (JObj [(''unclaimedKeys'', json_slice JStr keys)])"

definition record_publication :: "env \<Rightarrow> string \<Rightarrow> publication_observation_record \<Rightarrow> tx \<Rightarrow> tx res" where
  "record_publication e observationID p t =
     (if \<not> known_state (por_State p)
      then Inl (Errorf ''invalid observed state %q for publication %q'' [por_State p, por_PublicationID p])
      else let (rowID, t) = NewID e t in
        wrap_res ''insert observation for publication %q: %w'' [por_PublicationID p]
          (exec e (insert_publication_observation
            \<lparr>pob_id = rowID, pob_observation_id = observationID, pob_publication_id = por_PublicationID p,
             pob_state = por_State p, pob_observed_size = por_ObservedSize p,
             pob_status_detail = por_StatusDetail p\<rparr>) t))"

definition record_observation :: "env \<Rightarrow> observation_record \<Rightarrow> catalog \<Rightarrow> (unit \<times> catalog) res" where
  "record_observation e rec c =
     (if \<not> known_lock (oor_MutationLock rec)
      then Inl (Errorf ''invalid mutation lock %q'' [oor_MutationLock rec])
      else if IsZero (oor_ObservedAt rec) then Inl (Errorf ''an observation time is required'' [])
      else bind_res (wrap_res ''begin observation transaction: %w'' [] (begin_tx e c)) (\<lambda>t.
      let details = observation_details (oor_UnclaimedKeys rec);
          (observationID, t) = NewID e t in
      bind_res (wrap_res ''insert observation: %w'' [] (exec e (insert_observation
        \<lparr>obs_id = observationID, obs_observed_at = FormatRFC3339 (oor_ObservedAt rec),
         obs_status = observationComplete, obs_details_json = details, obs_mutation_lock = oor_MutationLock rec,
         obs_total_bytes = oor_TotalBytes rec, obs_accepted_bytes = oor_AcceptedBytes rec,
         obs_unclaimed_bytes = oor_UnclaimedBytes rec\<rparr>) t)) (\<lambda>t.
      bind_res (fold_tx (record_publication e observationID) (oor_Publications rec) t) (\<lambda>t.
      bind_res (wrap_res ''commit observation transaction: %w'' [] (commit_tx e t)) (\<lambda>c'.
        Inr ((), c'))))))"

definition RecordObservation :: "env \<Rightarrow> observation_record \<Rightarrow> catalog \<Rightarrow> unit res \<times> catalog" where
  "RecordObservation e rec c = run_tx c (record_observation e rec c)"

section \<open>Reading the newest observation\<close>

text \<open>\<open>ORDER BY observed_at DESC, rowid DESC LIMIT 1\<close> over the complete observations.\<close>

definition newer :: "observation_row option \<Rightarrow> observation_row \<Rightarrow> observation_row option" where
  "newer best r = (case best of None \<Rightarrow> Some r
     | Some b \<Rightarrow> if obs_observed_at b \<le> obs_observed_at r then Some r else Some b)"

definition newest :: "observation_row list \<Rightarrow> observation_row option" where
  "newest rows = foldl newer None (filter (\<lambda>r. obs_status r = observationComplete) rows)"

definition decode_details :: "string \<Rightarrow> string list option" where
  "decode_details text =
     Option.bind (Unmarshal text) (\<lambda>j. Option.bind (decode_obj j)
       (\<lambda>kvs. decode_list decode_str (get_field kvs ''unclaimedKeys'')))"

definition publication_observation_of :: "publication_observation_row \<Rightarrow> publication_observation" where
  "publication_observation_of r =
     \<lparr>po_State = pob_state r, po_ObservedSize = pob_observed_size r, po_StatusDetail = pob_status_detail r\<rparr>"

definition observed_publications :: "catalog \<Rightarrow> string \<Rightarrow> string \<Rightarrow> publication_observation option" where
  "observed_publications c oid = (\<lambda>pid. map_option publication_observation_of
     (index_by pob_publication_id (filter (\<lambda>r. pob_observation_id r = oid) (publication_observations c)) pid))"

definition LatestObservation :: "env \<Rightarrow> catalog \<Rightarrow> observation_result option res" where
  "LatestObservation e c =
     bind_res (wrap_res ''query latest observation: %w'' [] (query_db e 0 (newest (observations c)))) (\<lambda>row.
     case row of None \<Rightarrow> Inr None
     | Some r \<Rightarrow>
        (case ParseRFC3339 (obs_observed_at r) of
           None \<Rightarrow> Inl (Errorf ''parse observation time: %w'' [obs_observed_at r])
         | Some t \<Rightarrow>
        (case decode_details (obs_details_json r) of
           None \<Rightarrow> Inl (Errorf ''decode observation details: %w'' [obs_details_json r])
         | Some keys \<Rightarrow>
             bind_res (wrap_res ''query observation publications: %w'' []
               (query_db e 1 (observed_publications c (obs_id r)))) (\<lambda>publications.
             Inr (Some \<lparr>ors_ObservationID = obs_id r, ors_ObservedAt = t, ors_MutationLock = obs_mutation_lock r,
               ors_Usage = \<lparr>bu_QuotaBytes = 0, bu_TotalBytes = obs_total_bytes r,
                 bu_AcceptedBytes = obs_accepted_bytes r, bu_UnclaimedBytes = obs_unclaimed_bytes r\<rparr>,
               ors_UnclaimedKeys = keys, ors_Publications = publications\<rparr>)))))"

section \<open>What a recorded observation changes\<close>

definition recorded_as :: "string \<Rightarrow> publication_observation_record \<Rightarrow> publication_observation_row \<Rightarrow> bool" where
  "recorded_as oid p r \<longleftrightarrow> pob_observation_id r = oid \<and> pob_publication_id r = por_PublicationID p \<and>
     publication_observation_of r = \<lparr>po_State = por_State p, po_ObservedSize = por_ObservedSize p,
       po_StatusDetail = por_StatusDetail p\<rparr>"

lemma record_publications_Inr:
  "fold_tx (record_publication e oid) ps t = Inr t' \<Longrightarrow>
    \<exists>rows. tx_cat t' = (tx_cat t)\<lparr>publication_observations := publication_observations (tx_cat t) @ rows\<rparr> \<and>
      list_all2 (recorded_as oid) ps rows \<and> (catalog_ok (tx_cat t) \<longrightarrow> catalog_ok (tx_cat t'))"
proof (induction ps arbitrary: t)
  case Nil
  then show ?case by (intro exI [of _ "[]"]) simp
next
  case (Cons p ps)
  from Cons.prems obtain t1 where t1: "record_publication e oid p t = Inr t1"
    and rest: "fold_tx (record_publication e oid) ps t1 = Inr t'" by (auto simp: res_iff)
  let ?r = "\<lparr>pob_id = draw e (tx_ids t), pob_observation_id = oid, pob_publication_id = por_PublicationID p,
             pob_state = por_State p, pob_observed_size = por_ObservedSize p,
             pob_status_detail = por_StatusDetail p\<rparr>"
  from t1 obtain c1 where c1: "insert_publication_observation ?r (tx_cat t) = Inr c1" and t1': "tx_cat t1 = c1"
    by (auto simp: record_publication_def NewID_def res_iff split: if_splits)
  from c1 have c1': "c1 = (tx_cat t)\<lparr>publication_observations := publication_observations (tx_cat t) @ [?r]\<rparr>"
    by (auto simp: insert_publication_observation_def split: if_splits)
  from Cons.IH [OF rest] obtain rows where rows:
    "tx_cat t' = (tx_cat t1)\<lparr>publication_observations := publication_observations (tx_cat t1) @ rows\<rparr>"
    "list_all2 (recorded_as oid) ps rows" "catalog_ok (tx_cat t1) \<longrightarrow> catalog_ok (tx_cat t')" by blast
  have "recorded_as oid p ?r" by (simp add: recorded_as_def publication_observation_of_def)
  then show ?case
    using rows t1' c1' insert_publication_observation_ok [OF c1] by (intro exI [of _ "?r # rows"]) auto
qed

definition observation_row_of :: "env \<Rightarrow> observation_record \<Rightarrow> observation_row" where
  "observation_row_of e rec =
     \<lparr>obs_id = draw e 0, obs_observed_at = FormatRFC3339 (oor_ObservedAt rec),
      obs_status = observationComplete, obs_details_json = observation_details (oor_UnclaimedKeys rec),
      obs_mutation_lock = oor_MutationLock rec, obs_total_bytes = oor_TotalBytes rec,
      obs_accepted_bytes = oor_AcceptedBytes rec, obs_unclaimed_bytes = oor_UnclaimedBytes rec\<rparr>"

lemma RecordObservation_Inr:
  assumes "RecordObservation e rec c = (Inr u, c')" and "consistent c"
  obtains rows where "list_all2 (recorded_as (draw e 0)) (oor_Publications rec) rows"
    and "c' = c\<lparr>observations := observations c @ [observation_row_of e rec],
                 publication_observations := publication_observations c @ rows\<rparr>"
    and "consistent c'" and "draw e 0 \<notin> obs_id ` set (observations c)"
proof -
  let ?row = "observation_row_of e rec"
  from assms(1) have "record_observation e rec c = Inr (u, c')" by (simp add: RecordObservation_def run_tx_Inr)
  then obtain c1 t2 where c1: "insert_observation ?row c = Inr c1"
    and t2: "fold_tx (record_publication e (draw e 0)) (oor_Publications rec)
       \<lparr>tx_cat = c1, tx_ids = Suc 0, tx_stmts = Suc (Suc 0)\<rparr> = Inr t2"
    and def: "deferred_ok (tx_cat t2)" and c': "c' = tx_cat t2"
    by (auto simp: record_observation_def res_iff NewID_def observation_row_of_def Let_def split: if_splits)
  from c1 have c1': "c1 = c\<lparr>observations := observations c @ [?row]\<rparr>" and new: "obs_id ?row \<notin> obs_id ` set (observations c)"
    by (auto simp: insert_observation_def split: if_splits)
  from record_publications_Inr [OF t2] obtain rows where rows:
    "tx_cat t2 = c1\<lparr>publication_observations := publication_observations c1 @ rows\<rparr>"
    "list_all2 (recorded_as (draw e 0)) (oor_Publications rec) rows" "catalog_ok c1 \<longrightarrow> catalog_ok (tx_cat t2)"
    by auto
  have "consistent c'"
    using rows(3) insert_observation_ok [OF c1] assms(2) def c' by (simp add: consistent_def)
  then show ?thesis using that [OF rows(2)] rows(1) c1' c' new by (simp add: observation_row_of_def)
qed

text \<open>Accepted state is not touched (ADR-0001).\<close>

lemma RecordObservation_accepted:
  assumes "RecordObservation e rec c = (r, c')" and "consistent c"
  shows "accepted c' = accepted c \<and> projects c' = projects c \<and> publications c' = publications c \<and>
    manifest_revisions c' = manifest_revisions c \<and> manifest_objects c' = manifest_objects c \<and>
    adoption_operations c' = adoption_operations c"
proof (cases r)
  case (Inl err)
  then have "c' = c" using assms(1) run_tx_Inl unfolding RecordObservation_def by metis
  then show ?thesis by simp
next
  case (Inr u)
  from RecordObservation_Inr [OF assms(1) [unfolded Inr] assms(2)] obtain rows where
    c': "c' = c\<lparr>observations := observations c @ [observation_row_of e rec],
                 publication_observations := publication_observations c @ rows\<rparr>" by metis
  then have "manifest_of c' = manifest_of c" "prefix_of c' = prefix_of c"
    by (auto simp: manifest_of_def prefix_of_def)
  then show ?thesis by (simp add: c' accepted_def accepted_of_def)
qed

section \<open>Reading back what was recorded\<close>

lemma newest_in: "foldl newer b rows = Some r \<Longrightarrow> b = Some r \<or> r \<in> set rows"
  by (induction rows arbitrary: b) (auto simp: newer_def split: option.splits if_splits)

lemma newest_append:
  assumes "obs_status r = observationComplete"
    and "\<And>q. q \<in> set rows \<Longrightarrow> obs_status q = observationComplete \<Longrightarrow> obs_observed_at q \<le> obs_observed_at r"
  shows "newest (rows @ [r]) = Some r"
proof -
  let ?rows = "filter (\<lambda>r. obs_status r = observationComplete) rows"
  have "newer (foldl newer None ?rows) r = Some r"
  proof (cases "foldl newer None ?rows")
    case (Some b)
    then have "b \<in> set ?rows" using newest_in [of None ?rows b] by simp
    then show ?thesis using assms(2) by (simp add: Some newer_def)
  qed (simp add: newer_def)
  then show ?thesis using assms(1) by (simp add: newest_def)
qed

lemma details_name: "fold_distinct [''unclaimedKeys'']"
  by (simp add: fold_distinct_def)

lemma unclaimed_ascii: "valid_utf8 ''unclaimedKeys''"
  by (simp add: valid_utf8_def runes_ascii byte_def rune_error_def)

lemma decode_details_encoded:
  assumes "list_all valid_utf8 keys"
  shows "decode_details (observation_details keys) = Some keys"
proof -
  let ?j = "JObj [(''unclaimedKeys'', json_slice JStr keys)]"
  have "valid_json ?j"
    using assms unclaimed_ascii by (simp add: json_slice_def list.pred_map o_def)
  moreover have "get_field [(''unclaimedKeys'', json_slice JStr keys)] ''unclaimedKeys'' = json_slice JStr keys"
    by (rule get_field_distinct) (simp_all add: details_name)
  ultimately show ?thesis
    using decode_list_encoded(2) [of keys decode_str JStr]
    by (simp add: decode_details_def observation_details_def texts.reads_exactly)
qed

interpretation details: exact_codec observation_details decode_details "list_all valid_utf8"
  by unfold_locales (rule decode_details_encoded)

definition recorded_publication :: "publication_observation_record \<Rightarrow> publication_observation" where
  "recorded_publication p = \<lparr>po_State = por_State p, po_ObservedSize = por_ObservedSize p,
     po_StatusDetail = por_StatusDetail p\<rparr>"

lemma map_of_all2:
  assumes "list_all2 R ps rows" and "\<And>p r. R p r \<Longrightarrow> k' r = k p \<and> g r = h p"
  shows "map_option g (map_of (map (\<lambda>r. (k' r, r)) rows) i) = map_option h (map_of (map (\<lambda>p. (k p, p)) ps) i)"
  using assms(1) by (induction rule: list_all2_induct) (auto simp: assms(2))

lemma index_by_recorded:
  assumes "list_all2 (recorded_as oid) ps rows"
  shows "map_option publication_observation_of (index_by pob_publication_id rows pid)
       = map_option recorded_publication (index_by por_PublicationID ps pid)"
  unfolding index_by_def rev_map
  by (rule map_of_all2 [of "recorded_as oid"])
    (use assms in \<open>auto simp: recorded_as_def recorded_publication_def\<close>)

lemma LatestObservation_recorded:
  assumes rec: "RecordObservation e rec c = (Inr u, c')" and "consistent c"
    and latest: "\<And>q. q \<in> set (observations c) \<Longrightarrow> obs_status q = observationComplete \<Longrightarrow>
      obs_observed_at q \<le> FormatRFC3339 (oor_ObservedAt rec)"
    and "year_ok (oor_ObservedAt rec)" and "list_all valid_utf8 (oor_UnclaimedKeys rec)"
    and "\<not> env_fault e' 0" and "\<not> env_fault e' 1"
  shows "LatestObservation e' c' = Inr (Some
    \<lparr>ors_ObservationID = draw e 0, ors_ObservedAt = oor_ObservedAt rec div second * second,
     ors_MutationLock = oor_MutationLock rec,
     ors_Usage = \<lparr>bu_QuotaBytes = 0, bu_TotalBytes = oor_TotalBytes rec,
       bu_AcceptedBytes = oor_AcceptedBytes rec, bu_UnclaimedBytes = oor_UnclaimedBytes rec\<rparr>,
     ors_UnclaimedKeys = oor_UnclaimedKeys rec,
     ors_Publications = (\<lambda>pid. map_option recorded_publication (index_by por_PublicationID (oor_Publications rec) pid))\<rparr>)"
proof -
  from RecordObservation_Inr [OF rec assms(2)] obtain rows where
    rows: "list_all2 (recorded_as (draw e 0)) (oor_Publications rec) rows"
    and c': "c' = c\<lparr>observations := observations c @ [observation_row_of e rec],
                 publication_observations := publication_observations c @ rows\<rparr>"
    and new: "draw e 0 \<notin> obs_id ` set (observations c)" by metis
  have "newest (observations c') = Some (observation_row_of e rec)"
    unfolding c' using latest by (auto intro!: newest_append simp: observation_row_of_def)
  moreover have "observed_publications c' (draw e 0) =
      (\<lambda>pid. map_option recorded_publication (index_by por_PublicationID (oor_Publications rec) pid))"
  proof -
    have "r \<in> set rows \<Longrightarrow> pob_observation_id r = draw e 0" for r
      using rows by (auto simp: list_all2_conv_all_nth in_set_conv_nth recorded_as_def)
    then have "filter (\<lambda>r. pob_observation_id r = draw e 0) rows = rows" by (simp add: filter_id_conv)
    moreover have "filter (\<lambda>r. pob_observation_id r = draw e 0) (publication_observations c) = []"
    proof -
      have "pob_observation_id ` set (publication_observations c) \<subseteq> obs_id ` set (observations c)"
        using assms(2) by (simp add: consistent_def catalog_ok_def)
      then have "\<forall>r \<in> set (publication_observations c). pob_observation_id r \<noteq> draw e 0"
        using new by (metis image_eqI subsetD)
      then show ?thesis by (simp add: filter_empty_conv)
    qed
    ultimately show ?thesis
      by (simp add: observed_publications_def c' index_by_recorded [OF rows])
  qed
  moreover have "ParseRFC3339 (FormatRFC3339 (oor_ObservedAt rec)) = Some (oor_ObservedAt rec div second * second)"
    by (rule timestamps.decodes [OF assms(4)])
  ultimately show ?thesis
    using assms(6,7) by (simp add: LatestObservation_def query_db_def observation_row_of_def
        details.reads_exactly [OF assms(5)])
qed

section \<open>The manifests of a catalog\<close>

text \<open>The specification: every Publication with a manifest that has objects, by path; its objects by key.\<close>

definition manifest_rows :: "catalog \<Rightarrow> publication_row \<Rightarrow> object_row list" where
  "manifest_rows c p = sort_key obj_key
     (filter (\<lambda>r. Some (obj_manifest_id r) = pub_current_manifest_id p) (manifest_objects c))"

definition with_objects :: "catalog \<Rightarrow> publication_row list" where
  "with_objects c = filter (\<lambda>p. manifest_rows c p \<noteq> []) (sort_key pub_path (publications c))"

definition manifest_spec :: "(object_row \<Rightarrow> str_map) \<Rightarrow> catalog \<Rightarrow> publication_manifest list" where
  "manifest_spec dec c = map (\<lambda>p. \<lparr>pm_PublicationID = pub_id p, pm_Path = pub_path p,
      pm_Objects = map (\<lambda>r. manifest_object_of r (dec r)) (manifest_rows c p)\<rparr>) (with_objects c)"

text \<open>The sorted join is the concatenation of the sorted manifests.\<close>

definition row_block :: "catalog \<Rightarrow> publication_row \<Rightarrow> (publication_row \<times> object_row) list" where
  "row_block c p = map (Pair p) (manifest_rows c p)"

lemma manifest_rows_keys:
  assumes "catalog_ok c"
  shows "distinct (map obj_key (manifest_rows c p))"
proof -
  let ?rs = "filter (\<lambda>r. Some (obj_manifest_id r) = pub_current_manifest_id p) (manifest_objects c)"
  have d: "distinct (map (\<lambda>r. (obj_manifest_id r, obj_key r)) (manifest_objects c))"
    using assms by (simp add: catalog_ok_def)
  then have "distinct (map (\<lambda>r. (obj_manifest_id r, obj_key r)) ?rs)" by (rule distinct_map_filter)
  moreover have "inj_on obj_key (set ?rs)" if "inj_on (\<lambda>r. (obj_manifest_id r, obj_key r)) (set ?rs)"
  proof (rule inj_onI)
    fix x y assume "x \<in> set ?rs" "y \<in> set ?rs" "obj_key x = obj_key y"
    moreover from this have "obj_manifest_id x = obj_manifest_id y" by auto (metis option.inject)
    ultimately show "x = y" using that by (simp add: inj_on_def)
  qed
  ultimately have "distinct (map obj_key ?rs)" by (simp add: distinct_map)
  then show ?thesis by (simp add: manifest_rows_def)
qed

lemma sorted_blocks:
  assumes "sorted (map pub_path ps)" and "distinct (map pub_path ps)"
  shows "sorted (map (\<lambda>(p, r). (pub_path p, obj_key r)) (concat (map (row_block c) ps)))"
  using assms
proof (induction ps)
  case Nil
  then show ?case by simp
next
  case (Cons p ps)
  have "sorted (map obj_key (manifest_rows c p))" by (simp add: manifest_rows_def)
  then have "sorted (map (\<lambda>(p, r). (pub_path p, obj_key r)) (row_block c p))"
    by (simp add: row_block_def o_def sorted_map sorted_wrt_map)
  moreover have "pub_path p < pub_path q" if "q \<in> set ps" for q
    using Cons.prems that by (auto simp: order.strict_iff_order)
  ultimately show ?case
    using Cons by (auto simp: sorted_append row_block_def)
qed

lemma joined_rows_blocks:
  assumes "catalog_ok c"
  shows "joined_rows c = concat (map (row_block c) (sort_key pub_path (publications c)))"
proof -
  let ?k = "\<lambda>(p, r). (pub_path p, obj_key r)"
  let ?join = "[(p, r). p \<leftarrow> publications c, r \<leftarrow> manifest_objects c, Some (obj_manifest_id r) = pub_current_manifest_id p]"
  let ?blocks = "concat (map (row_block c) (sort_key pub_path (publications c)))"
  have paths: "distinct (map pub_path (publications c))" using assms by (simp add: catalog_ok_def)
  have block: "mset (row_block c p) = mset [(p, r). r \<leftarrow> manifest_objects c, Some (obj_manifest_id r) = pub_current_manifest_id p]" for p
  proof -
    have "[(p, r). r \<leftarrow> rs, Some (obj_manifest_id r) = pub_current_manifest_id p]
        = map (Pair p) (filter (\<lambda>r. Some (obj_manifest_id r) = pub_current_manifest_id p) rs)" for rs :: "object_row list"
      by (induction rs) auto
    then show ?thesis unfolding row_block_def manifest_rows_def by (simp only: mset_map mset_sort)
  qed
  have "mset ?blocks = mset ?join"
    using sum_list_sort_key [of "\<lambda>p. mset (row_block c p)" pub_path "publications c"]
    by (simp add: mset_concat o_def block)
  moreover have "inj_on ?k (set ?join)"
  proof (rule inj_onI)
    fix x y
    assume xy: "x \<in> set ?join" "y \<in> set ?join" "?k x = ?k y"
    obtain p r q s where x: "x = (p, r)" and y: "y = (q, s)" by (cases x, cases y) blast
    note mem = xy(1,2) [unfolded x y] and eq = xy(3) [unfolded x y]
    then have "p \<in> set (publications c)" "q \<in> set (publications c)" "pub_path p = pub_path q" by auto
    with paths have pq: "p = q" by (auto simp: distinct_map inj_on_def)
    have rs: "r \<in> set (manifest_objects c)" "Some (obj_manifest_id r) = pub_current_manifest_id p"
      "s \<in> set (manifest_objects c)" "Some (obj_manifest_id s) = pub_current_manifest_id q"
      using mem by auto
    have "obj_manifest_id r = obj_manifest_id s" using rs(2,4) pq by (metis option.inject)
    moreover have "obj_key r = obj_key s" using eq by simp
    moreover have "inj_on (\<lambda>r. (obj_manifest_id r, obj_key r)) (set (manifest_objects c))"
      using assms by (simp add: catalog_ok_def distinct_map)
    ultimately have "r = s" using rs(1,3) by (simp add: inj_on_def)
    with pq show "x = y" by (simp add: x y)
  qed
  moreover have "sorted (map ?k ?blocks)"
    by (rule sorted_blocks) (simp_all add: paths)
  ultimately have "sort_key ?k ?join = ?blocks"
    by (intro sort_key_inj_key_eq) simp_all
  then show ?thesis unfolding joined_rows_def .
qed

lemma add_object_other:
  "pid \<notin> pm_PublicationID ` set acc \<Longrightarrow>
    add_object pid path ob acc = acc @ [\<lparr>pm_PublicationID = pid, pm_Path = path, pm_Objects = [ob]\<rparr>]"
  by (induction acc) auto

lemma add_object_last:
  "pid \<notin> pm_PublicationID ` set acc \<Longrightarrow> pm_PublicationID m = pid \<Longrightarrow>
    add_object pid path ob (acc @ [m]) = acc @ [m\<lparr>pm_Objects := pm_Objects m @ [ob]\<rparr>]"
  by (induction acc) auto

text \<open>One block adds one manifest.\<close>

lemma manifests_loop_block_rest:
  assumes "pub_id p \<notin> pm_PublicationID ` set acc"
    and "\<And>r. r \<in> set rs \<Longrightarrow> decode_metadata (obj_user_metadata r) = Some (dec r)"
  shows "manifests_loop (map (Pair p) rs @ rows) (acc @ [\<lparr>pm_PublicationID = pub_id p, pm_Path = path, pm_Objects = obs\<rparr>])
    = manifests_loop rows (acc @ [\<lparr>pm_PublicationID = pub_id p, pm_Path = path,
         pm_Objects = obs @ map (\<lambda>r. manifest_object_of r (dec r)) rs\<rparr>])"
  using assms(2)
proof (induction rs arbitrary: obs)
  case (Cons r rs)
  then show ?case using assms(1) by (simp add: add_object_last)
qed simp

definition block_manifest :: "(object_row \<Rightarrow> str_map) \<Rightarrow> catalog \<Rightarrow> publication_row \<Rightarrow> publication_manifest" where
  "block_manifest dec c p = \<lparr>pm_PublicationID = pub_id p, pm_Path = pub_path p,
      pm_Objects = map (\<lambda>r. manifest_object_of r (dec r)) (manifest_rows c p)\<rparr>"

lemma manifests_loop_block:
  assumes "pub_id p \<notin> pm_PublicationID ` set acc" and "manifest_rows c p \<noteq> []"
    and dec: "\<And>r. r \<in> set (manifest_rows c p) \<Longrightarrow> decode_metadata (obj_user_metadata r) = Some (dec r)"
  shows "manifests_loop (row_block c p @ rows) acc = manifests_loop rows (acc @ [block_manifest dec c p])"
proof -
  obtain r rs where rs: "manifest_rows c p = r # rs" using assms(2) by (cases "manifest_rows c p") auto
  then show ?thesis
    using manifests_loop_block_rest [OF assms(1), of rs dec rows "pub_path p" "[manifest_object_of r (dec r)]"] dec
    by (simp add: row_block_def block_manifest_def add_object_other [OF assms(1)])
qed

lemma manifests_loop_blocks:
  shows "(\<And>p r. p \<in> set ps \<Longrightarrow> r \<in> set (manifest_rows c p) \<Longrightarrow> decode_metadata (obj_user_metadata r) = Some (dec r)) \<Longrightarrow>
    distinct (map pub_id ps) \<Longrightarrow> pub_id ` set ps \<inter> pm_PublicationID ` set acc = {} \<Longrightarrow>
    manifests_loop (concat (map (row_block c) ps)) acc
      = Inr (acc @ map (block_manifest dec c) (filter (\<lambda>p. manifest_rows c p \<noteq> []) ps))"
proof (induction ps arbitrary: acc)
  case Nil
  then show ?case by simp
next
  case (Cons p ps)
  show ?case
  proof (cases "manifest_rows c p = []")
    case True
    have "manifests_loop (concat (map (row_block c) ps)) acc
        = Inr (acc @ map (block_manifest dec c) (filter (\<lambda>p. manifest_rows c p \<noteq> []) ps))"
      using Cons.prems by (intro Cons.IH) auto
    moreover have "row_block c p = []" using True by (simp add: row_block_def)
    ultimately show ?thesis using True by simp
  next
    case False
    have "manifests_loop (row_block c p @ concat (map (row_block c) ps)) acc
        = manifests_loop (concat (map (row_block c) ps)) (acc @ [block_manifest dec c p])"
      using Cons.prems False by (intro manifests_loop_block) auto
    also have "\<dots> = Inr ((acc @ [block_manifest dec c p]) @
        map (block_manifest dec c) (filter (\<lambda>p. manifest_rows c p \<noteq> []) ps))"
      using Cons.prems by (intro Cons.IH) (auto simp: block_manifest_def)
    finally show ?thesis using False by simp
  qed
qed

lemma AcceptedManifests_spec:
  assumes "catalog_ok c" and "\<not> env_fault e 0"
    and "\<And>p r. p \<in> set (publications c) \<Longrightarrow> r \<in> set (manifest_rows c p) \<Longrightarrow>
      decode_metadata (obj_user_metadata r) = Some (dec r)"
  shows "AcceptedManifests e c = Inr (manifest_spec dec c)"
proof -
  have "distinct (map pub_id (publications c))" using assms(1) by (simp add: catalog_ok_def)
  then show ?thesis
    using manifests_loop_blocks [of "sort_key pub_path (publications c)" c dec "[]"] assms
    by (simp add: AcceptedManifests_def query_db_def joined_rows_blocks manifest_spec_def with_objects_def
        block_manifest_def [abs_def])
qed

section \<open>Recording as an operation of the store\<close>

lemma RecordObservation_extends:
  assumes "RecordObservation e rec c = (Inr u, c')" and "consistent c"
  shows "extends c c'"
proof -
  obtain rows where c': "c' = c\<lparr>observations := observations c @ [observation_row_of e rec],
      publication_observations := publication_observations c @ rows\<rparr>"
    using RecordObservation_Inr [OF assms] by blast
  then show ?thesis
    using RecordObservation_accepted [OF assms] by (simp add: extends_def)
qed

interpretation recording: catalog_operation "\<lambda>(e, rec). RecordObservation e rec"
proof unfold_locales
  fix i :: "env \<times> observation_record" and c c' :: catalog and x :: unit and err :: error
  obtain e rec where i: "i = (e, rec)" by (cases i)
  show "c' = c" if "(case i of (e, rec) \<Rightarrow> RecordObservation e rec) c = (Inl err, c')"
    using that by (auto simp: i RecordObservation_def dest: run_tx_Inl)
  assume "(case i of (e, rec) \<Rightarrow> RecordObservation e rec) c = (Inr x, c')" and cons: "consistent c"
  then have r: "RecordObservation e rec c = (Inr x, c')" by (simp add: i)
  show "consistent c'" using RecordObservation_Inr [OF r cons] by blast
  show "extends c c'" by (rule RecordObservation_extends [OF r cons])
qed

end
