(* ===== verification/Scan.thy ===== *)
theory Scan
  imports Catalog_Observation
begin

text \<open>
  \<open>internal/observe/scan.go\<close> and \<open>run.go\<close>: one full observation. \<open>Scan\<close> compares every accepted manifest
  with the complete listing and with the metadata of each object, reads bodies only where something
  differs or a complete reconciliation asks for it, and derives usage and the mutation lock; \<open>Run\<close> reads
  the manifests, scans and records. \<open>compareObject\<close> is proved to report nothing exactly for an object
  that matches, and the states, the lock and the usage to be what the findings imply.
\<close>

section \<open>Findings\<close>

definition modifiedTimeTolerance :: duration where
  "modifiedTimeTolerance = second"

definition statusDetailBound :: nat where
  "statusDetailBound = 5"

record publication_scan =
  ps_PublicationID :: string
  ps_Path :: string
  ps_State :: string
  ps_ObservedSize :: "int64 option"
  ps_StatusDetail :: string

record scan_result =
  sr_ObservedAt :: time
  sr_Publications :: "publication_scan list"
  sr_UnclaimedKeys :: "string list"
  sr_Usage :: bucket_usage
  sr_MutationLock :: string

record object_finding =
  fi_key :: string
  fi_missing :: bool
  fi_diffs :: "string list"
  fi_bytesDiffer :: bool
  fi_bytesVerified :: bool

definition parseTime :: "string \<Rightarrow> time res" where
  "parseTime value = (case ParseRFC3339 value of None \<Rightarrow> Inl (Errorf ''parse %q: %w'' [value]) | Some t \<Rightarrow> Inr t)"

definition withinTolerance :: "time \<Rightarrow> time \<Rightarrow> bool" where
  "withinTolerance observed acc =
     (if IsZero observed \<or> IsZero acc then observed = acc
      else let difference = Sub observed acc;
               difference = (if difference < 0 then neg_duration difference else difference)
           in difference \<le> modifiedTimeTolerance)"

definition sameEntries :: "str_map \<Rightarrow> str_map \<Rightarrow> bool" where
  "sameEntries left right =
     (if length (entries left) \<noteq> length (entries right) then False
      else list_all (\<lambda>(name, value). map_of (entries right) name = Some value) (entries left))"

text \<open>The arrow of the messages, U+2192 in UTF-8.\<close>

definition arrow :: string where
  "arrow = '' '' @ [CHR 0xE2, CHR 0x86, CHR 0x92] @ '' ''"

definition size_diff :: "int64 \<Rightarrow> int64 \<Rightarrow> string" where
  "size_diff old new = ''size changed ('' @ Itoa (sint old) @ arrow @ Itoa (sint new) @ '' B)''"

definition value_diff :: "string \<Rightarrow> string \<Rightarrow> string \<Rightarrow> string" where
  "value_diff what old new = what @ '' changed ('' @ old @ arrow @ new @ '')''"

definition absent :: "string \<Rightarrow> object_finding" where
  "absent key = \<lparr>fi_key = key, fi_missing = True, fi_diffs = [], fi_bytesDiffer = False, fi_bytesVerified = False\<rparr>"

definition diff_if :: "bool \<Rightarrow> string \<Rightarrow> string list" where
  "diff_if b s = (if b then [s] else [])"

text \<open>The differences of the listing entry, then those of the metadata, in the order they are appended.\<close>

definition listing_diffs :: "object_listing \<Rightarrow> manifest_object \<Rightarrow> string list" where
  "listing_diffs entry acc =
     diff_if (ol_Size entry \<noteq> mo_Size acc) (size_diff (mo_Size acc) (ol_Size entry)) @
     diff_if (ol_ETag entry \<noteq> mo_ETag acc) ''ETag changed''"

definition metadata_diffs :: "object_listing \<Rightarrow> object_meta \<Rightarrow> time \<Rightarrow> manifest_object \<Rightarrow> string list" where
  "metadata_diffs entry meta acceptedModified acc =
     diff_if (\<not> withinTolerance (om_LastModified meta) acceptedModified) ''modification time changed'' @
     diff_if (om_ETag meta \<noteq> mo_ETag acc \<and> ol_ETag entry = mo_ETag acc) ''ETag changed'' @
     diff_if (om_ContentType meta \<noteq> mo_ContentType acc)
       (value_diff ''content type'' (mo_ContentType acc) (om_ContentType meta)) @
     diff_if (om_ContentEncoding meta \<noteq> mo_ContentEncoding acc)
       (value_diff ''content encoding'' (mo_ContentEncoding acc) (om_ContentEncoding meta)) @
     diff_if (om_CacheControl meta \<noteq> mo_CacheControl acc)
       (value_diff ''cache control'' (mo_CacheControl acc) (om_CacheControl meta)) @
     diff_if (\<not> sameEntries (om_UserMetadata meta) (mo_UserMetadata acc)) ''user metadata changed''"

text \<open>The finding of one object, if any, and whether it is present.\<close>

definition verify_bytes :: "reader \<Rightarrow> manifest_object \<Rightarrow> string list \<Rightarrow> (object_finding option \<times> bool) res" where
  "verify_bytes rd acc diffs =
     (let key = mo_Key acc in
      case ReadObject rd key of
        Inl err \<Rightarrow>
          if errors_Is err ErrObjectNotFound then Inr (Some (absent key), False)
          else Inl (Wrapf ''read object %q: %w'' [key] err)
      | Inr content \<Rightarrow>
          if oc_SHA256 content \<noteq> mo_SHA256 acc
          then Inr (Some \<lparr>fi_key = key, fi_missing = False, fi_diffs = diffs, fi_bytesDiffer = True,
                          fi_bytesVerified = True\<rparr>, True)
          else if diffs \<noteq> []
          then Inr (Some \<lparr>fi_key = key, fi_missing = False, fi_diffs = diffs, fi_bytesDiffer = False,
                          fi_bytesVerified = True\<rparr>, True)
          else Inr (None, True))"

definition compareObject ::
    "reader \<Rightarrow> manifest_object \<Rightarrow> (string \<Rightarrow> object_listing option) \<Rightarrow> bool \<Rightarrow> (object_finding option \<times> bool) res" where
  "compareObject rd acc observed complete =
     (let key = mo_Key acc in
      case observed key of
        None \<Rightarrow> Inr (Some (absent key), False)
      | Some entry \<Rightarrow>
         (case StatObject rd key of
            Inl err \<Rightarrow>
              if errors_Is err ErrObjectNotFound then Inr (Some (absent key), False)
              else Inl (Wrapf ''read metadata for %q: %w'' [key] err)
          | Inr meta \<Rightarrow>
              bind_res (wrap_res ''accepted modified time for %q: %w'' [key] (parseTime (mo_ModifiedAt acc)))
                (\<lambda>acceptedModified.
              let diffs = listing_diffs entry acc @ metadata_diffs entry meta acceptedModified acc in
              if diffs = [] \<and> \<not> complete then Inr (None, True) else verify_bytes rd acc diffs)))"

definition describe_finding :: "object_finding \<Rightarrow> string" where
  "describe_finding f =
     (if fi_missing f then fi_key f @ '': absent from storage''
      else fi_key f @
        (if fi_diffs f \<noteq> [] then '': '' @ Join (fi_diffs f) '', '' else []) @
        (if fi_bytesVerified f
         then (if fi_diffs f \<noteq> [] then '', '' else '': '') @
              (if fi_bytesDiffer f then ''body verified different'' else ''body verified unchanged'')
         else []))"

definition describeFindings :: "object_finding list \<Rightarrow> string" where
  "describeFindings findings =
     (let ordered = sort_key fi_key findings;
          shown = (if statusDetailBound < length ordered then take statusDetailBound ordered else ordered);
          remainder = length ordered - length shown in
      Join (map describe_finding shown @
            (if 0 < remainder then [Itoa (int remainder) @ '' more object(s) differ''] else [])) ''; '')"

section \<open>Publications and the bucket\<close>

text \<open>The loop of \<open>scanPublication\<close>: findings, keys found and their observed size.\<close>

fun scan_objects :: "reader \<Rightarrow> (string \<Rightarrow> object_listing option) \<Rightarrow> bool \<Rightarrow> manifest_object list \<Rightarrow>
    (object_finding list \<times> nat \<times> int64) res" where
  "scan_objects rd observed complete [] = Inr ([], 0, 0)"
| "scan_objects rd observed complete (acc # rest) =
     bind_res (compareObject rd acc observed complete) (\<lambda>(finding, found).
     bind_res (scan_objects rd observed complete rest) (\<lambda>(findings, n, size).
       Inr ((case finding of None \<Rightarrow> findings | Some f \<Rightarrow> f # findings),
            (if found then Suc n else n),
            (if found then (case observed (mo_Key acc) of None \<Rightarrow> size | Some entry \<Rightarrow> ol_Size entry + size)
             else size))))"

definition scanPublication ::
    "reader \<Rightarrow> (string \<Rightarrow> object_listing option) \<Rightarrow> bool \<Rightarrow> publication_manifest \<Rightarrow> publication_scan res" where
  "scanPublication rd observed complete m =
     (let result = (\<lambda>state size detail. \<lparr>ps_PublicationID = pm_PublicationID m, ps_Path = pm_Path m,
          ps_State = state, ps_ObservedSize = size, ps_StatusDetail = detail\<rparr>) in
      if pm_Objects m = [] then Inr (result StateMissing None ''the accepted manifest holds no objects'')
      else bind_res (scan_objects rd observed complete (pm_Objects m)) (\<lambda>(findings, foundKeys, observedSize).
        if foundKeys = 0
        then Inr (result StateMissing None
          (''all '' @ Itoa (int (length (pm_Objects m))) @ '' accepted object(s) are absent from storage''))
        else if findings \<noteq> []
        then Inr (result StateDrifted (Some observedSize) (describeFindings findings))
        else Inr (result StateInSync (Some observedSize) [])))"

definition anyFinding :: "publication_scan list \<Rightarrow> bool" where
  "anyFinding ps = list_ex (\<lambda>p. ps_State p \<noteq> StateInSync) ps"

definition claimed_keys :: "publication_manifest list \<Rightarrow> string list" where
  "claimed_keys ms = concat (map (\<lambda>m. map mo_Key (pm_Objects m)) ms)"

text \<open>The keys of the map \<open>observed\<close> that no manifest claims, sorted.\<close>

definition unclaimed_keys :: "object_listing list \<Rightarrow> publication_manifest list \<Rightarrow> string list" where
  "unclaimed_keys listing ms = sort (remdups (filter (\<lambda>k. k \<notin> set (claimed_keys ms)) (map ol_Key listing)))"

definition observed_size :: "(string \<Rightarrow> object_listing option) \<Rightarrow> string \<Rightarrow> int64" where
  "observed_size observed key = (case observed key of None \<Rightarrow> 0 | Some entry \<Rightarrow> ol_Size entry)"

definition Scan :: "reader \<Rightarrow> publication_manifest list \<Rightarrow> time \<Rightarrow> bool \<Rightarrow> scan_result res" where
  "Scan rd manifests now complete =
     bind_res (wrap_res ''list bucket: %w'' [] (ListObjects rd)) (\<lambda>listing.
     let observed = index_by ol_Key listing;
         totalBytes = sum_list (map ol_Size listing);
         acceptedBytes = sum_list (map (\<lambda>m. sum_list (map mo_Size (pm_Objects m))) manifests);
         unclaimed = unclaimed_keys listing manifests;
         unclaimedBytes = sum_list (map (observed_size observed) unclaimed) in
     bind_res (map_res (scanPublication rd observed complete) manifests) (\<lambda>publications.
       Inr \<lparr>sr_ObservedAt = now, sr_Publications = publications, sr_UnclaimedKeys = unclaimed,
            sr_Usage = \<lparr>bu_QuotaBytes = 0, bu_TotalBytes = totalBytes, bu_AcceptedBytes = acceptedBytes,
              bu_UnclaimedBytes = unclaimedBytes\<rparr>,
            sr_MutationLock = (if unclaimed \<noteq> [] \<or> anyFinding publications then LockGlobal else LockNone)\<rparr>))"

definition Record :: "scan_result \<Rightarrow> observation_record" where
  "Record r =
     \<lparr>oor_ObservedAt = sr_ObservedAt r, oor_MutationLock = sr_MutationLock r,
      oor_TotalBytes = bu_TotalBytes (sr_Usage r), oor_AcceptedBytes = bu_AcceptedBytes (sr_Usage r),
      oor_UnclaimedBytes = bu_UnclaimedBytes (sr_Usage r), oor_UnclaimedKeys = sr_UnclaimedKeys r,
      oor_Publications = map (\<lambda>p. \<lparr>por_PublicationID = ps_PublicationID p, por_State = ps_State p,
        por_ObservedSize = ps_ObservedSize p, por_StatusDetail = ps_StatusDetail p\<rparr>) (sr_Publications r)\<rparr>"

text \<open>\<open>Run\<close>: \<open>re\<close> is the environment of the manifest query, \<open>we\<close> that of the recording transaction.\<close>

definition Run :: "env \<Rightarrow> env \<Rightarrow> reader \<Rightarrow> bool \<Rightarrow> catalog \<Rightarrow> scan_result res \<times> catalog" where
  "Run re we rd complete c =
     (case wrap_res ''read accepted manifests: %w'' [] (AcceptedManifests re c) of
        Inl err \<Rightarrow> (Inl err, c)
      | Inr manifests \<Rightarrow>
         (case Scan rd manifests (env_now we) complete of
            Inl err \<Rightarrow> (Inl err, c)
          | Inr result \<Rightarrow>
             (case RecordObservation we (Record result) c of
                (Inl err, c') \<Rightarrow> (Inl (Wrapf ''record observation: %w'' [] err), c')
              | (Inr u, c') \<Rightarrow> (Inr result, c'))))"

section \<open>What a comparison reports\<close>

text \<open>Within a second of each other, for instants whose distance fits a \<open>Duration\<close>.\<close>

lemma withinTolerance_near:
  assumes "u \<noteq> 0" and "t \<noteq> 0" and "\<bar>t - u\<bar> \<le> max_duration"
  shows "withinTolerance t u \<longleftrightarrow> \<bar>t - u\<bar> \<le> second"
  using assms
  by (auto simp: withinTolerance_def IsZero_def Sub_def neg_duration_def modifiedTimeTolerance_def
      min_duration_def max_duration_def Let_def)

text \<open>Far in the past the difference saturates at the most negative duration, which is its own negation.\<close>

lemma withinTolerance_saturates:
  assumes "t \<noteq> 0" and "u \<noteq> 0" and "t - u < min_duration"
  shows "withinTolerance t u"
  using assms
  by (simp add: withinTolerance_def IsZero_def Sub_def neg_duration_def modifiedTimeTolerance_def
      min_duration_def max_duration_def Let_def second_def)

lemma sameEntries_same_map:
  assumes "map_ok l" and "map_ok r"
  shows "sameEntries l r \<longleftrightarrow> same_map l r"
proof -
  let ?l = "entries l" and ?r = "entries r"
  have dl: "distinct (map fst ?l)" and dr: "distinct (map fst ?r)" using assms by (simp_all add: map_ok_def)
  have lookup: "list_all (\<lambda>(k, v). map_of ?r k = Some v) ?l \<longleftrightarrow> set ?l \<subseteq> set ?r"
    using map_of_eq_Some_iff [OF dr] by (auto simp: list_all_iff)
  have "map_of ?l = map_of ?r \<longleftrightarrow> set ?l = set ?r" using map_of_inject_set [OF dl dr] .
  moreover have "length ?l = length ?r \<and> set ?l \<subseteq> set ?r \<longleftrightarrow> set ?l = set ?r"
  proof -
    have c: "card (set ?l) = length ?l" "card (set ?r) = length ?r"
      using dl dr by (metis distinct_card distinct_map)+
    then show ?thesis by (metis List.finite_set card_subset_eq order_refl)
  qed
  ultimately show ?thesis using lookup by (auto simp: sameEntries_def same_map_def)
qed

text \<open>An object that is present and equal to its accepted record in listing and metadata.\<close>

definition unchanged :: "reader \<Rightarrow> (string \<Rightarrow> object_listing option) \<Rightarrow> manifest_object \<Rightarrow> bool" where
  "unchanged rd observed a \<longleftrightarrow> (\<exists>entry meta t. observed (mo_Key a) = Some entry \<and>
     StatObject rd (mo_Key a) = Inr meta \<and> ParseRFC3339 (mo_ModifiedAt a) = Some t \<and>
     ol_Size entry = mo_Size a \<and> ol_ETag entry = mo_ETag a \<and>
     withinTolerance (om_LastModified meta) t \<and> om_ETag meta = mo_ETag a \<and>
     om_ContentType meta = mo_ContentType a \<and> om_ContentEncoding meta = mo_ContentEncoding a \<and>
     om_CacheControl meta = mo_CacheControl a \<and> sameEntries (om_UserMetadata meta) (mo_UserMetadata a))"

definition same_bytes :: "reader \<Rightarrow> manifest_object \<Rightarrow> bool" where
  "same_bytes rd a \<longleftrightarrow> (\<exists>content. ReadObject rd (mo_Key a) = Inr content \<and> oc_SHA256 content = mo_SHA256 a)"

lemma diff_if_Nil [simp]: "diff_if b s = [] \<longleftrightarrow> \<not> b"
  by (simp add: diff_if_def)

lemma diffs_Nil:
  "listing_diffs entry a @ metadata_diffs entry meta t a = [] \<longleftrightarrow>
     ol_Size entry = mo_Size a \<and> ol_ETag entry = mo_ETag a \<and>
     withinTolerance (om_LastModified meta) t \<and> om_ETag meta = mo_ETag a \<and>
     om_ContentType meta = mo_ContentType a \<and> om_ContentEncoding meta = mo_ContentEncoding a \<and>
     om_CacheControl meta = mo_CacheControl a \<and> sameEntries (om_UserMetadata meta) (mo_UserMetadata a)"
  by (auto simp: listing_diffs_def metadata_diffs_def)

lemma verify_bytes_None:
  "verify_bytes rd a diffs = Inr (None, b) \<longleftrightarrow> b \<and> diffs = [] \<and> same_bytes rd a"
  by (auto simp: verify_bytes_def same_bytes_def Let_def split: sum.splits)

text \<open>No finding exactly for an unchanged object, whose bytes a complete reconciliation also verified.\<close>

lemma compareObject_None:
  "compareObject rd a observed complete = Inr (None, b) \<longleftrightarrow>
     b \<and> unchanged rd observed a \<and> (complete \<longrightarrow> same_bytes rd a)"
proof (cases "observed (mo_Key a)")
  case None
  then show ?thesis by (simp add: compareObject_def unchanged_def)
next
  case entry: (Some entry)
  show ?thesis
  proof (cases "StatObject rd (mo_Key a)")
    case (Inl e)
    then show ?thesis using entry by (simp add: compareObject_def unchanged_def Let_def)
  next
    case meta: (Inr meta)
    show ?thesis
    proof (cases "ParseRFC3339 (mo_ModifiedAt a)")
      case None
      then show ?thesis using entry meta by (simp add: compareObject_def unchanged_def parseTime_def)
    next
      case t: (Some t)
      let ?diffs = "listing_diffs entry a @ metadata_diffs entry meta t a"
      have "compareObject rd a observed complete =
          (if ?diffs = [] \<and> \<not> complete then Inr (None, True) else verify_bytes rd a ?diffs)"
        using entry meta t by (simp add: compareObject_def parseTime_def Let_def del: append_is_Nil_conv)
      moreover have "unchanged rd observed a \<longleftrightarrow> ?diffs = []"
        using entry meta t unfolding diffs_Nil by (simp add: unchanged_def)
      ultimately show ?thesis by (auto simp: verify_bytes_None simp del: append_is_Nil_conv)
    qed
  qed
qed

text \<open>A finding says \<open>missing\<close> exactly when the object counts as not found.\<close>

lemma compareObject_found:
  "compareObject rd a observed complete = Inr (f, b) \<Longrightarrow>
     (\<not> b \<longrightarrow> f = Some (absent (mo_Key a))) \<and> (b \<longrightarrow> observed (mo_Key a) \<noteq> None) \<and>
     (\<forall>x. f = Some x \<longrightarrow> fi_key x = mo_Key a \<and> (fi_missing x \<longleftrightarrow> \<not> b))"
  by (auto simp: compareObject_def verify_bytes_def Let_def absent_def res_iff
      split: option.splits sum.splits if_splits)

section \<open>States, lock and usage\<close>

text \<open>What the scan of one publication found, as sets over its accepted objects.\<close>

definition found :: "reader \<Rightarrow> (string \<Rightarrow> object_listing option) \<Rightarrow> bool \<Rightarrow> manifest_object \<Rightarrow> bool" where
  "found rd observed complete a \<longleftrightarrow> (\<exists>f. compareObject rd a observed complete = Inr (f, True))"

definition quiet :: "reader \<Rightarrow> (string \<Rightarrow> object_listing option) \<Rightarrow> bool \<Rightarrow> manifest_object \<Rightarrow> bool" where
  "quiet rd observed complete a \<longleftrightarrow> compareObject rd a observed complete = Inr (None, True)"

definition found_objects :: "reader \<Rightarrow> (string \<Rightarrow> object_listing option) \<Rightarrow> bool \<Rightarrow> manifest_object list \<Rightarrow> manifest_object list" where
  "found_objects rd observed complete obs = filter (found rd observed complete) obs"

lemma scan_objects_Inr:
  "scan_objects rd observed complete obs = Inr (fs, n, sz) \<Longrightarrow>
     n = length (found_objects rd observed complete obs) \<and>
     sz = (\<Sum>a \<leftarrow> found_objects rd observed complete obs. observed_size observed (mo_Key a)) \<and>
     (fs = [] \<longleftrightarrow> list_all (quiet rd observed complete) obs)"
proof (induction obs arbitrary: fs n sz)
  case Nil
  then show ?case by (simp add: found_objects_def)
next
  case (Cons a obs)
  from Cons.prems obtain f b fs' n' szq where f: "compareObject rd a observed complete = Inr (f, b)"
    and rest: "scan_objects rd observed complete obs = Inr (fs', n', szq)"
    and fs: "fs = (case f of None \<Rightarrow> fs' | Some x \<Rightarrow> x # fs')" and n: "n = (if b then Suc n' else n')"
    and sz: "sz = (if b then (case observed (mo_Key a) of None \<Rightarrow> szq | Some entry \<Rightarrow> ol_Size entry + szq) else szq)"
    by (auto simp: res_iff)
  have found: "found rd observed complete a \<longleftrightarrow> b" using f by (simp add: found_def)
  have quiet: "quiet rd observed complete a \<longleftrightarrow> f = None"
    using f compareObject_found [OF f] by (auto simp: quiet_def)
  show ?case
    using Cons.IH [OF rest] n sz fs found quiet compareObject_found [OF f]
    by (auto simp: found_objects_def observed_size_def split: option.splits)
qed

text \<open>The state of a publication that was scanned.\<close>

lemma scanPublication_Inr:
  assumes "scanPublication rd observed complete m = Inr p"
  shows "ps_PublicationID p = pm_PublicationID m" and "ps_Path p = pm_Path m"
    and "ps_State p = (if found_objects rd observed complete (pm_Objects m) = [] then StateMissing
       else if list_all (quiet rd observed complete) (pm_Objects m) then StateInSync else StateDrifted)"
    and "ps_ObservedSize p = (if found_objects rd observed complete (pm_Objects m) = [] then None
       else Some (\<Sum>a \<leftarrow> found_objects rd observed complete (pm_Objects m). observed_size observed (mo_Key a)))"
proof -
  have "ps_PublicationID p = pm_PublicationID m \<and> ps_Path p = pm_Path m \<and>
    ps_State p = (if found_objects rd observed complete (pm_Objects m) = [] then StateMissing
       else if list_all (quiet rd observed complete) (pm_Objects m) then StateInSync else StateDrifted) \<and>
    ps_ObservedSize p = (if found_objects rd observed complete (pm_Objects m) = [] then None
       else Some (\<Sum>a \<leftarrow> found_objects rd observed complete (pm_Objects m). observed_size observed (mo_Key a)))"
  proof (cases "pm_Objects m = []")
    case True
    then show ?thesis using assms by (auto simp: scanPublication_def found_objects_def)
  next
    case False
    with assms obtain fs n sz where s: "scan_objects rd observed complete (pm_Objects m) = Inr (fs, n, sz)"
      by (auto simp: scanPublication_def res_iff)
    note facts = scan_objects_Inr [OF s]
    show ?thesis
      using assms False s facts by (auto simp: scanPublication_def Let_def split: if_splits)
  qed
  then show "ps_PublicationID p = pm_PublicationID m" and "ps_Path p = pm_Path m"
    and "ps_State p = (if found_objects rd observed complete (pm_Objects m) = [] then StateMissing
       else if list_all (quiet rd observed complete) (pm_Objects m) then StateInSync else StateDrifted)"
    and "ps_ObservedSize p = (if found_objects rd observed complete (pm_Objects m) = [] then None
       else Some (\<Sum>a \<leftarrow> found_objects rd observed complete (pm_Objects m). observed_size observed (mo_Key a)))"
    by blast+
qed

lemma quiet_found: "quiet rd observed complete a \<Longrightarrow> found rd observed complete a"
  by (auto simp: quiet_def found_def)

lemma scanPublication_in_sync:
  assumes "scanPublication rd observed complete m = Inr p"
  shows "ps_State p = StateInSync \<longleftrightarrow> pm_Objects m \<noteq> [] \<and>
    list_all (\<lambda>a. unchanged rd observed a \<and> (complete \<longrightarrow> same_bytes rd a)) (pm_Objects m)"
proof -
  have q: "quiet rd observed complete = (\<lambda>a. unchanged rd observed a \<and> (complete \<longrightarrow> same_bytes rd a))"
    by (rule ext) (simp add: quiet_def compareObject_None)
  have ne: "found_objects rd observed complete (pm_Objects m) \<noteq> []"
    if "pm_Objects m \<noteq> []" "list_all (quiet rd observed complete) (pm_Objects m)"
    using that quiet_found by (cases "pm_Objects m") (auto simp: found_objects_def)
  have st: "StateMissing \<noteq> StateInSync" "StateDrifted \<noteq> StateInSync"
    by (simp_all add: StateMissing_def StateInSync_def StateDrifted_def)
  show ?thesis
    using scanPublication_Inr(3) [OF assms] ne st unfolding q [symmetric]
    by (auto simp: found_objects_def split: if_splits)
qed

lemma Scan_Inr:
  assumes "Scan rd ms now complete = Inr r"
  obtains listing where "ListObjects rd = Inr listing"
    "list_all2 (\<lambda>m p. scanPublication rd (index_by ol_Key listing) complete m = Inr p) ms (sr_Publications r)"
    "sr_UnclaimedKeys r = unclaimed_keys listing ms" "sr_ObservedAt r = now"
    "bu_TotalBytes (sr_Usage r) = sum_list (map ol_Size listing)"
    "bu_AcceptedBytes (sr_Usage r) = (\<Sum>m \<leftarrow> ms. \<Sum>a \<leftarrow> pm_Objects m. mo_Size a)"
    "bu_UnclaimedBytes (sr_Usage r) = (\<Sum>k \<leftarrow> unclaimed_keys listing ms. observed_size (index_by ol_Key listing) k)"
    "sr_MutationLock r = (if unclaimed_keys listing ms \<noteq> [] \<or> anyFinding (sr_Publications r) then LockGlobal else LockNone)"
  using assms by (auto simp: Scan_def Let_def res_iff map_res_Inr)

lemma set_unclaimed: "set (unclaimed_keys listing ms) = ol_Key ` set listing - set (claimed_keys ms)"
  by (auto simp: unclaimed_keys_def)

lemma distinct_unclaimed: "distinct (unclaimed_keys listing ms)"
  by (simp add: unclaimed_keys_def)

text \<open>Every byte of the bucket is claimed or unclaimed.\<close>

lemma listed_size:
  "distinct (map ol_Key listing) \<Longrightarrow> x \<in> set listing \<Longrightarrow> observed_size (index_by ol_Key listing) (ol_Key x) = ol_Size x"
  by (simp add: observed_size_def index_by_distinct)

lemma usage_partition:
  assumes "distinct (map ol_Key listing)"
  shows "sum_list (map ol_Size listing) =
     (\<Sum>k \<leftarrow> unclaimed_keys listing ms. observed_size (index_by ol_Key listing) k) +
     (\<Sum>x \<leftarrow> filter (\<lambda>x. ol_Key x \<in> set (claimed_keys ms)) listing. ol_Size x)"
proof -
  let ?free = "filter (\<lambda>x. ol_Key x \<notin> set (claimed_keys ms)) listing"
  have keys: "set (map ol_Key ?free) = set (unclaimed_keys listing ms)" "distinct (map ol_Key ?free)"
    using assms by (auto simp: set_unclaimed distinct_map_filter)
  have "(\<Sum>k \<leftarrow> unclaimed_keys listing ms. observed_size (index_by ol_Key listing) k)
      = (\<Sum>k \<leftarrow> map ol_Key ?free. observed_size (index_by ol_Key listing) k)"
    using keys distinct_unclaimed by (intro sum_list_set_cong) auto
  also have "\<dots> = (\<Sum>x \<leftarrow> ?free. ol_Size x)"
    using listed_size [OF assms] by (intro arg_cong [where f = sum_list]) simp
  finally show ?thesis
    using sum_list_partition [of ol_Size listing "\<lambda>x. ol_Key x \<in> set (claimed_keys ms)"]
    by (simp add: add.commute)
qed

lemma anyFinding_False: "\<not> anyFinding ps \<longleftrightarrow> list_all (\<lambda>p. ps_State p = StateInSync) ps"
  by (simp add: anyFinding_def list_ex_iff list_all_iff)

text \<open>No lock exactly when the bucket holds what was accepted and nothing else.\<close>

definition bucket_matches :: "reader \<Rightarrow> object_listing list \<Rightarrow> publication_manifest list \<Rightarrow> bool \<Rightarrow> bool" where
  "bucket_matches rd listing ms complete \<longleftrightarrow>
     ol_Key ` set listing \<subseteq> set (claimed_keys ms) \<and>
     list_all (\<lambda>m. pm_Objects m \<noteq> [] \<and>
       list_all (\<lambda>a. unchanged rd (index_by ol_Key listing) a \<and> (complete \<longrightarrow> same_bytes rd a)) (pm_Objects m)) ms"

lemma list_all2_list_all:
  "list_all2 R xs ys \<Longrightarrow> (\<And>x y. R x y \<Longrightarrow> P x = Q y) \<Longrightarrow> list_all P xs = list_all Q ys"
  by (induction rule: list_all2_induct) auto

lemma Scan_lock:
  assumes "Scan rd ms now complete = Inr r" and "ListObjects rd = Inr listing"
  shows "sr_MutationLock r = (if bucket_matches rd listing ms complete then LockNone else LockGlobal)"
proof -
  from Scan_Inr [OF assms(1)] obtain l where l: "ListObjects rd = Inr l"
    and ps': "list_all2 (\<lambda>m p. scanPublication rd (index_by ol_Key l) complete m = Inr p) ms (sr_Publications r)"
    and lock': "sr_MutationLock r = (if unclaimed_keys l ms \<noteq> [] \<or> anyFinding (sr_Publications r) then LockGlobal else LockNone)" .
  have [simp]: "l = listing" using l assms(2) by simp
  note ps = ps' [simplified] and lock = lock' [simplified]
  have "list_all (\<lambda>m. pm_Objects m \<noteq> [] \<and>
       list_all (\<lambda>a. unchanged rd (index_by ol_Key listing) a \<and> (complete \<longrightarrow> same_bytes rd a)) (pm_Objects m)) ms
     = list_all (\<lambda>p. ps_State p = StateInSync) (sr_Publications r)"
    by (rule list_all2_list_all [OF ps]) (simp add: scanPublication_in_sync)
  moreover have "unclaimed_keys listing ms = [] \<longleftrightarrow> ol_Key ` set listing \<subseteq> set (claimed_keys ms)"
    using set_unclaimed [of listing ms] by (metis Diff_eq_empty_iff set_empty)
  ultimately show ?thesis by (auto simp: lock bucket_matches_def anyFinding_False [symmetric])
qed

text \<open>A matching bucket is scanned without an error.\<close>

lemma scan_objects_quiet:
  assumes "list_all (quiet rd observed complete) obs"
  shows "\<exists>n z. scan_objects rd observed complete obs = Inr ([], n, z) \<and> n = length obs"
  using assms
proof (induction obs)
  case (Cons a obs)
  then obtain n z where "scan_objects rd observed complete obs = Inr ([], n, z)" "n = length obs" by auto
  moreover have "compareObject rd a observed complete = Inr (None, True)" using Cons.prems by (simp add: quiet_def)
  ultimately show ?case by simp
qed simp

lemma Scan_matching:
  assumes "ListObjects rd = Inr listing" and "bucket_matches rd listing ms complete"
  shows "\<exists>r. Scan rd ms now complete = Inr r \<and> sr_MutationLock r = LockNone \<and> sr_UnclaimedKeys r = [] \<and>
    list_all (\<lambda>p. ps_State p = StateInSync) (sr_Publications r)"
proof -
  let ?ob = "index_by ol_Key listing"
  have one: "\<exists>p. scanPublication rd ?ob complete m = Inr p" if "m \<in> set ms" for m
  proof -
    have "pm_Objects m \<noteq> []" "list_all (quiet rd ?ob complete) (pm_Objects m)"
      using assms(2) that by (auto simp: bucket_matches_def list_all_iff quiet_def compareObject_None)
    from this(1) scan_objects_quiet [OF this(2)] show ?thesis by (auto simp: scanPublication_def Let_def)
  qed
  then obtain f where "\<And>m. m \<in> set ms \<Longrightarrow> scanPublication rd ?ob complete m = Inr (f m)" by metis
  then have "map_res (scanPublication rd ?ob complete) ms = Inr (map f ms)" by (rule map_res_total)
  then obtain r where r: "Scan rd ms now complete = Inr r" by (simp add: Scan_def assms(1) Let_def)
  have lock: "sr_MutationLock r = LockNone" using Scan_lock [OF r assms(1)] assms(2) by simp
  have ne: "LockGlobal \<noteq> LockNone" by (simp add: LockGlobal_def LockNone_def)
  from Scan_Inr [OF r] obtain l where "sr_UnclaimedKeys r = unclaimed_keys l ms"
    "sr_MutationLock r = (if unclaimed_keys l ms \<noteq> [] \<or> anyFinding (sr_Publications r) then LockGlobal else LockNone)"
    by metis
  with lock ne have "sr_UnclaimedKeys r = []" "\<not> anyFinding (sr_Publications r)" by (auto split: if_splits)
  with r lock show ?thesis by (auto simp: anyFinding_False)
qed

section \<open>Run as an operation of the store\<close>

lemma Run_cases:
  assumes "Run re we rd complete c = (r, c')"
  obtains (refused) err where "r = Inl err" "c' = c"
  | (recorded) ms result u where "AcceptedManifests re c = Inr ms" "Scan rd ms (env_now we) complete = Inr result"
      "RecordObservation we (Record result) c = (Inr u, c')" "r = Inr result"
proof -
  have "c' = c" if "RecordObservation we rec c = (Inl err, c')" for rec err
    using recording.failure [of "(we, rec)" c err c'] that by simp
  note unchanged_cat = this
  show ?thesis
  proof (cases "AcceptedManifests re c")
    case (Inl err)
    then show ?thesis using assms by (intro that(1)) (auto simp: Run_def)
  next
    case ms: (Inr ms)
    show ?thesis
    proof (cases "Scan rd ms (env_now we) complete")
      case (Inl err)
      then show ?thesis using assms ms by (intro that(1) [of err]) (auto simp: Run_def)
    next
      case sc: (Inr result)
      obtain o' c1 where o': "RecordObservation we (Record result) c = (o', c1)" by fastforce
      show ?thesis
      proof (cases o')
        case (Inl err)
        then show ?thesis using assms ms sc o' unchanged_cat by (intro that(1)) (auto simp: Run_def)
      next
        case (Inr u)
        then show ?thesis using assms ms sc o' by (intro that(2) [of ms result u]) (auto simp: Run_def)
      qed
    qed
  qed
qed

interpretation running: catalog_operation "\<lambda>(re, we, rd, complete). Run re we rd complete"
proof unfold_locales
  fix i :: "env \<times> env \<times> reader \<times> bool" and c c' :: catalog and x :: scan_result and err :: error
  obtain re we rd complete where i: "i = (re, we, rd, complete)" by (cases i)
  show "c' = c" if "(case i of (re, we, rd, complete) \<Rightarrow> Run re we rd complete) c = (Inl err, c')"
    using that by (auto simp: i elim: Run_cases)
  assume "(case i of (re, we, rd, complete) \<Rightarrow> Run re we rd complete) c = (Inr x, c')" and cons: "consistent c"
  then have r: "Run re we rd complete c = (Inr x, c')" by (simp add: i)
  have "consistent c' \<and> extends c c'"
    using r
  proof (cases rule: Run_cases)
    case (recorded ms result u)
    then show ?thesis
      using recording.keeps [of "(we, Record result)" c u c'] recording.adds [of "(we, Record result)" c u c'] cons
      by simp
  qed simp
  then show "consistent c'" "extends c c'" by blast+
qed

end
