(* ===== verification/Declaration.thy ===== *)
theory Declaration
  imports Go_Strings
begin

text \<open>
  \<open>internal/adoption/declaration.go\<close>: the explicit adoption batch and its validation. Each
  \<open>Validate\<close> function is the source's, in its order of checks; errors keep the source's format
  string and its arguments. The second half states what an accepted declaration promises
  (\<open>valid_publication\<close>, \<open>valid_batch\<close>) and proves that validation accepts exactly that, and
  what follows for the batch: objects and routes are owned by one Publication each.
\<close>

section \<open>The declaration\<close>

text \<open>\<open>RoutingMode\<close> is a Go string type; the three constants are its valid values.\<close>

definition RoutingExactFile :: string where "RoutingExactFile = ''exact_file''"
definition RoutingDirectoryIndex :: string where "RoutingDirectoryIndex = ''directory_index''"
definition RoutingFallback :: string where "RoutingFallback = ''fallback''"

definition reservedManagerPrefix :: string where
  "reservedManagerPrefix = ''_page-hub''"

record project_declaration =
  prj_Prefix :: string
  prj_DisplayName :: string

record route_probe =
  rp_Path :: string
  rp_ExpectStatus :: int

record publication_declaration =
  pd_Project :: project_declaration
  pd_Path :: string
  pd_DisplayName :: string
  pd_EntryPoint :: string
  pd_RoutingMode :: string
  pd_Objects :: "string list"
  pd_Probes :: "route_probe list"

record batch_declaration =
  dc_Version :: int
  dc_Publications :: "publication_declaration list"

section \<open>Paths and characters\<close>

fun validatePathSegments :: "string \<Rightarrow> string \<Rightarrow> error option" where
  "validatePathSegments what value =
     (if list_ex (\<lambda>seg. seg = [] \<or> seg = ''.'' \<or> seg = ''..'') (Split value (CHR ''/''))
      then Some (Errorf ''%s %q contains an empty, '.', or '..' segment'' [what, value])
      else None)"

definition validateKeyCharacters :: "string \<Rightarrow> string \<Rightarrow> error option" where
  "validateKeyCharacters what value =
     and_then
       (fail_if (list_ex (\<lambda>char. IsControl char \<or> char = 63 \<or> char = 35) (code_points value))
          (Errorf ''%s %q contains a control, '?', or '#' character'' [what, value]))
       (fail_if (TrimSpace value = []) (Errorf ''%s must not be blank'' [what]))"

definition validatePrefix :: "string \<Rightarrow> error option" where
  "validatePrefix pfx =
     (if pfx = [] then Some (Errorf ''project prefix must not be empty'' [])
      else if EqualFold pfx reservedManagerPrefix
      then Some (Errorf ''project prefix %q is reserved for the manager'' [reservedManagerPrefix])
      else if pfx = ''.'' \<or> pfx = ''..'' \<or> HasPrefix pfx ''.''
      then Some (Errorf ''project prefix %q must not start with a dot'' [pfx])
      else if ContainsByte pfx (CHR ''/'')
      then Some (Errorf ''project prefix %q must be a single top-level path segment'' [pfx])
      else validateKeyCharacters ''project prefix'' pfx)"

definition validatePath :: "string \<Rightarrow> string \<Rightarrow> error option" where
  "validatePath pfx path =
     (if path = pfx then None
      else if \<not> HasPrefix path (pfx @ ''/'')
      then Some (Errorf ''publication path %q must be the project prefix %q or a path beneath it'' [path, pfx])
      else if HasSuffix path ''/''
      then Some (Errorf ''publication path %q must not end with a slash'' [path])
      else and_then (validatePathSegments ''publication path'' path)
                    (validateKeyCharacters ''publication path'' path))"

definition validateObjectKey :: "string \<Rightarrow> string \<Rightarrow> error option" where
  "validateObjectKey path key =
     (if key = path then None
      else case CutPrefix key (path @ ''/'') of (relative, ok) \<Rightarrow>
        (if \<not> ok \<or> relative = []
         then Some (Errorf ''object key %q must be the publication path %q or an object beneath it'' [key, path])
         else and_then (validatePathSegments ''object key'' key)
                       (validateKeyCharacters ''object key'' key)))"

section \<open>Probes\<close>

definition validateProbePath :: "string \<Rightarrow> error option" where
  "validateProbePath path =
     (if path = [] then None
      else if HasPrefix path ''/''
      then Some (Errorf ''probe path %q must be relative to the publication path'' [path])
      else if HasSuffix path ''/''
      then Some (Errorf ''probe path %q must not end with a slash'' [path])
      else and_then (validatePathSegments ''probe path'' path)
                    (validateKeyCharacters ''probe path'' path))"

fun probes_loop :: "string list \<Rightarrow> route_probe list \<Rightarrow> error option" where
  "probes_loop seen [] = None"
| "probes_loop seen (probe # probes) =
     (if rp_ExpectStatus probe < 100 \<or> 599 < rp_ExpectStatus probe
      then Some (Errorf ''probe path %q: expected status %d is not a valid HTTP status''
                   [rp_Path probe, Itoa (rp_ExpectStatus probe)])
      else if rp_Path probe \<in> set seen
      then Some (Errorf ''probe path %q is declared twice'' [rp_Path probe])
      else and_then (validateProbePath (rp_Path probe)) (probes_loop (rp_Path probe # seen) probes))"

definition validateProbes :: "route_probe list \<Rightarrow> error option" where
  "validateProbes probes =
     (if probes = [] then Some (Errorf ''at least one public-route probe is required'' [])
      else probes_loop [] probes)"

section \<open>One Publication\<close>

fun objects_loop :: "string \<Rightarrow> string list \<Rightarrow> string list \<Rightarrow> error option" where
  "objects_loop path seen [] = None"
| "objects_loop path seen (key # keys) =
     (if key \<in> set seen then Some (Errorf ''duplicate object key %q'' [key])
      else and_then (validateObjectKey path key) (objects_loop path (key # seen) keys))"

definition valid_mode :: "string \<Rightarrow> bool" where
  "valid_mode m \<longleftrightarrow> m = RoutingExactFile \<or> m = RoutingDirectoryIndex \<or> m = RoutingFallback"

definition Publication_Validate :: "publication_declaration \<Rightarrow> error option" where
  "Publication_Validate p =
     and_then (validatePrefix (prj_Prefix (pd_Project p)))
    (and_then (validatePath (prj_Prefix (pd_Project p)) (pd_Path p))
    (and_then (fail_if (\<not> valid_mode (pd_RoutingMode p))
                 (Errorf ''invalid routing mode %q'' [pd_RoutingMode p]))
    (and_then (fail_if (pd_Objects p = []) (Errorf ''the object set must not be empty'' []))
    (and_then (fail_if (pd_RoutingMode p = RoutingExactFile \<and> length (pd_Objects p) \<noteq> 1)
                 (Errorf ''exact-file routing requires exactly one object, got %d''
                    [Itoa (int (length (pd_Objects p)))]))
    (and_then (objects_loop (pd_Path p) [] (pd_Objects p))
    (and_then (fail_if (pd_EntryPoint p \<notin> set (pd_Objects p))
                 (Errorf ''entry point %q is not part of the declared object set'' [pd_EntryPoint p]))
              (validateProbes (pd_Probes p))))))))"

section \<open>The batch\<close>

text \<open>The map \<open>seenObjects\<close>: which publication, by index, claimed a key first.\<close>

fun claim_objects :: "nat \<Rightarrow> (string \<rightharpoonup> nat) \<Rightarrow> string list \<Rightarrow> (string \<rightharpoonup> nat) res" where
  "claim_objects i seen [] = Inr seen"
| "claim_objects i seen (key # keys) =
     (case seen key of
        Some owner \<Rightarrow>
          Inl (Errorf ''publication %d: object %q is also declared by publication %d''
                 [Itoa (int i), key, Itoa (int owner)])
      | None \<Rightarrow> claim_objects i (seen(key \<mapsto> i)) keys)"

fun publications_loop ::
  "nat \<Rightarrow> (string \<rightharpoonup> nat) \<Rightarrow> (string \<rightharpoonup> string) \<Rightarrow> publication_declaration list \<Rightarrow> error option" where
  "publications_loop i seen names [] = None"
| "publications_loop i seen names (p # ps) =
     and_then (wrap_err ''publication %d: %w'' [Itoa (int i)] (Publication_Validate p))
       (case claim_objects i seen (pd_Objects p) of
          Inl e \<Rightarrow> Some e
        | Inr seen' \<Rightarrow>
            (let prj = pd_Project p in
             case names (prj_Prefix prj) of
               Some declared \<Rightarrow>
                 if declared \<noteq> prj_DisplayName prj
                 then Some (Errorf ''publication %d: project %q is declared with conflicting display names %q and %q''
                              [Itoa (int i), prj_Prefix prj, declared, prj_DisplayName prj])
                 else publications_loop (Suc i) seen' names ps
             | None \<Rightarrow> publications_loop (Suc i) seen' (names(prj_Prefix prj \<mapsto> prj_DisplayName prj)) ps))"

definition isSegmentPrefix :: "string \<Rightarrow> string \<Rightarrow> bool" where
  "isSegmentPrefix a b \<longleftrightarrow> HasPrefix b (a @ ''/'')"

definition check_pair :: "string \<Rightarrow> string \<Rightarrow> error option" where
  "check_pair outer inner =
     (if outer = inner
      then Some (Errorf ''publication path %q is declared twice; boundaries are ambiguous'' [outer])
      else if isSegmentPrefix outer inner
      then Some (Errorf ''ambiguous Publication boundary: %q is nested inside %q'' [inner, outer])
      else if isSegmentPrefix inner outer
      then Some (Errorf ''ambiguous Publication boundary: %q is nested inside %q'' [outer, inner])
      else None)"

fun checkBoundaries :: "publication_declaration list \<Rightarrow> error option" where
  "checkBoundaries [] = None"
| "checkBoundaries (p # ps) =
     and_then (each_err (\<lambda>q. check_pair (pd_Path p) (pd_Path q)) ps) (checkBoundaries ps)"

definition Declaration_Validate :: "batch_declaration \<Rightarrow> error option" where
  "Declaration_Validate d =
     and_then (fail_if (dc_Version d \<noteq> 1) (Errorf ''unsupported declaration version %d'' [Itoa (dc_Version d)]))
    (and_then (fail_if (dc_Publications d = []) (Errorf ''declaration must contain at least one publication'' []))
    (and_then (publications_loop 0 Map.empty Map.empty (dc_Publications d))
              (checkBoundaries (dc_Publications d))))"

section \<open>Names, URLs and relative paths\<close>

definition DisplayNameOr :: "publication_declaration \<Rightarrow> string \<Rightarrow> string" where
  "DisplayNameOr p defaultName = (if TrimSpace (pd_DisplayName p) \<noteq> [] then pd_DisplayName p else defaultName)"

definition CanonicalURL :: "string \<Rightarrow> string \<Rightarrow> string \<Rightarrow> string \<Rightarrow> string" where
  "CanonicalURL baseURL publicationPath entryPoint mode =
     (if mode = RoutingExactFile \<and> entryPoint \<noteq> [] then baseURL @ ''/'' @ entryPoint
      else baseURL @ ''/'' @ publicationPath)"

definition ProbeURL :: "string \<Rightarrow> string \<Rightarrow> string" where
  "ProbeURL canonicalURL probePath = (if probePath = [] then canonicalURL else canonicalURL @ ''/'' @ probePath)"

definition RelativePath :: "string \<Rightarrow> string \<Rightarrow> string" where
  "RelativePath publicationPath key =
     (if key = publicationPath then AfterLast key (CHR ''/'')
      else fst (CutPrefix key (publicationPath @ ''/'')))"

section \<open>What validation promises\<close>

definition inside :: "string \<Rightarrow> string \<Rightarrow> bool" where
  "inside path key \<longleftrightarrow> key = path \<or> prefix (path @ ''/'') key"

definition clean_segments :: "string \<Rightarrow> bool" where
  "clean_segments s \<longleftrightarrow> (\<forall>seg \<in> set (Split s (CHR ''/'')). seg \<notin> {[], ''.'', ''..''})"

definition clean_characters :: "string \<Rightarrow> bool" where
  "clean_characters s \<longleftrightarrow>
     (\<forall>r \<in> set (code_points s). \<not> IsControl r \<and> r \<noteq> 63 \<and> r \<noteq> 35) \<and>
     (\<exists>r \<in> set (code_points s). \<not> IsSpace r)"

definition valid_prefix :: "string \<Rightarrow> bool" where
  "valid_prefix s \<longleftrightarrow> s \<noteq> [] \<and> \<not> EqualFold s reservedManagerPrefix \<and> hd s \<noteq> CHR ''.'' \<and>
     CHR ''/'' \<notin> set s \<and> clean_characters s"

definition valid_path :: "string \<Rightarrow> string \<Rightarrow> bool" where
  "valid_path s path \<longleftrightarrow> path = s \<or>
     (prefix (s @ ''/'') path \<and> \<not> suffix ''/'' path \<and> clean_segments path \<and> clean_characters path)"

definition valid_object_key :: "string \<Rightarrow> string \<Rightarrow> bool" where
  "valid_object_key path key \<longleftrightarrow> key = path \<or>
     (strict_prefix (path @ ''/'') key \<and> clean_segments key \<and> clean_characters key)"

definition valid_probe :: "route_probe \<Rightarrow> bool" where
  "valid_probe r \<longleftrightarrow> 100 \<le> rp_ExpectStatus r \<and> rp_ExpectStatus r \<le> 599 \<and>
     (rp_Path r = [] \<or>
      (\<not> prefix ''/'' (rp_Path r) \<and> \<not> suffix ''/'' (rp_Path r) \<and>
       clean_segments (rp_Path r) \<and> clean_characters (rp_Path r)))"

definition valid_publication :: "publication_declaration \<Rightarrow> bool" where
  "valid_publication p \<longleftrightarrow>
     valid_prefix (prj_Prefix (pd_Project p)) \<and>
     valid_path (prj_Prefix (pd_Project p)) (pd_Path p) \<and>
     valid_mode (pd_RoutingMode p) \<and>
     (pd_RoutingMode p = RoutingExactFile \<longrightarrow> length (pd_Objects p) = 1) \<and>
     distinct (pd_Objects p) \<and> (\<forall>k \<in> set (pd_Objects p). valid_object_key (pd_Path p) k) \<and>
     pd_EntryPoint p \<in> set (pd_Objects p) \<and>
     pd_Probes p \<noteq> [] \<and> distinct (map rp_Path (pd_Probes p)) \<and> (\<forall>r \<in> set (pd_Probes p). valid_probe r)"

definition unambiguous_paths :: "publication_declaration list \<Rightarrow> bool" where
  "unambiguous_paths ps \<longleftrightarrow> distinct (map pd_Path ps) \<and>
     (\<forall>p \<in> set ps. \<forall>q \<in> set ps. \<not> prefix (pd_Path p @ ''/'') (pd_Path q))"

definition consistent_names :: "publication_declaration list \<Rightarrow> bool" where
  "consistent_names ps \<longleftrightarrow> (\<forall>p \<in> set ps. \<forall>q \<in> set ps.
     prj_Prefix (pd_Project p) = prj_Prefix (pd_Project q) \<longrightarrow>
     prj_DisplayName (pd_Project p) = prj_DisplayName (pd_Project q))"

definition valid_batch :: "batch_declaration \<Rightarrow> bool" where
  "valid_batch d \<longleftrightarrow> dc_Version d = 1 \<and> dc_Publications d \<noteq> [] \<and>
     (\<forall>p \<in> set (dc_Publications d). valid_publication p) \<and>
     distinct (concat (map pd_Objects (dc_Publications d))) \<and>
     consistent_names (dc_Publications d) \<and> unambiguous_paths (dc_Publications d)"

named_theorems validation_iff \<open>each validator accepts exactly its specification\<close>

lemma validatePathSegments_iff [validation_iff]:
  "validatePathSegments w s = None \<longleftrightarrow> clean_segments s"
  by (auto simp: clean_segments_def list_ex_iff)

declare validatePathSegments.simps [simp del]

lemma validateKeyCharacters_iff [validation_iff]:
  "validateKeyCharacters w s = None \<longleftrightarrow> clean_characters s"
  by (auto simp: validateKeyCharacters_def clean_characters_def list_ex_iff TrimSpace_empty_iff)

lemma validatePrefix_iff [validation_iff]: "validatePrefix s = None \<longleftrightarrow> valid_prefix s"
  by (cases s)
    (auto simp: validatePrefix_def valid_prefix_def validation_iff HasPrefix_def ContainsByte_def)

lemma validatePath_iff [validation_iff]: "validatePath s path = None \<longleftrightarrow> valid_path s path"
  by (simp add: validatePath_def valid_path_def validation_iff HasPrefix_def HasSuffix_def)

lemma validateObjectKey_iff [validation_iff]:
  "validateObjectKey path key = None \<longleftrightarrow> valid_object_key path key"
  by (auto simp: validateObjectKey_def valid_object_key_def validation_iff CutPrefix_def HasPrefix_def
      strict_prefix_def elim!: prefixE)

lemma probes_loop_iff [validation_iff]:
  "probes_loop seen ps = None \<longleftrightarrow>
     distinct (map rp_Path ps) \<and> set (map rp_Path ps) \<inter> set seen = {} \<and> (\<forall>r \<in> set ps. valid_probe r)"
  by (induction ps arbitrary: seen)
    (auto simp: valid_probe_def validateProbePath_def validation_iff HasPrefix_def HasSuffix_def)

lemma objects_loop_iff [validation_iff]:
  "objects_loop path seen ks = None \<longleftrightarrow>
     distinct ks \<and> set ks \<inter> set seen = {} \<and> (\<forall>k \<in> set ks. valid_object_key path k)"
  by (induction ks arbitrary: seen) (auto simp: validation_iff)

lemma Publication_Validate_iff [validation_iff]:
  "Publication_Validate p = None \<longleftrightarrow> valid_publication p"
  by (auto simp: Publication_Validate_def valid_publication_def validation_iff validateProbes_def)

lemma claim_objects_Inr:
  "claim_objects i seen ks = Inr seen' \<longleftrightarrow>
     distinct ks \<and> set ks \<inter> dom seen = {} \<and> seen' = (\<lambda>k. if k \<in> set ks then Some i else seen k)"
  by (induction ks arbitrary: seen) (auto split: option.splits)

lemma claim_objects_clash:
  "\<not> (distinct ks \<and> set ks \<inter> dom seen = {}) \<Longrightarrow> \<exists>e. claim_objects i seen ks = Inl e"
  by (cases "claim_objects i seen ks") (auto simp: claim_objects_Inr)

text \<open>What the map \<open>projectDisplayNames\<close> knows agrees with the publications still to come.\<close>

definition names_agree :: "(string \<rightharpoonup> string) \<Rightarrow> publication_declaration list \<Rightarrow> bool" where
  "names_agree names ps \<longleftrightarrow> (\<forall>p \<in> set ps. \<forall>dn.
     names (prj_Prefix (pd_Project p)) = Some dn \<longrightarrow> dn = prj_DisplayName (pd_Project p))"

definition same_name :: "string \<Rightarrow> string \<Rightarrow> publication_declaration list \<Rightarrow> bool" where
  "same_name k v ps \<longleftrightarrow>
     (\<forall>q \<in> set ps. prj_Prefix (pd_Project q) = k \<longrightarrow> prj_DisplayName (pd_Project q) = v)"

lemma functional_insert:
  "(\<forall>p \<in> insert a S. \<forall>q \<in> insert a S. f p = f q \<longrightarrow> g p = g q) \<longleftrightarrow>
     (\<forall>p \<in> S. \<forall>q \<in> S. f p = f q \<longrightarrow> g p = g q) \<and> (\<forall>q \<in> S. f q = f a \<longrightarrow> g q = g a)"
  (is "?l \<longleftrightarrow> ?r")
proof
  show "?l \<Longrightarrow> ?r" by blast
next
  assume r: ?r
  show ?l
  proof (intro ballI impI)
    fix p q
    assume "p \<in> insert a S" "q \<in> insert a S" and eq: "f p = f q"
    then consider "p = q" | "p = a" "q \<in> S" | "p \<in> S" "q = a" | "p \<in> S" "q \<in> S" by blast
    then show "g p = g q"
      using r eq by cases (blast, metis+)
  qed
qed

lemma consistent_names_Cons:
  "consistent_names (p # ps) \<longleftrightarrow> consistent_names ps \<and>
     same_name (prj_Prefix (pd_Project p)) (prj_DisplayName (pd_Project p)) ps"
  unfolding consistent_names_def same_name_def list.set(2) functional_insert ..

lemma names_agree_upd:
  "names k = None \<Longrightarrow> names_agree (names(k \<mapsto> v)) ps \<longleftrightarrow> names_agree names ps \<and> same_name k v ps"
  unfolding names_agree_def same_name_def
  by (intro iffI conjI ballI impI allI) (auto split: if_splits)

lemma names_agree_Cons:
  "names_agree names (p # ps) \<longleftrightarrow> names_agree names ps \<and>
     (\<forall>dn. names (prj_Prefix (pd_Project p)) = Some dn \<longrightarrow> dn = prj_DisplayName (pd_Project p))"
  by (auto simp: names_agree_def)

lemma names_agree_consistent:
  "names_agree names ps \<Longrightarrow> names (prj_Prefix (pd_Project p)) = Some (prj_DisplayName (pd_Project p)) \<Longrightarrow>
     consistent_names (p # ps) \<longleftrightarrow> consistent_names ps"
  unfolding consistent_names_Cons names_agree_def same_name_def by metis

lemma publications_loop_iff [validation_iff]:
  "publications_loop i seen names ps = None \<longleftrightarrow>
     (\<forall>p \<in> set ps. valid_publication p) \<and> distinct (concat (map pd_Objects ps)) \<and>
     set (concat (map pd_Objects ps)) \<inter> dom seen = {} \<and> consistent_names ps \<and> names_agree names ps"
proof (induction ps arbitrary: i seen names)
  case Nil
  then show ?case by (simp add: consistent_names_def names_agree_def)
next
  case (Cons p ps)
  let ?prj = "pd_Project p"
  show ?case
  proof (cases "distinct (pd_Objects p) \<and> set (pd_Objects p) \<inter> dom seen = {}")
    case False
    from claim_objects_clash [OF this] obtain e where "claim_objects i seen (pd_Objects p) = Inl e" ..
    then have "publications_loop i seen names (p # ps) \<noteq> None" by simp
    moreover have "\<not> (distinct (concat (map pd_Objects (p # ps))) \<and>
        set (concat (map pd_Objects (p # ps))) \<inter> dom seen = {})"
      using False by (simp only: list.map concat.simps distinct_append set_append) blast
    ultimately show ?thesis by blast
  next
    case True
    let ?seen' = "\<lambda>k. if k \<in> set (pd_Objects p) then Some i else seen k"
    have claim: "claim_objects i seen (pd_Objects p) = Inr ?seen'"
      using True by (simp add: claim_objects_Inr)
    have dom: "dom ?seen' = set (pd_Objects p) \<union> dom seen" by (auto split: if_splits)
    let ?C = "concat (map pd_Objects ps)"
    have objs: "distinct ?C \<and> set ?C \<inter> dom ?seen' = {} \<longleftrightarrow>
        distinct (concat (map pd_Objects (p # ps))) \<and> set (concat (map pd_Objects (p # ps))) \<inter> dom seen = {}"
      unfolding dom using True by (simp only: list.map concat.simps distinct_append set_append) blast
    show ?thesis
    proof (cases "names (prj_Prefix ?prj)")
      case None
      have "publications_loop i seen names (p # ps) = None \<longleftrightarrow> valid_publication p \<and>
          publications_loop (Suc i) ?seen' (names(prj_Prefix ?prj \<mapsto> prj_DisplayName ?prj)) ps = None"
        using None by (simp add: claim validation_iff Let_def)
      also have "\<dots> \<longleftrightarrow> (\<forall>q \<in> set (p # ps). valid_publication q) \<and>
          distinct (concat (map pd_Objects (p # ps))) \<and>
          set (concat (map pd_Objects (p # ps))) \<inter> dom seen = {} \<and>
          consistent_names (p # ps) \<and> names_agree names (p # ps)"
        unfolding Cons.IH consistent_names_Cons names_agree_Cons names_agree_upd [where names = names and k = "prj_Prefix (pd_Project p)", OF None]
        using objs by (simp only: None list.set ball_simps option.distinct simp_thms) blast
      finally show ?thesis .
    next
      case (Some declared)
      show ?thesis
      proof (cases "declared = prj_DisplayName ?prj")
        case True
        have "publications_loop i seen names (p # ps) = None \<longleftrightarrow>
            valid_publication p \<and> publications_loop (Suc i) ?seen' names ps = None"
          using Some True by (simp add: claim validation_iff Let_def)
        also have "\<dots> \<longleftrightarrow> (\<forall>q \<in> set (p # ps). valid_publication q) \<and>
            distinct (concat (map pd_Objects (p # ps))) \<and>
            set (concat (map pd_Objects (p # ps))) \<inter> dom seen = {} \<and>
            consistent_names (p # ps) \<and> names_agree names (p # ps)"
          unfolding Cons.IH names_agree_Cons
          using objs Some True names_agree_consistent [of names ps p]
          by (simp only: list.set ball_simps option.inject simp_thms) blast
        finally show ?thesis .
      next
        case False
        with Some show ?thesis by (auto simp: claim names_agree_def Let_def)
      qed
    qed
  qed
qed

lemma check_pair_iff [validation_iff]:
  "check_pair a b = None \<longleftrightarrow> a \<noteq> b \<and> \<not> prefix (a @ ''/'') b \<and> \<not> prefix (b @ ''/'') a"
  by (simp add: check_pair_def isSegmentPrefix_def HasPrefix_def)

lemma checkBoundaries_iff [validation_iff]: "checkBoundaries ps = None \<longleftrightarrow> unambiguous_paths ps"
proof (induction ps)
  case Nil
  then show ?case by (simp add: unambiguous_paths_def)
next
  case (Cons p ps)
  have "\<not> prefix (pd_Path p @ ''/'') (pd_Path p)" by (auto dest: prefix_length_le)
  with Cons show ?case
    by (auto simp: unambiguous_paths_def each_err_None validation_iff)
qed

lemma Declaration_Validate_iff [validation_iff]: "Declaration_Validate d = None \<longleftrightarrow> valid_batch d"
  by (auto simp: Declaration_Validate_def valid_batch_def validation_iff names_agree_def)

section \<open>What a valid batch guarantees\<close>

lemma inside_prefix_cases:
  assumes "inside a k" and "inside b k"
  shows "a = b \<or> prefix (a @ ''/'') b \<or> prefix (b @ ''/'') a"
proof -
  have "prefix a k" "prefix b k"
    using assms by (auto simp: inside_def dest: append_prefixD)
  then consider "prefix a b" | "prefix b a" by (meson prefix_same_cases)
  then show ?thesis
  proof cases
    case 1
    then obtain r where r: "b = a @ r" by (auto simp: prefix_def)
    show ?thesis
    proof (cases r)
      case (Cons c cs)
      with assms r have "prefix (a @ ''/'') (a @ c # cs) \<or> prefix (a @ ''/'') k \<and> prefix (a @ [c]) k"
        by (auto simp: inside_def prefix_def)
      then have "c = CHR ''/''" using r Cons by (auto simp: prefix_def)
      with r Cons show ?thesis by simp
    qed (use r in simp)
  next
    case 2
    then obtain r where r: "a = b @ r" by (auto simp: prefix_def)
    show ?thesis
    proof (cases r)
      case (Cons c cs)
      with assms r have "prefix (b @ ''/'') (b @ c # cs) \<or> prefix (b @ ''/'') k \<and> prefix (b @ [c]) k"
        by (auto simp: inside_def prefix_def)
      then have "c = CHR ''/''" using r Cons by (auto simp: prefix_def)
      with r Cons show ?thesis by simp
    qed (use r in simp)
  qed
qed

text \<open>A key lies inside at most one Publication of a valid batch.\<close>

lemma owner_unique:
  assumes "unambiguous_paths ps" and "p \<in> set ps" and "q \<in> set ps"
    and "inside (pd_Path p) k" and "inside (pd_Path q) k"
  shows "p = q"
proof -
  have "\<not> prefix (pd_Path p @ ''/'') (pd_Path q)" "\<not> prefix (pd_Path q @ ''/'') (pd_Path p)"
    using assms(1-3) by (auto simp: unambiguous_paths_def)
  then have "pd_Path p = pd_Path q" using inside_prefix_cases [OF assms(4,5)] by blast
  with assms(1-3) show ?thesis by (auto simp: unambiguous_paths_def distinct_map dest: inj_onD)
qed

lemma valid_object_inside: "valid_object_key path k \<Longrightarrow> inside path k"
  by (auto simp: valid_object_key_def inside_def)

lemma publication_objects_inside:
  "valid_publication p \<Longrightarrow> k \<in> set (pd_Objects p) \<Longrightarrow> inside (pd_Path p) k"
  by (auto simp: valid_publication_def valid_object_inside)

lemma entry_inside: "valid_publication p \<Longrightarrow> inside (pd_Path p) (pd_EntryPoint p)"
  by (rule publication_objects_inside) (auto simp: valid_publication_def)

lemma inside_beneath: "inside path k \<Longrightarrow> inside path (k @ ''/'' @ r)"
  by (auto simp: inside_def)

lemma CanonicalURL_inside:
  assumes "valid_publication p"
  obtains x where "inside (pd_Path p) x"
    "CanonicalURL base (pd_Path p) (pd_EntryPoint p) (pd_RoutingMode p) = base @ ''/'' @ x"
proof (cases "pd_RoutingMode p = RoutingExactFile \<and> pd_EntryPoint p \<noteq> []")
  case True
  then show ?thesis using that [OF entry_inside [OF assms]] by (simp add: CanonicalURL_def)
next
  case False
  have "inside (pd_Path p) (pd_Path p)" by (simp add: inside_def)
  with that False show ?thesis by (auto simp: CanonicalURL_def)
qed

text \<open>Every probe URL of a Publication lies under the base URL, inside the Publication.\<close>

definition probe_url :: "string \<Rightarrow> publication_declaration \<Rightarrow> route_probe \<Rightarrow> string" where
  "probe_url base p r =
     ProbeURL (CanonicalURL base (pd_Path p) (pd_EntryPoint p) (pd_RoutingMode p)) (rp_Path r)"

lemma probe_url_inside:
  assumes "valid_publication p"
  obtains x where "inside (pd_Path p) x" "probe_url base p r = base @ ''/'' @ x"
proof -
  obtain x where x: "inside (pd_Path p) x"
    "CanonicalURL base (pd_Path p) (pd_EntryPoint p) (pd_RoutingMode p) = base @ ''/'' @ x"
    using CanonicalURL_inside [OF assms] .
  show ?thesis
  proof (cases "rp_Path r = []")
    case True
    with x that show ?thesis by (simp add: probe_url_def ProbeURL_def)
  next
    case False
    with x that [OF inside_beneath [OF x(1), of "rp_Path r"]] show ?thesis
      by (simp add: probe_url_def ProbeURL_def)
  qed
qed

lemma probe_url_inj: "probe_url base p r = probe_url base p s \<longleftrightarrow> rp_Path r = rp_Path s"
  by (auto simp: probe_url_def ProbeURL_def)

lemma distinct_concat_owner:
  assumes "distinct (map g xs)" and "\<And>x. x \<in> set xs \<Longrightarrow> distinct (f x)"
    and "\<And>x y k. x \<in> set xs \<Longrightarrow> y \<in> set xs \<Longrightarrow> k \<in> set (f x) \<Longrightarrow> k \<in> set (f y) \<Longrightarrow> x = y"
  shows "distinct (concat (map f xs))"
  using assms
proof (induction xs)
  case Nil
  then show ?case by simp
next
  case (Cons x xs)
  have "x \<notin> set xs" using Cons.prems(1) by auto
  then have "set (f x) \<inter> (\<Union>y \<in> set xs. set (f y)) = {}"
  proof (intro equals0I, elim IntE UN_E)
    fix k y
    assume "k \<in> set (f x)" "y \<in> set xs" "k \<in> set (f y)"
    then have "x = y" by (intro Cons.prems(3)) auto
    with \<open>x \<notin> set xs\<close> \<open>y \<in> set xs\<close> show False by simp
  qed
  moreover have "distinct (concat (map f xs))"
    using Cons.prems by (intro Cons.IH) auto
  ultimately show ?case using Cons.prems(2) [of x] by simp
qed

text \<open>
  Boundaries alone already make the object sets disjoint: the check of \<open>seenObjects\<close> never
  rejects a batch whose publications are valid and whose boundaries are unambiguous.
\<close>

lemma objects_disjoint_of_boundaries:
  assumes "\<forall>p \<in> set ps. valid_publication p" and "unambiguous_paths ps"
  shows "distinct (concat (map pd_Objects ps))"
proof (rule distinct_concat_owner)
  show "distinct (map pd_Path ps)" using assms(2) by (simp add: unambiguous_paths_def)
next
  fix p assume "p \<in> set ps"
  with assms(1) show "distinct (pd_Objects p)" by (simp add: valid_publication_def)
next
  fix p q k
  assume "p \<in> set ps" "q \<in> set ps" "k \<in> set (pd_Objects p)" "k \<in> set (pd_Objects q)"
  with assms show "p = q" by (meson owner_unique publication_objects_inside)
qed

lemma RelativePath_inverse:
  assumes "inside path key" and "key \<noteq> path"
  shows "path @ ''/'' @ RelativePath path key = key"
proof -
  from assms obtain r where r: "key = (path @ ''/'') @ r" by (auto simp: inside_def prefix_def)
  have "RelativePath path key = r"
    using assms(2) unfolding RelativePath_def r CutPrefix_append by simp
  with r show ?thesis by simp
qed

end
