(* ===== verification/Go_Url.thy ===== *)
theory Go_Url
  imports Json
begin

text \<open>
  The part of \<open>net/url\<close> and \<open>net\<close> the program calls on configured addresses: \<open>url.Parse\<close> into scheme,
  user info, host, path, query and fragment, \<open>net.SplitHostPort\<close> and \<open>net.ParseIP\<close>, as Go 1.25
  implements them. A result is \<open>None\<close> where the library returns an error.
\<close>

section \<open>Percent encoding\<close>

definition Index :: "string \<Rightarrow> char \<Rightarrow> nat option" where
  "Index s c = (if c \<in> set s then Some (length (takeWhile (\<lambda>x. x \<noteq> c) s)) else None)"

definition LastIndex :: "string \<Rightarrow> char \<Rightarrow> nat option" where
  "LastIndex s c = (if c \<in> set s then Some (length s - length (takeWhile (\<lambda>x. x \<noteq> c) (rev s)) - 1) else None)"

text \<open>\<open>strings.Cut(s, c)\<close> on a one-byte separator: before, after, found.\<close>

definition Cut :: "string \<Rightarrow> char \<Rightarrow> string \<times> string \<times> bool" where
  "Cut s c = (case Index s c of None \<Rightarrow> (s, [], False) | Some i \<Rightarrow> (take i s, drop (Suc i) s, True))"

definition is_letter :: "char \<Rightarrow> bool" where
  "is_letter c \<longleftrightarrow> (65 \<le> byte c \<and> byte c \<le> 90) \<or> (97 \<le> byte c \<and> byte c \<le> 122)"

definition is_alnum :: "char \<Rightarrow> bool" where
  "is_alnum c \<longleftrightarrow> is_letter c \<or> is_digit c"

datatype escape_mode = EncodePath | EncodeHost | EncodeZone | EncodeUser | EncodeFragment

text \<open>\<open>shouldEscape\<close> for a host or a zone: what may not appear unescaped there.\<close>

definition host_char :: "char \<Rightarrow> bool" where
  "host_char c \<longleftrightarrow> is_alnum c \<or> c \<in> set ''!$&()*+,;=:[]<>-_.~'' \<or> byte c = 34 \<or> byte c = 39"

definition triple_pct25 :: "char \<Rightarrow> char \<Rightarrow> bool" where
  "triple_pct25 a b \<longleftrightarrow> a = CHR ''2'' \<and> b = CHR ''5''"

text \<open>\<open>unescape\<close>: \<open>+\<close> is not a space in any of these modes.\<close>

fun unescape :: "escape_mode \<Rightarrow> string \<Rightarrow> string option" where
  "unescape mode [] = Some []"
| "unescape mode (c # s) =
     (if c = CHR ''%'' then
        (case s of a # b # rest \<Rightarrow>
           (case (hex_val a, hex_val b) of
              (Some x, Some y) \<Rightarrow>
                if mode = EncodeHost \<and> x < 8 \<and> \<not> triple_pct25 a b then None
                else if mode = EncodeZone \<and> \<not> triple_pct25 a b \<and> x * 16 + y \<noteq> 32 \<and> \<not> host_char (char_of (x * 16 + y))
                then None
                else map_option ((#) (char_of (x * 16 + y))) (unescape mode rest)
            | _ \<Rightarrow> None)
         | _ \<Rightarrow> None)
      else if (mode = EncodeHost \<or> mode = EncodeZone) \<and> byte c < 128 \<and> \<not> host_char c then None
      else map_option ((#) c) (unescape mode s))"

section \<open>URLs\<close>

record go_url =
  url_Scheme :: string
  url_Opaque :: string
  url_User :: bool
  url_Host :: string
  url_Path :: string
  url_RawQuery :: string
  url_Fragment :: string

definition validOptionalPort :: "string \<Rightarrow> bool" where
  "validOptionalPort port \<longleftrightarrow> (case port of [] \<Rightarrow> True | c # ds \<Rightarrow> c = CHR '':'' \<and> list_all is_digit ds)"

text \<open>The index of \<open>%25\<close>, the start of an IPv6 zone.\<close>

fun zone_index :: "string \<Rightarrow> nat option" where
  "zone_index [] = None"
| "zone_index (c # s) = (if prefix ''%25'' (c # s) then Some 0 else map_option Suc (zone_index s))"

definition parseHost :: "string \<Rightarrow> string option" where
  "parseHost host =
     (if prefix ''['' host then
        (case LastIndex host (CHR '']'') of
           None \<Rightarrow> None
         | Some i \<Rightarrow>
             if \<not> validOptionalPort (drop (Suc i) host) then None
             else (case zone_index (take i host) of
                 Some z \<Rightarrow>
                   (case (unescape EncodeHost (take z host), unescape EncodeZone (drop z (take i host)),
                          unescape EncodeHost (drop i host)) of
                      (Some a, Some b, Some c) \<Rightarrow> Some (a @ b @ c) | _ \<Rightarrow> None)
               | None \<Rightarrow> unescape EncodeHost host))
      else (case LastIndex host (CHR '':'') of
           Some i \<Rightarrow> if validOptionalPort (drop i host) then unescape EncodeHost host else None
         | None \<Rightarrow> unescape EncodeHost host))"

definition validUserinfo :: "string \<Rightarrow> bool" where
  "validUserinfo s \<longleftrightarrow> list_all (\<lambda>c. is_alnum c \<or> c \<in> set ''-._:~!$&()*+,;=%@'' \<or> byte c = 39) s"

text \<open>User info present, and the host.\<close>

definition parseAuthority :: "string \<Rightarrow> (bool \<times> string) option" where
  "parseAuthority authority =
     (case LastIndex authority (CHR ''@'') of
        None \<Rightarrow> map_option (Pair False) (parseHost authority)
      | Some i \<Rightarrow>
          Option.bind (parseHost (drop (Suc i) authority)) (\<lambda>host.
          let userinfo = take i authority; (user, password, found) = Cut userinfo (CHR '':'') in
          if validUserinfo userinfo \<and> unescape EncodeUser user \<noteq> None \<and> unescape EncodeUser password \<noteq> None
          then Some (True, host) else None))"

text \<open>\<open>getScheme\<close>: the scheme and the rest; \<open>None\<close> for a missing scheme before a colon.\<close>

fun scheme_length :: "nat \<Rightarrow> string \<Rightarrow> nat option option" where
  "scheme_length i [] = Some None"
| "scheme_length i (c # s) =
     (if is_letter c then scheme_length (Suc i) s
      else if is_digit c \<or> c \<in> set ''+-.'' then (if i = 0 then Some None else scheme_length (Suc i) s)
      else if c = CHR '':'' then (if i = 0 then None else Some (Some i))
      else Some None)"

definition lower_char :: "char \<Rightarrow> char" where
  "lower_char c = char_of (lower_byte (byte c))"

definition getScheme :: "string \<Rightarrow> (string \<times> string) option" where
  "getScheme raw = (case scheme_length 0 raw of
       None \<Rightarrow> None
     | Some None \<Rightarrow> Some ([], raw)
     | Some (Some i) \<Rightarrow> Some (map lower_char (take i raw), drop (Suc i) raw))"

definition split_query :: "string \<Rightarrow> string \<times> string" where
  "split_query rest =
     (if suffix ''?'' rest \<and> length (filter (\<lambda>c. c = CHR ''?'') rest) = 1 then (butlast rest, [])
      else (case Cut rest (CHR ''?'') of (r, q, _) \<Rightarrow> (r, q)))"

definition first_segment_colon :: "string \<Rightarrow> bool" where
  "first_segment_colon rest \<longleftrightarrow> CHR '':'' \<in> set (takeWhile (\<lambda>c. c \<noteq> CHR ''/'') rest)"

definition is_ctl :: "char \<Rightarrow> bool" where
  "is_ctl c \<longleftrightarrow> byte c < 32 \<or> byte c = 127"

text \<open>\<open>parse(rawURL, viaRequest = false)\<close>, without the fragment.\<close>

definition parse_reference :: "string \<Rightarrow> go_url option" where
  "parse_reference raw =
     (if list_ex is_ctl raw then None
      else if raw = ''*'' then Some \<lparr>url_Scheme = [], url_Opaque = [], url_User = False, url_Host = [],
        url_Path = ''*'', url_RawQuery = [], url_Fragment = []\<rparr>
      else Option.bind (getScheme raw) (\<lambda>(scheme, rest).
      let (rest, query) = split_query rest in
      if \<not> prefix ''/'' rest \<and> scheme \<noteq> []
      then Some \<lparr>url_Scheme = scheme, url_Opaque = rest, url_User = False, url_Host = [], url_Path = [],
                 url_RawQuery = query, url_Fragment = []\<rparr>
      else if \<not> prefix ''/'' rest \<and> first_segment_colon rest then None
      else let authority_form = (scheme \<noteq> [] \<or> \<not> prefix ''///'' rest) \<and> prefix ''//'' rest;
               authority = (if authority_form then takeWhile (\<lambda>c. c \<noteq> CHR ''/'') (drop 2 rest) else []);
               path = (if authority_form then drop (length authority) (drop 2 rest) else rest)
           in Option.bind (if authority_form then parseAuthority authority else Some (False, [])) (\<lambda>(user, host).
              map_option (\<lambda>p. \<lparr>url_Scheme = scheme, url_Opaque = [], url_User = user, url_Host = host,
                 url_Path = p, url_RawQuery = query, url_Fragment = []\<rparr>) (unescape EncodePath path))))"

definition url_Parse :: "string \<Rightarrow> go_url option" where
  "url_Parse raw =
     (let (u, frag, _) = Cut raw (CHR ''#'') in
      Option.bind (parse_reference u) (\<lambda>url.
        if frag = [] then Some url
        else map_option (\<lambda>f. url\<lparr>url_Fragment := f\<rparr>) (unescape EncodeFragment frag)))"

definition IsAbs :: "go_url \<Rightarrow> bool" where
  "IsAbs u \<longleftrightarrow> url_Scheme u \<noteq> []"

section \<open>Host and port\<close>

definition LastColon :: "string \<Rightarrow> nat option" where
  "LastColon s = LastIndex s (CHR '':'')"

text \<open>\<open>net.SplitHostPort\<close>.\<close>

definition SplitHostPort :: "string \<Rightarrow> (string \<times> string) option" where
  "SplitHostPort hostport =
     (case LastColon hostport of
        None \<Rightarrow> None
      | Some i \<Rightarrow>
          if prefix ''['' hostport then
            (case Index hostport (CHR '']'') of
               None \<Rightarrow> None
             | Some e \<Rightarrow>
                 if Suc e = length hostport \<or> Suc e \<noteq> i then None
                 else if CHR ''['' \<in> set (drop 1 hostport) \<or> CHR '']'' \<in> set (drop (Suc e) hostport) then None
                 else Some (take (e - 1) (drop 1 hostport), drop (Suc i) hostport))
          else if CHR '':'' \<in> set (take i hostport) then None
          else if CHR ''['' \<in> set hostport \<or> CHR '']'' \<in> set hostport then None
          else Some (take i hostport, drop (Suc i) hostport))"

section \<open>IP addresses\<close>

text \<open>\<open>parseIPv4Fields\<close>: the fields read so far, the value and the digits of the current one.\<close>

fun ipv4_fields :: "nat list \<Rightarrow> nat \<Rightarrow> nat \<Rightarrow> string \<Rightarrow> nat list option" where
  "ipv4_fields fs val len [] = (if length fs < 3 \<or> len = 0 then None else Some (fs @ [val]))"
| "ipv4_fields fs val len (c # s) =
     (if is_digit c then
        (if len = 1 \<and> val = 0 then None
         else let v = val * 10 + digit_val c in if 255 < v then None else ipv4_fields fs v (Suc len) s)
      else if c = CHR ''.'' then
        (if len = 0 \<or> s = [] \<or> length fs = 3 then None else ipv4_fields (fs @ [val]) 0 0 s)
      else None)"

definition hex_number :: "string \<Rightarrow> nat" where
  "hex_number s = foldl (\<lambda>n c. n * 16 + the (hex_val c)) 0 s"

text \<open>
  The loop of \<open>parseIPv6\<close> on 16-bit fields: the fields read so far, the position of the ellipsis, and
  the bytes that are left. The fuel is the length of the text, which every step shortens.
\<close>

fun ipv6_loop :: "nat \<Rightarrow> nat list \<Rightarrow> nat option \<Rightarrow> string \<Rightarrow> (nat list \<times> nat option \<times> string) option" where
  "ipv6_loop 0 fs el s = None"
| "ipv6_loop (Suc n) fs el s =
     (if 8 \<le> length fs then Some (fs, el, s)
      else let ds = takeWhile (\<lambda>c. hex_val c \<noteq> None) s; rest = drop (length ds) s in
      if 4 < length ds \<or> ds = [] then None
      else if prefix ''.'' rest then
        (if (el = None \<and> length fs \<noteq> 6) \<or> 6 < length fs then None
         else (case ipv4_fields [] 0 0 s of
             Some [a, b, c, d] \<Rightarrow> Some (fs @ [a * 256 + b, c * 256 + d], el, [])
           | _ \<Rightarrow> None))
      else let fs = fs @ [hex_number ds] in
        (case rest of
           [] \<Rightarrow> Some (fs, el, [])
         | c # s1 \<Rightarrow>
             if c \<noteq> CHR '':'' \<or> s1 = [] then None
             else if hd s1 = CHR '':'' then
               (if el \<noteq> None then None
                else if tl s1 = [] then Some (fs, Some (length fs), [])
                else ipv6_loop n fs (Some (length fs)) (tl s1))
             else ipv6_loop n fs el s1))"

definition parseIPv6 :: "string \<Rightarrow> nat list option" where
  "parseIPv6 s =
     (let lead = prefix ''::'' s; s1 = (if lead then drop 2 s else s); el = (if lead then Some 0 else None) in
      if lead \<and> s1 = [] then Some (replicate 8 0)
      else (case ipv6_loop (Suc (length s)) [] el s1 of
          None \<Rightarrow> None
        | Some (fs, el, rest) \<Rightarrow>
            if rest \<noteq> [] then None
            else (case el of
                None \<Rightarrow> if length fs = 8 then Some fs else None
              | Some k \<Rightarrow> if length fs = 8 then None
                  else Some (take k fs @ replicate (8 - length fs) 0 @ drop k fs))))"

datatype ip = IPv4 "nat list" | IPv6 "nat list"

text \<open>\<open>net.ParseIP\<close>: the first of \<open>.\<close>, \<open>:\<close> and \<open>%\<close> decides; a zone is refused.\<close>

definition ParseIP :: "string \<Rightarrow> ip option" where
  "ParseIP s = (case dropWhile (\<lambda>c. c \<notin> set ''.:%'') s of
       [] \<Rightarrow> None
     | c # _ \<Rightarrow>
         if c = CHR ''.'' then map_option IPv4 (ipv4_fields [] 0 0 s)
         else if c = CHR '':'' \<and> CHR ''%'' \<notin> set s then map_option IPv6 (parseIPv6 s) else None)"

text \<open>\<open>IP.IsLoopback\<close>: 127.0.0.0/8, also IPv4-mapped, and ::1.\<close>

fun IsLoopback :: "ip \<Rightarrow> bool" where
  "IsLoopback (IPv4 fs) \<longleftrightarrow> fs ! 0 = 127"
| "IsLoopback (IPv6 fs) \<longleftrightarrow>
     (take 6 fs = [0, 0, 0, 0, 0, 65535] \<and> fs ! 6 div 256 = 127) \<or> fs = [0, 0, 0, 0, 0, 0, 0, 1]"

lemma zero_fields:
  "replicate 7 (0 :: nat) = [0, 0, 0, 0, 0, 0, 0]" "replicate 6 (0 :: nat) = [0, 0, 0, 0, 0, 0]"
  "replicate 5 (0 :: nat) = [0, 0, 0, 0, 0]"
  by (simp_all add: numeral_eq_Suc)

text \<open>The loopback addresses written out, and a look-alike.\<close>

lemma loopback_examples:
  "map_option IsLoopback (ParseIP ''127.0.0.1'') = Some True"
  "map_option IsLoopback (ParseIP ''::1'') = Some True"
  "map_option IsLoopback (ParseIP ''::ffff:127.0.0.1'') = Some True"
  "map_option IsLoopback (ParseIP ''128.0.0.1'') = Some False"
  "ParseIP ''127.0.0.01'' = None" "ParseIP ''127.1'' = None" "ParseIP ''1::2::3'' = None"
  by (simp_all add: ParseIP_def parseIPv6_def is_digit_def digit_val_def byte_def hex_val_def hex_number_def Let_def zero_fields)

end
