(* ===== verification/Config.thy ===== *)
theory Config
  imports Go_Url Storage
begin

text \<open>
  \<open>internal/config/config.go\<close>: the runtime settings and what is refused before the manager starts. The
  process environment is a function from names to values, empty when unset, as \<open>os.Getenv\<close> reads it.
  A configuration that loads keeps the authentication boundary: an assertion value unless the
  development bypass is on, and the bypass on loopback listeners only.
\<close>

section \<open>The public base URL\<close>

definition NormalizePublicBaseURL :: "string \<Rightarrow> string res" where
  "NormalizePublicBaseURL raw =
     (let trimmed = TrimSuffix (TrimSpace raw) ''/'' in
      if trimmed = [] then Inl (Errorf ''a public base URL is required to record canonical URLs and run public-route probes'' [])
      else (case url_Parse trimmed of
          None \<Rightarrow> Inl (Errorf ''public base URL %q must be an absolute http(s) origin'' [raw])
        | Some parsed \<Rightarrow>
            if \<not> IsAbs parsed \<or> (url_Scheme parsed \<noteq> ''http'' \<and> url_Scheme parsed \<noteq> ''https'') \<or> url_Host parsed = []
            then Inl (Errorf ''public base URL %q must be an absolute http(s) origin'' [raw])
            else if url_RawQuery parsed \<noteq> [] \<or> url_Fragment parsed \<noteq> [] \<or> url_User parsed
            then Inl (Errorf ''public base URL %q must not contain a query, fragment, or userinfo'' [raw])
            else Inr trimmed))"

section \<open>Settings\<close>

type_synonym environ = "string \<Rightarrow> string"

record storage_config =
  sc_Endpoint :: string
  sc_Region :: string
  sc_Bucket :: string
  sc_AccessKeyID :: string
  sc_SecretAccessKey :: string
  sc_SessionToken :: string

record config =
  cf_ListenAddr :: string
  cf_Version :: string
  cf_AuthAssertionHeader :: string
  cf_AuthAssertionValue :: string
  cf_AuthLoginURL :: string
  cf_DevAuthBypass :: bool
  cf_CatalogPath :: string
  cf_PublicBaseURL :: string
  cf_StorageQuotaBytes :: int64
  cf_Storage :: storage_config

definition DefaultListenAddr :: string where "DefaultListenAddr = ''127.0.0.1:8080''"
definition DefaultAssertionHeader :: string where "DefaultAssertionHeader = ''X-Page-Hub-Assertion''"
definition DefaultStorageRegion :: string where "DefaultStorageRegion = ''us-east-1''"

definition envOr :: "environ \<Rightarrow> string \<Rightarrow> string \<Rightarrow> string" where
  "envOr env name fallback = (if env name \<noteq> [] then env name else fallback)"

text \<open>\<open>strconv.ParseInt(raw, 10, 64)\<close>: an optional sign, decimal digits, in range.\<close>

definition ParseInt64 :: "string \<Rightarrow> int64 option" where
  "ParseInt64 raw =
     (let neg = prefix ''-'' raw; ds = (if prefix ''-'' raw \<or> prefix ''+'' raw then drop 1 raw else raw);
          n = (if neg then - digits_val ds else digits_val ds) in
      if ds = [] \<or> \<not> list_all is_digit ds then None
      else if - 9223372036854775808 \<le> n \<and> n < 9223372036854775808 then Some (word_of_int n) else None)"

definition envInt64 :: "environ \<Rightarrow> string \<Rightarrow> int64 res" where
  "envInt64 env name =
     (let raw = env name in
      if raw = [] then Inl (Errorf ''%s is required and must be a positive integer number of bytes'' [name])
      else (case ParseInt64 raw of
          None \<Rightarrow> Inl (Errorf ''%s must be a positive integer number of bytes, got %q'' [name, raw])
        | Some n \<Rightarrow> if sint n \<le> 0 then Inl (Errorf ''%s must be a positive integer number of bytes, got %q'' [name, raw])
            else Inr n))"

definition ParseBool :: "string \<Rightarrow> bool option" where
  "ParseBool s =
     (if s \<in> {''1'', ''t'', ''T'', ''TRUE'', ''true'', ''True''} then Some True
      else if s \<in> {''0'', ''f'', ''F'', ''FALSE'', ''false'', ''False''} then Some False else None)"

definition envBool :: "environ \<Rightarrow> string \<Rightarrow> bool \<Rightarrow> bool res" where
  "envBool env name fallback =
     (if env name = [] then Inr fallback
      else (case ParseBool (env name) of
          None \<Rightarrow> Inl (Errorf ''%s must be true or false: %w'' [name]) | Some b \<Rightarrow> Inr b))"

definition validHeaderName :: "string \<Rightarrow> bool" where
  "validHeaderName name \<longleftrightarrow> name \<noteq> [] \<and>
     list_all (\<lambda>c. (97 \<le> c \<and> c \<le> 122) \<or> (65 \<le> c \<and> c \<le> 90) \<or> (48 \<le> c \<and> c \<le> 57) \<or>
       c \<in> {33, 35, 36, 37, 38, 39, 42, 43, 45, 46, 94, 95, 96, 124, 126}) (code_points name)"

text \<open>\<open>strings.Trim(host, "[]")\<close>.\<close>

definition trim_brackets :: "string \<Rightarrow> string" where
  "trim_brackets s = (let b = (\<lambda>c. c = CHR ''['' \<or> c = CHR '']'') in rev (dropWhile b (rev (dropWhile b s))))"

definition IsLoopbackListener :: "string \<Rightarrow> bool" where
  "IsLoopbackListener address =
     (if HasPrefix address ''unix:'' then TrimPrefix address ''unix:'' \<noteq> []
      else (case SplitHostPort address of
          None \<Rightarrow> False
        | Some (host, port) \<Rightarrow>
            if host = ''localhost'' then True
            else if host = [] then False
            else (case ParseIP (trim_brackets host) of None \<Rightarrow> False | Some a \<Rightarrow> IsLoopback a)))"

text \<open>The login URL rule: an absolute http(s) URL with a host, or a path on this origin.\<close>

definition valid_login_url :: "string \<Rightarrow> bool" where
  "valid_login_url s =
     (case url_Parse s of
        None \<Rightarrow> False
      | Some parsed \<Rightarrow>
          ((IsAbs parsed \<and> (url_Scheme parsed = ''http'' \<or> url_Scheme parsed = ''https'') \<and> url_Host parsed \<noteq> []) \<or>
           (\<not> IsAbs parsed \<and> HasPrefix s ''/'' \<and> \<not> HasPrefix s ''//'')) \<and>
          \<not> ContainsAny s [CHR 0x0D, CHR 0x0A])"

definition Config_Validate :: "config \<Rightarrow> error option" where
  "Config_Validate c =
     and_then (fail_if (TrimSpace (cf_ListenAddr c) = []) (Errorf ''PAGE_HUB_LISTEN_ADDR must not be empty'' []))
    (and_then (fail_if (TrimSpace (cf_CatalogPath c) = [])
        (Errorf ''PAGE_HUB_CATALOG_PATH is required; point it at the private SQLite catalog'' []))
    (and_then (fail_if (sint (cf_StorageQuotaBytes c) \<le> 0) (Errorf ''PAGE_HUB_STORAGE_QUOTA_BYTES is required'' []))
    (and_then (case NormalizePublicBaseURL (cf_PublicBaseURL c) of
        Inl e \<Rightarrow> Some (Wrapf ''PAGE_HUB_PUBLIC_BASE_URL is required for canonical public URLs and authenticated previews: %w'' [] e)
      | Inr _ \<Rightarrow> None)
    (and_then (fail_if (\<not> validHeaderName (cf_AuthAssertionHeader c))
        (Errorf ''invalid authentication assertion header %q'' [cf_AuthAssertionHeader c]))
    (and_then (fail_if (\<not> cf_DevAuthBypass c \<and> cf_AuthAssertionValue c = [])
        (Errorf ''PAGE_HUB_AUTH_ASSERTION_VALUE is required unless development authentication bypass is enabled'' []))
    (and_then (fail_if (cf_DevAuthBypass c \<and> \<not> IsLoopbackListener (cf_ListenAddr c))
        (Errorf ''development authentication bypass requires a loopback listener, got %q'' [cf_ListenAddr c]))
      (fail_if (cf_AuthLoginURL c \<noteq> [] \<and> \<not> valid_login_url (cf_AuthLoginURL c))
        (Errorf ''invalid authentication login URL'' []))))))))"

definition StorageFromEnv :: "environ \<Rightarrow> storage_config" where
  "StorageFromEnv env =
     \<lparr>sc_Endpoint = env ''PAGE_HUB_S3_ENDPOINT'',
      sc_Region = envOr env ''PAGE_HUB_S3_REGION'' DefaultStorageRegion,
      sc_Bucket = env ''PAGE_HUB_S3_BUCKET'',
      sc_AccessKeyID = env ''PAGE_HUB_S3_ACCESS_KEY_ID'',
      sc_SecretAccessKey = env ''PAGE_HUB_S3_SECRET_ACCESS_KEY'',
      sc_SessionToken = env ''PAGE_HUB_S3_SESSION_TOKEN''\<rparr>"

definition PublicBaseURLFromEnv :: "environ \<Rightarrow> string res" where
  "PublicBaseURLFromEnv env =
     wrap_res ''PAGE_HUB_PUBLIC_BASE_URL is required for plan and commit, such as https://share.bdgn.me: %w'' []
       (NormalizePublicBaseURL (env ''PAGE_HUB_PUBLIC_BASE_URL''))"

definition Config_Load :: "environ \<Rightarrow> config res" where
  "Config_Load env =
     bind_res (envBool env ''PAGE_HUB_DEV_AUTH_BYPASS'' False) (\<lambda>devBypass.
     bind_res (envInt64 env ''PAGE_HUB_STORAGE_QUOTA_BYTES'') (\<lambda>quota.
     bind_res (wrap_res ''PAGE_HUB_PUBLIC_BASE_URL is required, such as https://share.bdgn.me: %w'' []
         (NormalizePublicBaseURL (env ''PAGE_HUB_PUBLIC_BASE_URL''))) (\<lambda>publicBaseURL.
     let cfg = \<lparr>cf_ListenAddr = envOr env ''PAGE_HUB_LISTEN_ADDR'' DefaultListenAddr,
        cf_Version = envOr env ''PAGE_HUB_VERSION'' ''dev'',
        cf_AuthAssertionHeader = envOr env ''PAGE_HUB_AUTH_ASSERTION_HEADER'' DefaultAssertionHeader,
        cf_AuthAssertionValue = env ''PAGE_HUB_AUTH_ASSERTION_VALUE'',
        cf_AuthLoginURL = env ''PAGE_HUB_AUTH_LOGIN_URL'',
        cf_DevAuthBypass = devBypass,
        cf_CatalogPath = env ''PAGE_HUB_CATALOG_PATH'',
        cf_PublicBaseURL = publicBaseURL,
        cf_StorageQuotaBytes = quota,
        cf_Storage = StorageFromEnv env\<rparr>
     in require (Config_Validate cfg) (Inr cfg))))"

section \<open>What a loaded configuration guarantees\<close>

definition boundary_safe :: "config \<Rightarrow> bool" where
  "boundary_safe c \<longleftrightarrow>
     (cf_DevAuthBypass c \<longrightarrow> IsLoopbackListener (cf_ListenAddr c)) \<and>
     (\<not> cf_DevAuthBypass c \<longrightarrow> cf_AuthAssertionValue c \<noteq> []) \<and>
     validHeaderName (cf_AuthAssertionHeader c) \<and> 0 < sint (cf_StorageQuotaBytes c)"

lemma Config_Validate_None:
  "Config_Validate c = None \<Longrightarrow> boundary_safe c"
  by (auto simp: Config_Validate_def boundary_safe_def)

lemma Config_Load_safe: "Config_Load env = Inr c \<Longrightarrow> boundary_safe c \<and> Config_Validate c = None"
  by (auto simp: Config_Load_def Let_def res_iff Config_Validate_None)

lemma Normalize_Inr:
  assumes "NormalizePublicBaseURL raw = Inr s"
  obtains u where "url_Parse s = Some u" "url_Host u \<noteq> []" "url_Scheme u \<in> {''http'', ''https''}"
    "url_RawQuery u = []" "url_Fragment u = []" "\<not> url_User u" "s = TrimSuffix (TrimSpace raw) ''/''"
  using assms by (auto simp: NormalizePublicBaseURL_def Let_def split: option.splits if_splits)

end
