(* ===== verification/Plan.thy ===== *)
theory Plan
  imports Declaration Config Json_Struct Sha256
begin

text \<open>
  \<open>internal/adoption/plan.go\<close> and \<open>probe.go\<close>: planning. \<open>BuildPlan\<close> reads the declared objects, probes the
  declared public routes and returns the content the operator approves with its digest; \<open>Probe\<close> is the
  bounded HTTP probe. The digest is SHA-256 over the JSON of the content. A plan that is built covers the
  bucket: every listed key is declared and every declared key is listed, read and recorded, and every
  probe answered with its expected status.
\<close>

section \<open>Plans\<close>

record planned_object =
  plo_Key :: string
  plo_RelativePath :: string
  plo_Size :: int64
  plo_ETag :: string
  plo_ModifiedAt :: string
  plo_ContentType :: string
  plo_ContentEncoding :: string
  plo_CacheControl :: string
  plo_UserMetadata :: str_map
  plo_SHA256 :: string

record planned_probe =
  plp_Path :: string
  plp_URL :: string
  plp_ExpectStatus :: int
  plp_ObservedStatus :: int
  plp_ContentType :: string
  plp_BodySHA256 :: string

record planned_publication =
  plb_Project :: project_declaration
  plb_Path :: string
  plb_DisplayName :: string
  plb_EntryPoint :: string
  plb_RoutingMode :: string
  plb_CanonicalURL :: string
  plb_ContentChangedAt :: string
  plb_Objects :: "planned_object list"
  plb_Probes :: "planned_probe list"

record plan_content =
  pc_Version :: int
  pc_PublicBaseURL :: string
  pc_Declaration :: batch_declaration
  pc_Publications :: "planned_publication list"

record plan =
  plan_Content :: plan_content
  plan_Digest :: string

section \<open>The route prober\<close>

record probe_observation =
  pbo_Status :: int
  pbo_ContentType :: string
  pbo_BodySHA256 :: string

type_synonym prober = "string \<Rightarrow> probe_observation res"

text \<open>
  What the HTTP client answers to a GET: a transport failure, or a response whose body delivers some
  bytes and may then fail.
\<close>

record http_response =
  hr_StatusCode :: int
  hr_ContentType :: string
  hr_Body :: string
  hr_BodyError :: "error option"

definition maxProbeBodyBytes :: nat where
  "maxProbeBodyBytes = 33554432"

definition HTTPRouteProber_Probe :: "(string \<Rightarrow> http_response res) \<Rightarrow> prober" where
  "HTTPRouteProber_Probe do publicURL =
     (if url_Parse publicURL = None then Inl (Errorf ''build probe request for %s: %w'' [publicURL])
      else bind_res (wrap_res ''probe %s: %w'' [publicURL] (do publicURL)) (\<lambda>response.
      let read = take (Suc maxProbeBodyBytes) (hr_Body response) in
      case (if length read = Suc maxProbeBodyBytes then None else hr_BodyError response) of
        Some err \<Rightarrow> Inl (Wrapf ''read probe response from %s: %w'' [publicURL] err)
      | None \<Rightarrow>
          if maxProbeBodyBytes < length read
          then Inl (Errorf ''probe %s: response exceeds %d bytes'' [publicURL])
          else Inr \<lparr>pbo_Status = hr_StatusCode response, pbo_ContentType = TrimSpace (hr_ContentType response),
                    pbo_BodySHA256 = ''sha256:'' @ sha256_hex read\<rparr>))"

section \<open>The JSON of a plan\<close>

definition json_of_project :: "project_declaration \<Rightarrow> json" where
  "json_of_project p = JObj ((''prefix'', JStr (prj_Prefix p)) # omit_empty ''displayName'' (prj_DisplayName p))"

definition json_of_route_probe :: "route_probe \<Rightarrow> json" where
  "json_of_route_probe r = JObj [(''path'', JStr (rp_Path r)), (''expectStatus'', JNum (rp_ExpectStatus r))]"

definition json_of_publication :: "publication_declaration \<Rightarrow> json" where
  "json_of_publication p = JObj
     ([(''project'', json_of_project (pd_Project p)), (''path'', JStr (pd_Path p))] @
      omit_empty ''displayName'' (pd_DisplayName p) @
      [(''entryPoint'', JStr (pd_EntryPoint p)), (''routingMode'', JStr (pd_RoutingMode p)),
       (''objects'', json_slice JStr (pd_Objects p)), (''probes'', json_slice json_of_route_probe (pd_Probes p))])"

definition json_of_declaration :: "batch_declaration \<Rightarrow> json" where
  "json_of_declaration d = JObj
     [(''version'', JNum (dc_Version d)), (''publications'', json_slice json_of_publication (dc_Publications d))]"

definition json_of_planned_object :: "planned_object \<Rightarrow> json" where
  "json_of_planned_object r = JObj
     [(''key'', JStr (plo_Key r)), (''relativePath'', JStr (plo_RelativePath r)), (''size'', json_int64 (plo_Size r)),
      (''etag'', JStr (plo_ETag r)), (''modifiedAt'', JStr (plo_ModifiedAt r)),
      (''contentType'', JStr (plo_ContentType r)), (''contentEncoding'', JStr (plo_ContentEncoding r)),
      (''cacheControl'', JStr (plo_CacheControl r)), (''userMetadata'', json_of_map (plo_UserMetadata r)),
      (''sha256'', JStr (plo_SHA256 r))]"

definition json_of_planned_probe :: "planned_probe \<Rightarrow> json" where
  "json_of_planned_probe r = JObj
     [(''path'', JStr (plp_Path r)), (''url'', JStr (plp_URL r)), (''expectStatus'', JNum (plp_ExpectStatus r)),
      (''observedStatus'', JNum (plp_ObservedStatus r)), (''contentType'', JStr (plp_ContentType r)),
      (''bodySha256'', JStr (plp_BodySHA256 r))]"

definition json_of_planned :: "planned_publication \<Rightarrow> json" where
  "json_of_planned p = JObj
     [(''project'', json_of_project (plb_Project p)), (''path'', JStr (plb_Path p)),
      (''displayName'', JStr (plb_DisplayName p)), (''entryPoint'', JStr (plb_EntryPoint p)),
      (''routingMode'', JStr (plb_RoutingMode p)), (''canonicalUrl'', JStr (plb_CanonicalURL p)),
      (''contentChangedAt'', JStr (plb_ContentChangedAt p)),
      (''objects'', json_slice json_of_planned_object (plb_Objects p)),
      (''probes'', json_slice json_of_planned_probe (plb_Probes p))]"

definition json_of_content :: "plan_content \<Rightarrow> json" where
  "json_of_content c = JObj
     [(''version'', JNum (pc_Version c)), (''publicBaseURL'', JStr (pc_PublicBaseURL c)),
      (''declaration'', json_of_declaration (pc_Declaration c)),
      (''publications'', json_slice json_of_planned (pc_Publications c))]"

definition Digest :: "plan_content \<Rightarrow> string" where
  "Digest content = ''sha256:'' @ sha256_hex (Marshal (json_of_content content))"

definition Plan_Verify :: "plan \<Rightarrow> error option" where
  "Plan_Verify p =
     (let digest = Digest (plan_Content p) in
      fail_if (digest \<noteq> plan_Digest p)
        (Errorf ''plan digest %s does not match its content (%s)'' [plan_Digest p, digest]))"

section \<open>Planning\<close>

definition metadataOrEmpty :: "str_map \<Rightarrow> str_map" where
  "metadataOrEmpty m = (case m of None \<Rightarrow> Some [] | Some es \<Rightarrow> Some es)"

definition defaultDisplayName :: "publication_declaration \<Rightarrow> string" where
  "defaultDisplayName p =
     (if pd_Path p = prj_Prefix (pd_Project p) then prj_Prefix (pd_Project p)
      else AfterLast (pd_Path p) (CHR ''/''))"

definition sortObjects :: "planned_object list \<Rightarrow> planned_object list" where
  "sortObjects = sort_key plo_Key"

definition sortProbes :: "planned_probe list \<Rightarrow> planned_probe list" where
  "sortProbes = sort_key plp_Path"

definition checkNoUnexpectedObjects :: "object_listing list \<Rightarrow> batch_declaration \<Rightarrow> error option" where
  "checkNoUnexpectedObjects listing d =
     (let declared = concat (map pd_Objects (dc_Publications d));
          unexpected = sort (remdups (filter (\<lambda>k. k \<notin> set declared) (map ol_Key listing)));
          shown = (if 5 < length unexpected then take 5 unexpected else unexpected) in
      fail_if (unexpected \<noteq> [])
        (Errorf ''storage holds %d unexpected object(s) outside the declaration, including %s; a changed layout stops planning''
           (Itoa (int (length unexpected)) # shown)))"

definition planned_object_of :: "string \<Rightarrow> string \<Rightarrow> object_content \<Rightarrow> time \<Rightarrow> planned_object" where
  "planned_object_of path key content modified =
     \<lparr>plo_Key = key, plo_RelativePath = RelativePath path key, plo_Size = oc_Size content,
      plo_ETag = oc_ETag content, plo_ModifiedAt = FormatRFC3339 modified,
      plo_ContentType = oc_ContentType content, plo_ContentEncoding = oc_ContentEncoding content,
      plo_CacheControl = oc_CacheControl content,
      plo_UserMetadata = metadataOrEmpty (oc_UserMetadata content), plo_SHA256 = oc_SHA256 content\<rparr>"

text \<open>The time of an object: what the read reports, else what the listing reported.\<close>

definition modified_of :: "object_listing \<Rightarrow> object_content \<Rightarrow> time" where
  "modified_of listed content =
     (if IsZero (oc_LastModified content) then ol_LastModified listed else oc_LastModified content)"

text \<open>The first loop of \<open>planPublication\<close>, with the newest time seen.\<close>

fun plan_objects ::
    "reader \<Rightarrow> (string \<Rightarrow> object_listing option) \<Rightarrow> string \<Rightarrow> time \<Rightarrow> string list \<Rightarrow> (planned_object list \<times> time) res" where
  "plan_objects rd observed path newest [] = Inr ([], newest)"
| "plan_objects rd observed path newest (key # keys) =
     (case observed key of
        None \<Rightarrow> Inl (Errorf ''declared object %q does not exist in storage'' [key])
      | Some listed \<Rightarrow>
          bind_res (wrap_res ''read declared object %q: %w'' [key] (ReadObject rd key)) (\<lambda>content.
          let modified = modified_of listed content in
          bind_res (plan_objects rd observed path (if After modified newest then modified else newest) keys)
            (\<lambda>(obs, newest). Inr (planned_object_of path key content modified # obs, newest))))"

text \<open>One iteration of the second loop.\<close>

definition plan_probe :: "prober \<Rightarrow> string \<Rightarrow> string \<Rightarrow> route_probe \<Rightarrow> planned_probe res" where
  "plan_probe probe path canonical r =
     (let probeURL = ProbeURL canonical (rp_Path r) in
      bind_res (wrap_res ''public route probe failed for %q: %w'' [path] (probe probeURL)) (\<lambda>observation.
      if pbo_Status observation \<noteq> rp_ExpectStatus r
      then Inl (Errorf ''public route probe %s returned %d, expected %d; adoption would not preserve the declared behavior''
             [probeURL, Itoa (pbo_Status observation), Itoa (rp_ExpectStatus r)])
      else Inr \<lparr>plp_Path = rp_Path r, plp_URL = probeURL, plp_ExpectStatus = rp_ExpectStatus r,
                plp_ObservedStatus = pbo_Status observation, plp_ContentType = pbo_ContentType observation,
                plp_BodySHA256 = pbo_BodySHA256 observation\<rparr>))"

definition planPublication ::
    "reader \<Rightarrow> prober \<Rightarrow> string \<Rightarrow> (string \<Rightarrow> object_listing option) \<Rightarrow> publication_declaration \<Rightarrow> planned_publication res" where
  "planPublication rd probe baseURL observed p =
     (let canonical = CanonicalURL baseURL (pd_Path p) (pd_EntryPoint p) (pd_RoutingMode p) in
      bind_res (plan_objects rd observed (pd_Path p) 0 (pd_Objects p)) (\<lambda>(obs, newest).
      bind_res (map_res (plan_probe probe (pd_Path p) canonical) (pd_Probes p)) (\<lambda>probes.
        Inr \<lparr>plb_Project = pd_Project p, plb_Path = pd_Path p,
             plb_DisplayName = DisplayNameOr p (defaultDisplayName p), plb_EntryPoint = pd_EntryPoint p,
             plb_RoutingMode = pd_RoutingMode p, plb_CanonicalURL = canonical,
             plb_ContentChangedAt = FormatRFC3339 newest, plb_Objects = sortObjects obs,
             plb_Probes = sortProbes probes\<rparr>)))"

definition BuildPlan :: "reader option \<Rightarrow> prober option \<Rightarrow> string \<Rightarrow> batch_declaration \<Rightarrow> plan res" where
  "BuildPlan rd probe publicBaseURL d =
     (case rd of None \<Rightarrow> Inl (Errorf ''storage reader must not be nil'' []) | Some rd \<Rightarrow>
     (case probe of None \<Rightarrow> Inl (Errorf ''public-route prober must not be nil'' []) | Some probe \<Rightarrow>
      bind_res (NormalizePublicBaseURL publicBaseURL) (\<lambda>base.
      require (wrap_err ''invalid declaration: %w'' [] (Declaration_Validate d))
     (bind_res (wrap_res ''list storage: %w'' [] (ListObjects rd)) (\<lambda>listing.
      require (checkNoUnexpectedObjects listing d)
     (bind_res (map_res (planPublication rd probe base (index_by ol_Key listing)) (dc_Publications d)) (\<lambda>ps.
      let content = \<lparr>pc_Version = 1, pc_PublicBaseURL = base, pc_Declaration = d, pc_Publications = ps\<rparr> in
        Inr \<lparr>plan_Content = content, plan_Digest = Digest content\<rparr>)))))))"

section \<open>What a plan asserts\<close>

text \<open>The planned record of a key is what the listing and the read reported for it.\<close>

definition planned_as :: "reader \<Rightarrow> (string \<Rightarrow> object_listing option) \<Rightarrow> string \<Rightarrow> string \<Rightarrow> planned_object \<Rightarrow> bool" where
  "planned_as rd observed path key ob \<longleftrightarrow> (\<exists>listed content. observed key = Some listed \<and>
     ReadObject rd key = Inr content \<and> ob = planned_object_of path key content (modified_of listed content))"

definition planned_modified :: "reader \<Rightarrow> (string \<Rightarrow> object_listing option) \<Rightarrow> string \<Rightarrow> time" where
  "planned_modified rd observed key = (case (observed key, ReadObject rd key) of
     (Some listed, Inr content) \<Rightarrow> modified_of listed content | _ \<Rightarrow> 0)"

lemma plan_objects_Inr:
  "plan_objects rd observed path n keys = Inr (obs, n') \<Longrightarrow>
    list_all2 (planned_as rd observed path) keys obs \<and>
    n' = foldl max n (map (planned_modified rd observed) keys)"
proof (induction keys arbitrary: n obs)
  case Nil
  then show ?case by simp
next
  case (Cons key keys)
  from Cons.prems obtain listed content obs' where
    l: "observed key = Some listed" and c: "ReadObject rd key = Inr content"
    and rest: "plan_objects rd observed path (if After (modified_of listed content) n
        then modified_of listed content else n) keys = Inr (obs', n')"
    and obs: "obs = planned_object_of path key content (modified_of listed content) # obs'"
    by (auto simp: res_iff Let_def split: option.splits)
  have "(if After (modified_of listed content) n then modified_of listed content else n)
      = max n (planned_modified rd observed key)"
    by (simp add: After_def planned_modified_def l c max_def)
  moreover have "planned_as rd observed path key (planned_object_of path key content (modified_of listed content))"
    using l c by (auto simp: planned_as_def)
  ultimately show ?case using Cons.IH [OF rest] by (simp add: obs)
qed

definition probed_as :: "prober \<Rightarrow> string \<Rightarrow> route_probe \<Rightarrow> planned_probe \<Rightarrow> bool" where
  "probed_as probe canonical r q \<longleftrightarrow> (\<exists>ob. probe (ProbeURL canonical (rp_Path r)) = Inr ob \<and>
     pbo_Status ob = rp_ExpectStatus r \<and>
     q = \<lparr>plp_Path = rp_Path r, plp_URL = ProbeURL canonical (rp_Path r), plp_ExpectStatus = rp_ExpectStatus r,
          plp_ObservedStatus = pbo_Status ob, plp_ContentType = pbo_ContentType ob,
          plp_BodySHA256 = pbo_BodySHA256 ob\<rparr>)"

lemma plan_probe_Inr: "plan_probe probe path canonical r = Inr q \<longleftrightarrow> probed_as probe canonical r q"
  by (auto simp: plan_probe_def probed_as_def Let_def res_iff split: if_splits)

definition published_as :: "reader \<Rightarrow> prober \<Rightarrow> string \<Rightarrow> (string \<Rightarrow> object_listing option) \<Rightarrow>
    publication_declaration \<Rightarrow> planned_publication \<Rightarrow> bool" where
  "published_as rd probe base observed p q \<longleftrightarrow> (\<exists>obs probes.
     list_all2 (planned_as rd observed (pd_Path p)) (pd_Objects p) obs \<and>
     list_all2 (probed_as probe (plb_CanonicalURL q)) (pd_Probes p) probes \<and>
     q = \<lparr>plb_Project = pd_Project p, plb_Path = pd_Path p,
          plb_DisplayName = DisplayNameOr p (defaultDisplayName p), plb_EntryPoint = pd_EntryPoint p,
          plb_RoutingMode = pd_RoutingMode p,
          plb_CanonicalURL = CanonicalURL base (pd_Path p) (pd_EntryPoint p) (pd_RoutingMode p),
          plb_ContentChangedAt = FormatRFC3339 (foldl max 0 (map (planned_modified rd observed) (pd_Objects p))),
          plb_Objects = sort_key plo_Key obs, plb_Probes = sort_key plp_Path probes\<rparr>)"

lemma planPublication_Inr:
  "planPublication rd probe base observed p = Inr q \<Longrightarrow> published_as rd probe base observed p q"
  unfolding planPublication_def published_as_def
  by (auto simp: Let_def res_iff map_res_Inr plan_probe_Inr sortObjects_def sortProbes_def dest!: plan_objects_Inr) blast

lemma published_as_path: "published_as rd probe base observed p q \<Longrightarrow> plb_Path q = pd_Path p \<and> plb_Project q = pd_Project p"
  by (auto simp: published_as_def)

lemma published_as_keys:
  assumes "published_as rd probe base observed p q"
  shows "map plo_Key (plb_Objects q) = sort (pd_Objects p)"
proof -
  from assms obtain obs where obs: "list_all2 (planned_as rd observed (pd_Path p)) (pd_Objects p) obs"
    and q: "plb_Objects q = sort_key plo_Key obs" by (auto simp: published_as_def)
  from obs have "map plo_Key obs = pd_Objects p"
    by (induction rule: list_all2_induct) (auto simp: planned_as_def planned_object_of_def)
  moreover have "map plo_Key (sort_key plo_Key obs) = sort (map plo_Key obs)"
    by (rule properties_for_sort [symmetric]) simp_all
  ultimately show ?thesis by (simp add: q)
qed

lemma checkNoUnexpected_None:
  "checkNoUnexpectedObjects listing d = None \<longleftrightarrow>
    ol_Key ` set listing \<subseteq> set (concat (map pd_Objects (dc_Publications d)))"
proof -
  have "sort xs = [] \<longleftrightarrow> xs = []" for xs :: "string list" by (metis set_empty set_sort)
  then show ?thesis
    by (auto simp: checkNoUnexpectedObjects_def Let_def filter_empty_conv)
qed

text \<open>A plan is exact: the listing and the declaration name the same keys, and everything was read.\<close>

lemma BuildPlan_Inr:
  assumes "BuildPlan rd probe url d = Inr pl"
  obtains r pb listing where "rd = Some r" "probe = Some pb"
    "NormalizePublicBaseURL url = Inr (pc_PublicBaseURL (plan_Content pl))" "valid_batch d"
    "ListObjects r = Inr listing"
    "ol_Key ` set listing = set (concat (map pd_Objects (dc_Publications d)))"
    "list_all2 (published_as r pb (pc_PublicBaseURL (plan_Content pl)) (index_by ol_Key listing))
       (dc_Publications d) (pc_Publications (plan_Content pl))"
    "pc_Declaration (plan_Content pl) = d" "pc_Version (plan_Content pl) = 1"
    "plan_Digest pl = Digest (plan_Content pl)"
proof -
  from assms obtain r pb base listing ps where
    rd: "rd = Some r" and pb: "probe = Some pb" and base: "NormalizePublicBaseURL url = Inr base"
    and d: "Declaration_Validate d = None" and l: "ListObjects r = Inr listing"
    and u: "checkNoUnexpectedObjects listing d = None"
    and ps: "map_res (planPublication r pb base (index_by ol_Key listing)) (dc_Publications d) = Inr ps"
    and pl: "pl = \<lparr>plan_Content = \<lparr>pc_Version = 1, pc_PublicBaseURL = base, pc_Declaration = d, pc_Publications = ps\<rparr>,
       plan_Digest = Digest \<lparr>pc_Version = 1, pc_PublicBaseURL = base, pc_Declaration = d, pc_Publications = ps\<rparr>\<rparr>"
    by (auto simp: BuildPlan_def Let_def res_iff split: option.splits)
  have all: "list_all2 (published_as r pb base (index_by ol_Key listing)) (dc_Publications d) ps"
    using ps planPublication_Inr by (auto simp: map_res_Inr elim: list_all2_mono)
  have "k \<in> ol_Key ` set listing" if p: "p \<in> set (dc_Publications d)" and k: "k \<in> set (pd_Objects p)" for p k
  proof -
    from all p obtain q where "published_as r pb base (index_by ol_Key listing) p q"
      by (auto simp: list_all2_conv_all_nth in_set_conv_nth)
    then obtain obs where "list_all2 (planned_as r (index_by ol_Key listing) (pd_Path p)) (pd_Objects p) obs"
      by (auto simp: published_as_def)
    with k obtain ob where "planned_as r (index_by ol_Key listing) (pd_Path p) k ob"
      by (auto simp: list_all2_conv_all_nth in_set_conv_nth)
    then have "index_by ol_Key listing k \<noteq> None" by (auto simp: planned_as_def)
    then show ?thesis using index_by_None by metis
  qed
  then have "ol_Key ` set listing = set (concat (map pd_Objects (dc_Publications d)))"
    using u [unfolded checkNoUnexpected_None] by auto
  then show ?thesis
    using that [OF rd pb] base d l all pl by (simp add: validation_iff)
qed

end
