(* ===== verification/Catalog_Success.thy ===== *)
theory Catalog_Success
  imports Catalog_Operation
begin

text \<open>
  An adoption that nothing stands against commits: when the driver works, the batch is well formed and
  storable, its prefixes, paths and operation ID are free and the identities drawn are new and
  different, \<open>CommitAdoptionBatch\<close> returns a result. The proof carries the number of identities drawn
  so far through the loops: the next ones stay fresh for the growing catalog.
\<close>

section \<open>Fresh identities\<close>

definition identities :: "catalog \<Rightarrow> string set" where
  "identities c = prw_id ` set (projects c) \<union> pub_id ` set (publications c) \<union> man_id ` set (manifest_revisions c)"

definition no_faults :: "env \<Rightarrow> bool" where
  "no_faults e \<longleftrightarrow> (\<forall>i. \<not> env_fault e i)"

text \<open>The draws from the \<open>n\<close>-th up to the bound \<open>N\<close> are not used in the catalog.\<close>

definition fresh_from :: "env \<Rightarrow> nat \<Rightarrow> nat \<Rightarrow> catalog \<Rightarrow> bool" where
  "fresh_from e n N c \<longleftrightarrow> (\<forall>i. n \<le> i \<and> i < N \<longrightarrow> draw e i \<notin> identities c)"

definition different_draws :: "env \<Rightarrow> nat \<Rightarrow> bool" where
  "different_draws e N \<longleftrightarrow> distinct (map (draw e) [0..<N])"

lemma different_drawsD: "different_draws e N \<Longrightarrow> i < N \<Longrightarrow> j < N \<Longrightarrow> draw e i = draw e j \<longleftrightarrow> i = j"
  by (auto simp: different_draws_def distinct_map inj_on_def)

text \<open>The identities a publication and a project need.\<close>

definition draws_project :: "adopted_project \<Rightarrow> nat" where
  "draws_project j = 2 + 3 * length (aj_Publications j)"

definition draws_batch :: "adopted_project list \<Rightarrow> nat" where
  "draws_batch js = sum_list (map draws_project js)"

section \<open>Storable rows\<close>

text \<open>What the schema asks of an object list and of a publication.\<close>

definition storable_objects :: "adopted_object list \<Rightarrow> bool" where
  "storable_objects obs \<longleftrightarrow> distinct (map ao_Key obs) \<and> list_all (\<lambda>ob. \<not> negative (ao_Size ob)) obs"

definition storable :: "adopted_publication \<Rightarrow> bool" where
  "storable p \<longleftrightarrow> ap_RoutingMode p \<in> set routing_modes \<and> storable_objects (ap_Objects p)"

lemma exec_ok: "no_faults e \<Longrightarrow> stmt (tx_cat t) = Inr c \<Longrightarrow> exec e stmt t = Inr (t\<lparr>tx_cat := c, tx_stmts := Suc (tx_stmts t)\<rparr>)"
  by (simp add: exec_def no_faults_def)

lemma check_free_ok:
  "no_faults e \<Longrightarrow> \<not> q (tx_cat t) \<Longrightarrow> check_free e q m f t = Inr (t\<lparr>tx_stmts := Suc (tx_stmts t)\<rparr>)"
  by (simp add: check_free_def query_row_def no_faults_def)

lemma object_manifest_known:
  "catalog_ok c \<Longrightarrow> r \<in> set (manifest_objects c) \<Longrightarrow> obj_manifest_id r \<in> man_id ` set (manifest_revisions c)"
  by (simp add: catalog_ok_def image_subset_iff)

lemma insert_objects_ok:
  assumes "no_faults e" and "storable_objects obs" and "m \<in> man_id ` set (manifest_revisions (tx_cat t))"
    and "\<And>ob. ob \<in> set obs \<Longrightarrow> (m, ao_Key ob) \<notin> (\<lambda>r. (obj_manifest_id r, obj_key r)) ` set (manifest_objects (tx_cat t))"
  shows "\<exists>t'. fold_tx (insert_adopted_object e m) obs t = Inr t'"
  using assms(2-)
proof (induction obs arbitrary: t)
  case Nil
  then show ?case by simp
next
  case (Cons ob obs)
  let ?c = "(tx_cat t)\<lparr>manifest_objects := manifest_objects (tx_cat t) @ [object_row_of m ob]\<rparr>"
  have key: "obj_key (object_row_of m x) = ao_Key x" "obj_size (object_row_of m x) = ao_Size x" for x
    by (simp_all add: object_row_of_def)
  have ne: "ao_Key x \<noteq> ao_Key ob" if "x \<in> set obs" for x
    using Cons.prems(1) image_eqI [OF refl that, of ao_Key] by (auto simp: storable_objects_def)
  have "insert_object (object_row_of m ob) (tx_cat t) = Inr ?c"
    using Cons.prems(1,2) Cons.prems(3) [of ob] by (simp add: insert_object_def key storable_objects_def)
  then have one: "insert_adopted_object e m ob t = Inr (t\<lparr>tx_cat := ?c, tx_stmts := Suc (tx_stmts t)\<rparr>)"
    using exec_ok [OF assms(1)] by (simp add: insert_adopted_object_def)
  have "\<exists>t'. fold_tx (insert_adopted_object e m) obs (t\<lparr>tx_cat := ?c, tx_stmts := Suc (tx_stmts t)\<rparr>) = Inr t'"
    using Cons.prems ne by (intro Cons.IH) (auto simp: storable_objects_def key)
  with one show ?case by simp
qed

lemma identities_with_publication:
  "identities (with_publication e now digest pid n p c) = identities c \<union> {draw e n, draw e (n + 1)}"
  by (auto simp: identities_def with_publication_def publication_row_of_def manifest_row_of_def)

lemma adopt_publication_ok:
  assumes nf: "no_faults e" and dd: "different_draws e N" and "tx_ids t + 3 \<le> N"
    and fresh: "fresh_from e (tx_ids t) N (tx_cat t)" and cons: "consistent (tx_cat t)"
    and "storable p" and "ap_Path p \<notin> pub_path ` set (publications (tx_cat t))"
    and "pid \<in> prw_id ` set (projects (tx_cat t))"
  obtains t' where "adopt_publication e now digest pid p t = Inr (publication_result_of e (tx_ids t) p, t')"
    and "fresh_from e (tx_ids t') N (tx_cat t')"
proof -
  let ?n = "tx_ids t" let ?c = "tx_cat t"
  let ?pr = "publication_row_of e now pid ?n p" let ?mr = "manifest_row_of e now digest ?n"
  let ?c1 = "?c\<lparr>publications := publications ?c @ [?pr]\<rparr>"
  let ?c2 = "?c1\<lparr>manifest_revisions := manifest_revisions ?c1 @ [?mr]\<rparr>"
  have new: "draw e ?n \<notin> identities ?c" "draw e (?n + 1) \<notin> identities ?c"
    using fresh assms(3) by (auto simp: fresh_from_def)
  have c1: "insert_publication ?pr ?c = Inr ?c1"
    using new assms(6-8) by (simp add: insert_publication_def publication_row_of_def identities_def storable_def)
  have c2: "insert_manifest ?mr ?c1 = Inr ?c2"
    using new by (simp add: insert_manifest_def manifest_row_of_def publication_row_of_def identities_def)
  obtain t3 where t3: "fold_tx (insert_adopted_object e (draw e (?n + 1))) (ap_Objects p)
      (t\<lparr>tx_ids := ?n + 3, tx_cat := ?c2, tx_stmts := Suc (Suc (tx_stmts t))\<rparr>) = Inr t3"
  proof -
    have "(draw e (?n + 1), k) \<notin> (\<lambda>r. (obj_manifest_id r, obj_key r)) ` set (manifest_objects ?c)" for k
    proof
      assume "(draw e (?n + 1), k) \<in> (\<lambda>r. (obj_manifest_id r, obj_key r)) ` set (manifest_objects ?c)"
      then obtain r where r: "r \<in> set (manifest_objects ?c)" "draw e (?n + 1) = obj_manifest_id r" by auto
      then show False
        using object_manifest_known [of ?c r] cons new(2) by (simp add: consistent_def identities_def)
    qed
    then have "\<exists>t3. fold_tx (insert_adopted_object e (draw e (?n + 1))) (ap_Objects p)
      (t\<lparr>tx_ids := ?n + 3, tx_cat := ?c2, tx_stmts := Suc (Suc (tx_stmts t))\<rparr>) = Inr t3"
      using assms(6) by (intro insert_objects_ok [OF nf]) (auto simp: storable_def manifest_row_of_def)
    then show ?thesis using that by blast
  qed
  have run: "adopt_publication e now digest pid p t = Inr (publication_result_of e ?n p, t3)"
    using t3 by (simp add: adopt_publication_eq exec_ok [OF nf, of _ _ ?c1] exec_ok [OF nf, of _ _ ?c2] c1 c2)
  note inr = adopt_publication_Inr [OF run]
  have "fresh_from e (tx_ids t3) N (tx_cat t3)"
    unfolding fresh_from_def inr(1,2) identities_with_publication
    using fresh different_drawsD [OF dd] assms(3) by (auto simp: fresh_from_def)
  with run show ?thesis by (rule that)
qed

section \<open>The loops and the commit\<close>

lemma paths_accepted: "pub_path ` set (publications c) = acc_path ` set (accepted c)"
  by (simp add: accepted_def accepted_of_def image_image)

lemma acc_path_offered: "acc_path ` set (map (offered prfx) ps) = ap_Path ` set ps"
  by (simp add: offered_def image_image)

lemma prefix_of_known: "prefix_of c pid = Some prfx \<Longrightarrow> pid \<in> prw_id ` set (projects c)"
  by (auto simp: prefix_of_def find_Some_iff)

lemma adopt_publications_ok:
  assumes nf: "no_faults e" and dd: "different_draws e N"
  shows "tx_ids t + 3 * length ps \<le> N \<Longrightarrow> fresh_from e (tx_ids t) N (tx_cat t) \<Longrightarrow> consistent (tx_cat t) \<Longrightarrow>
    list_all storable ps \<Longrightarrow> distinct (map ap_Path ps) \<Longrightarrow>
    ap_Path ` set ps \<inter> pub_path ` set (publications (tx_cat t)) = {} \<Longrightarrow> prefix_of (tx_cat t) pid = Some prfx \<Longrightarrow>
    \<exists>rs t'. map_tx (adopt_publication e now digest pid) ps t = Inr (rs, t') \<and>
      fresh_from e (tx_ids t') N (tx_cat t') \<and> tx_ids t' = tx_ids t + 3 * length ps"
proof (induction ps arbitrary: t)
  case Nil
  then show ?case by simp
next
  case (Cons p ps)
  obtain t1 where t1: "adopt_publication e now digest pid p t = Inr (publication_result_of e (tx_ids t) p, t1)"
    and fresh: "fresh_from e (tx_ids t1) N (tx_cat t1)"
    using adopt_publication_ok [OF nf dd, of t p pid now digest] Cons.prems prefix_of_known [OF Cons.prems(7)]
    by (metis Int_iff add_leD1 all_not_in_conv image_eqI length_Cons list.pred_inject(2) list.set_intros(1)
        mult_Suc_right add.assoc)
  note app = adopt_publication_appends [OF t1 Cons.prems(3,7)] and ids = adopt_publication_Inr(2) [OF t1]
  have "pub_path ` set (publications (tx_cat t1)) = insert (ap_Path p) (pub_path ` set (publications (tx_cat t)))"
    using app by (simp add: paths_accepted appends_def offered_def)
  then have "\<exists>rs t'. map_tx (adopt_publication e now digest pid) ps t1 = Inr (rs, t') \<and>
      fresh_from e (tx_ids t') N (tx_cat t') \<and> tx_ids t' = tx_ids t1 + 3 * length ps"
    using Cons.prems app ids by (intro Cons.IH [OF _ fresh]) (auto simp: prefix_of_def)
  with t1 ids show ?case by auto
qed

lemma adopt_project_ok:
  assumes nf: "no_faults e" and dd: "different_draws e N" and "tx_ids t + draws_project j \<le> N"
    and fresh: "fresh_from e (tx_ids t) N (tx_cat t)" and cons: "consistent (tx_cat t)"
    and "list_all storable (aj_Publications j)" and "distinct (map ap_Path (aj_Publications j))"
    and paths: "ap_Path ` set (aj_Publications j) \<inter> pub_path ` set (publications (tx_cat t)) = {}"
    and "aj_Prefix j \<notin> prw_prefix ` set (projects (tx_cat t))"
  shows "\<exists>r t'. adopt_project e now digest j t = Inr (r, t') \<and> fresh_from e (tx_ids t') N (tx_cat t')
    \<and> tx_ids t' = tx_ids t + draws_project j"
proof -
  let ?n = "tx_ids t" let ?c = "tx_cat t"
  let ?row = "\<lparr>prw_id = draw e ?n, prw_prefix = aj_Prefix j, prw_display_name = aj_DisplayName j,
     prw_description = aj_Description j, prw_entity_revision = draw e (Suc ?n),
     prw_created_at = now, prw_updated_at = now\<rparr>"
  let ?c1 = "?c\<lparr>projects := projects ?c @ [?row]\<rparr>"
  let ?t1 = "t\<lparr>tx_ids := Suc (Suc ?n), tx_cat := ?c1, tx_stmts := Suc (tx_stmts t)\<rparr>"
  have new: "draw e ?n \<notin> identities ?c"
    using fresh assms(3) by (auto simp: fresh_from_def draws_project_def)
  have c1: "insert_project ?row ?c = Inr ?c1"
    using new assms(9) by (simp add: insert_project_def identities_def)
  have "find (\<lambda>r. prw_id r = draw e ?n) (projects ?c) = None"
    using new by (simp add: find_None_iff identities_def) (metis image_eqI)
  then have pid: "prefix_of ?c1 (draw e ?n) = Some (aj_Prefix j)"
    by (simp add: prefix_of_def find_append_case)
  have cons1: "consistent ?c1"
    using cons insert_project_ok [OF c1] deferred_ok_cong [of ?c1 ?c] by (simp add: consistent_def)
  have "identities ?c1 = insert (draw e ?n) (identities ?c)" by (auto simp: identities_def)
  then have fresh1: "fresh_from e (tx_ids ?t1) N (tx_cat ?t1)"
    using fresh different_drawsD [OF dd] assms(3) by (auto simp: fresh_from_def draws_project_def)
  have "\<exists>rs t'. map_tx (adopt_publication e now digest (draw e ?n)) (aj_Publications j) ?t1 = Inr (rs, t') \<and>
      fresh_from e (tx_ids t') N (tx_cat t') \<and> tx_ids t' = tx_ids ?t1 + 3 * length (aj_Publications j)"
    using assms(3,6,7) paths cons1 pid fresh1
    by (intro adopt_publications_ok [OF nf dd]) (simp_all add: draws_project_def)
  then show ?thesis
    using exec_ok [OF nf, of "insert_project ?row" "t\<lparr>tx_ids := Suc (Suc ?n)\<rparr>" ?c1] c1
    by (auto simp: adopt_project_def NewID_def draws_project_def)
qed

lemma adopt_projects_ok:
  assumes nf: "no_faults e" and dd: "different_draws e N"
  shows "tx_ids t + draws_batch js \<le> N \<Longrightarrow> fresh_from e (tx_ids t) N (tx_cat t) \<Longrightarrow> consistent (tx_cat t) \<Longrightarrow>
    list_all (\<lambda>j. list_all storable (aj_Publications j)) js \<Longrightarrow> distinct (map aj_Prefix js) \<Longrightarrow>
    distinct (batch_paths js) \<Longrightarrow> set (batch_paths js) \<inter> pub_path ` set (publications (tx_cat t)) = {} \<Longrightarrow>
    aj_Prefix ` set js \<inter> prw_prefix ` set (projects (tx_cat t)) = {} \<Longrightarrow>
    \<exists>rs t'. map_tx (adopt_project e now digest) js t = Inr (rs, t')"
proof (induction js arbitrary: t)
  case Nil
  then show ?case by simp
next
  case (Cons j js)
  have bp: "set (batch_paths (j # js)) = ap_Path ` set (aj_Publications j) \<union> set (batch_paths js)"
    "distinct (batch_paths (j # js)) \<longleftrightarrow> distinct (map ap_Path (aj_Publications j)) \<and> distinct (batch_paths js)
       \<and> ap_Path ` set (aj_Publications j) \<inter> set (batch_paths js) = {}"
    by (simp_all add: batch_paths_def)
  have "\<exists>r t'. adopt_project e now digest j t = Inr (r, t') \<and> fresh_from e (tx_ids t') N (tx_cat t')
    \<and> tx_ids t' = tx_ids t + draws_project j"
    using Cons.prems bp by (intro adopt_project_ok [OF nf dd]) (auto simp: draws_batch_def)
  then obtain r t1 where t1: "adopt_project e now digest j t = Inr (r, t1)"
    "fresh_from e (tx_ids t1) N (tx_cat t1)" "tx_ids t1 = tx_ids t + draws_project j" by blast
  note app = adopt_project_appends [OF t1(1) Cons.prems(3)]
  have "pub_path ` set (publications (tx_cat t1)) = ap_Path ` set (aj_Publications j) \<union> pub_path ` set (publications (tx_cat t))"
    using app acc_path_offered [of "aj_Prefix j" "aj_Publications j"]
    by (simp add: paths_accepted appends_def offered_project_def image_Un Un_commute)
  moreover have "prw_prefix ` set (projects (tx_cat t1)) = insert (aj_Prefix j) (prw_prefix ` set (projects (tx_cat t)))"
  proof -
    have "set (map prw_prefix (projects (tx_cat t1))) = set (map prw_prefix (projects (tx_cat t)) @ [aj_Prefix j])"
      using app by (simp only: appends_def)
    then show ?thesis by simp
  qed
  ultimately have "\<exists>rs t'. map_tx (adopt_project e now digest) js t1 = Inr (rs, t')"
    using Cons.prems bp t1(3) app by (intro Cons.IH [OF _ t1(2)]) (auto simp: draws_batch_def)
  with t1(1) show ?case by auto
qed

lemma check_publications_ok:
  "no_faults e \<Longrightarrow> ap_Path ` set ps \<inter> pub_path ` set (publications (tx_cat t)) = {} \<Longrightarrow>
    \<exists>t'. fold_tx (check_publication e) ps t = Inr t'"
  by (induction ps arbitrary: t) (simp_all add: check_publication_def check_free_ok)

lemma check_projects_ok:
  "no_faults e \<Longrightarrow> set (batch_paths js) \<inter> pub_path ` set (publications (tx_cat t)) = {} \<Longrightarrow>
    aj_Prefix ` set js \<inter> prw_prefix ` set (projects (tx_cat t)) = {} \<Longrightarrow>
    \<exists>t'. fold_tx (check_project e) js t = Inr t'"
proof (induction js arbitrary: t)
  case Nil
  then show ?case by simp
next
  case (Cons j js)
  let ?t1 = "t\<lparr>tx_stmts := Suc (tx_stmts t)\<rparr>"
  have "ap_Path ` set (aj_Publications j) \<inter> pub_path ` set (publications (tx_cat ?t1)) = {}"
    using Cons.prems(2) by (auto simp: batch_paths_def)
  from check_publications_ok [OF Cons.prems(1) this] obtain t2 where
    t2: "fold_tx (check_publication e) (aj_Publications j) ?t1 = Inr t2" by blast
  then have one: "check_project e j t = Inr t2"
    using Cons.prems(1,3) by (simp add: check_project_def check_free_ok)
  have "tx_cat t2 = tx_cat t" using check_publications_cat [OF t2] by simp
  then have "\<exists>t'. fold_tx (check_project e) js t2 = Inr t'"
    using Cons.prems by (intro Cons.IH) (auto simp: batch_paths_def)
  with one show ?case by simp
qed

text \<open>Everything a batch needs to be adopted by a catalog.\<close>

definition adoptable :: "env \<Rightarrow> batch_input \<Rightarrow> catalog \<Rightarrow> bool" where
  "adoptable e input c \<longleftrightarrow>
     (let js = bi_Projects input; n = draws_batch js in
      bi_OperationID input \<noteq> [] \<and> bi_OperationID input \<notin> op_operation_id ` set (adoption_operations c) \<and>
      well_formed_batch js \<and> list_all (\<lambda>j. list_all storable (aj_Publications j)) js \<and>
      set (batch_paths js) \<inter> pub_path ` set (publications c) = {} \<and>
      aj_Prefix ` set js \<inter> prw_prefix ` set (projects c) = {} \<and>
      different_draws e n \<and> fresh_from e 0 n c)"

lemma normal_form_facts:
  assumes "well_formed_batch js"
  shows "distinct (map aj_Prefix (normal_form js))" "distinct (batch_paths (normal_form js))"
    "set (batch_paths (normal_form js)) = set (batch_paths js)"
    "aj_Prefix ` set (normal_form js) = aj_Prefix ` set js"
    "draws_batch (normal_form js) = draws_batch js"
    "list_all (\<lambda>j. list_all storable (aj_Publications j)) (normal_form js)
       \<longleftrightarrow> list_all (\<lambda>j. list_all storable (aj_Publications j)) js"
proof -
  show "distinct (map aj_Prefix (normal_form js))"
    using assms mset_eq_imp_distinct_iff [OF prefixes_normal_form [of js]] by (simp add: well_formed_batch_def)
  have "mset (batch_paths (map sorted_project js)) = mset (batch_paths js)"
    by (induction js) (simp_all add: batch_paths_def sorted_project_def)
  moreover have "mset (batch_paths (sort_key aj_Prefix ks)) = mset (batch_paths ks)" for ks
    using sum_list_sort_key [of "\<lambda>j. mset (map ap_Path (aj_Publications j))" aj_Prefix ks]
    by (simp add: batch_paths_def mset_concat o_def)
  ultimately have m: "mset (batch_paths (normal_form js)) = mset (batch_paths js)"
    by (simp add: normal_form_def)
  show "distinct (batch_paths (normal_form js))"
    using assms mset_eq_imp_distinct_iff [OF m] by (simp add: well_formed_batch_def)
  show "set (batch_paths (normal_form js)) = set (batch_paths js)" using mset_eq_setD [OF m] .
  show "aj_Prefix ` set (normal_form js) = aj_Prefix ` set js"
    by (simp add: normal_form_def image_image sorted_project_def)
  show "draws_batch (normal_form js) = draws_batch js"
  proof -
    have "draws_project (sorted_project j) = draws_project j" for j
      by (simp add: draws_project_def sorted_project_def)
    then have "map draws_project (map sorted_project js) = map draws_project js" by simp
    then show ?thesis
      using sum_list_sort_key [of draws_project aj_Prefix "map sorted_project js"]
      unfolding draws_batch_def normal_form_def by (simp only:)
  qed
  show "list_all (\<lambda>j. list_all storable (aj_Publications j)) (normal_form js)
       \<longleftrightarrow> list_all (\<lambda>j. list_all storable (aj_Publications j)) js"
    by (simp add: normal_form_def list_all_iff sorted_project_def)
qed

lemma CommitAdoptionBatch_succeeds:
  assumes nf: "no_faults e" and cons: "consistent c" and ad: "adoptable e input c"
  shows "\<exists>r c'. CommitAdoptionBatch e input c = (Inr r, c')"
proof -
  let ?js = "normal_form (bi_Projects input)" and ?now = "FormatRFC3339 (env_now e)"
  let ?t0 = "\<lparr>tx_cat = c, tx_ids = 0, tx_stmts = 1\<rparr>"
  note ad' = ad [unfolded adoptable_def Let_def]
  then have wf: "well_formed_batch (bi_Projects input)" by simp
  note norm = normal_form_facts [OF wf]
  obtain t1 where t1: "fold_tx (check_project e) ?js ?t0 = Inr t1"
    using check_projects_ok [OF nf, of ?js ?t0] ad' norm by auto
  note c1 = check_projects_cat [OF t1]
  let ?t2 = "t1\<lparr>tx_stmts := Suc (tx_stmts t1)\<rparr>"
  have t2: "check_operation e (bi_OperationID input) t1 = Inr ?t2"
    using ad' c1 by (simp add: check_operation_def check_free_ok [OF nf])
  have "\<exists>rs t3. map_tx (adopt_project e ?now (bi_PlanDigest input)) ?js ?t2 = Inr (rs, t3)"
    using ad' norm c1 cons
    by (intro adopt_projects_ok [OF nf, of "draws_batch (bi_Projects input)"]) simp_all
  then obtain rs t3 where t3: "map_tx (adopt_project e ?now (bi_PlanDigest input)) ?js ?t2 = Inr (rs, t3)" by blast
  have app: "consistent (tx_cat t3)" "adoption_operations (tx_cat t3) = adoption_operations c"
    using map_adopt_projects [OF t3] c1 cons by (simp_all add: appends_def)
  let ?r = "adoption_result_of (bi_OperationID input) rs"
  let ?c4 = "(tx_cat t3)\<lparr>adoption_operations := adoption_operations (tx_cat t3) @ [operation_row_of e input ?r]\<rparr>"
  have "insert_operation (operation_row_of e input ?r) (tx_cat t3) = Inr ?c4"
    using ad' app by (simp add: insert_operation_def operation_row_of_def)
  then have t4: "record_operation e ?now input ?r t3 = Inr (t3\<lparr>tx_cat := ?c4, tx_stmts := Suc (tx_stmts t3)\<rparr>)"
    by (simp add: record_operation_def operation_row_of_def exec_ok [OF nf])
  have "deferred_ok ?c4" using app deferred_ok_cong [of ?c4 "tx_cat t3"] by (simp add: consistent_def)
  then have "commit_batch e input c = Inr (?r, ?c4)"
    using ad' nf wf t1 t2 t3 t4
    by (simp add: commit_batch_def normalizeBatchProjects_Inr [THEN iffD2] begin_tx_def commit_tx_def no_faults_def Let_def)
  then show ?thesis by (simp add: CommitAdoptionBatch_def run_tx_def)
qed

end
