(* ===== verification/Adoption_Commit.thy ===== *)
theory Adoption_Commit
  imports Plan Catalog_Success
begin

text \<open>
  \<open>internal/adoption/commit.go\<close>: committing an approved plan. \<open>Commit\<close> verifies the plan, takes the
  catalog lock, opens the catalog, answers a repeated operation from its recorded result, rechecks the
  whole batch by planning again, and hands the rechecked batch to \<open>CommitAdoptionBatch\<close>. What the
  environment decides is the record \<open>commit_env\<close>: whether the lock is free and the catalog opens, and
  the environments of the two catalog calls.
\<close>

section \<open>From planned to adopted\<close>

definition adoptObject :: "planned_object \<Rightarrow> adopted_object" where
  "adoptObject ob =
     \<lparr>ao_Key = plo_Key ob, ao_RelativePath = plo_RelativePath ob, ao_Size = plo_Size ob, ao_ETag = plo_ETag ob,
      ao_ModifiedAt = plo_ModifiedAt ob, ao_ContentType = plo_ContentType ob,
      ao_ContentEncoding = plo_ContentEncoding ob, ao_CacheControl = plo_CacheControl ob,
      ao_UserMetadata = plo_UserMetadata ob, ao_SHA256 = plo_SHA256 ob\<rparr>"

definition adoptObjects :: "planned_object list \<Rightarrow> adopted_object list" where
  "adoptObjects obs = map adoptObject obs"

definition adoptPublication :: "planned_publication \<Rightarrow> adopted_publication" where
  "adoptPublication p =
     \<lparr>ap_Path = plb_Path p, ap_DisplayName = plb_DisplayName p, ap_Description = [],
      ap_EntryPoint = plb_EntryPoint p, ap_RoutingMode = plb_RoutingMode p,
      ap_ContentChangedAt = plb_ContentChangedAt p, ap_Objects = adoptObjects (plb_Objects p)\<rparr>"

text \<open>The map \<open>byPrefix\<close> with the slice \<open>prefixes\<close>, as one list in order of first appearance.\<close>

fun add_planned :: "planned_publication \<Rightarrow> adopted_project list \<Rightarrow> adopted_project list" where
  "add_planned p [] =
     [\<lparr>aj_Prefix = prj_Prefix (plb_Project p),
       aj_DisplayName = (if prj_DisplayName (plb_Project p) = [] then prj_Prefix (plb_Project p)
                         else prj_DisplayName (plb_Project p)),
       aj_Description = [], aj_Publications = [adoptPublication p]\<rparr>]"
| "add_planned p (j # js) =
     (if aj_Prefix j = prj_Prefix (plb_Project p)
      then j\<lparr>aj_Publications := aj_Publications j @ [adoptPublication p]\<rparr> # js
      else j # add_planned p js)"

definition adoptProjects :: "planned_publication list \<Rightarrow> adopted_project list" where
  "adoptProjects ps = sort_key aj_Prefix (foldl (\<lambda>js p. add_planned p js) [] ps)"

section \<open>The commit\<close>

definition RequestHash :: "string \<Rightarrow> string \<Rightarrow> string" where
  "RequestHash operationID planDigest = sha256_hex (operationID @ CHR 0x0A # planDigest)"

record commit_input =
  ci_Reader :: "reader option"
  ci_Prober :: "prober option"
  ci_Approved :: plan
  ci_OperationID :: string
  ci_ExpectedPublicBaseURL :: string

record commit_env =
  ce_lock :: "error option"
  ce_open :: "error option"
  ce_find :: env
  ce_commit :: env

record commit_result =
  cmr_Result :: adoption_result
  cmr_Replayed :: bool

text \<open>The checks before the lock is taken.\<close>

definition precheck :: "commit_input \<Rightarrow> error option" where
  "precheck input =
     (let approved = ci_Approved input; base = pc_PublicBaseURL (plan_Content approved) in
      and_then (wrap_err ''approved plan is not intact: %w'' [] (Plan_Verify approved))
     (and_then (wrap_err ''approved declaration is invalid: %w'' []
         (Declaration_Validate (pc_Declaration (plan_Content approved))))
     (and_then (fail_if (ci_OperationID input = []) (Errorf ''an operation ID is required'' []))
     (and_then (fail_if (ci_Reader input = None \<or> ci_Prober input = None)
         (Errorf ''a storage reader and public-route prober are required'' []))
       (fail_if (ci_ExpectedPublicBaseURL input \<noteq> [] \<and> ci_ExpectedPublicBaseURL input \<noteq> base)
         (Errorf ''approved plan was generated for public base URL %s, but this command is configured for %s; generate a new plan against the configured origin''
            [base, ci_ExpectedPublicBaseURL input]))))))"

text \<open>\<open>json.Unmarshal\<close> of the recorded result.\<close>

definition replay :: "operation_record \<Rightarrow> commit_result res" where
  "replay record =
     (case Option.bind (Unmarshal (or_ResultJSON record)) decode_result of
        None \<Rightarrow> Inl (Errorf ''decode recorded operation result: %w'' [])
      | Some previous \<Rightarrow> Inr \<lparr>cmr_Result = previous, cmr_Replayed = True\<rparr>)"

text \<open>The batch handed to the catalog.\<close>

definition batch_of :: "commit_input \<Rightarrow> plan \<Rightarrow> batch_input" where
  "batch_of input rechecked =
     \<lparr>bi_OperationID = ci_OperationID input,
      bi_RequestHash = RequestHash (ci_OperationID input) (plan_Digest (ci_Approved input)),
      bi_PlanDigest = plan_Digest (ci_Approved input),
      bi_Projects = adoptProjects (pc_Publications (plan_Content rechecked))\<rparr>"

text \<open>The recheck immediately before the transaction, and the transaction.\<close>

definition recheck_commit :: "commit_env \<Rightarrow> commit_input \<Rightarrow> catalog \<Rightarrow> commit_result res \<times> catalog" where
  "recheck_commit ce input c =
     (let approved = ci_Approved input; content = plan_Content approved in
      case BuildPlan (ci_Reader input) (ci_Prober input) (pc_PublicBaseURL content) (pc_Declaration content) of
        Inl err \<Rightarrow> (Inl (Wrapf ''recheck against storage and public routes failed: %w'' [] err), c)
      | Inr rechecked \<Rightarrow>
          if plan_Digest rechecked \<noteq> plan_Digest approved
          then (Inl (Errorf ''storage or public routes drifted from the approved plan (approved %s, observed %s)''
                   [plan_Digest approved, plan_Digest rechecked]), c)
          else (case CommitAdoptionBatch (ce_commit ce) (batch_of input rechecked) c of
              (Inl err, c') \<Rightarrow> (Inl err, c')
            | (Inr result, c') \<Rightarrow> (Inr \<lparr>cmr_Result = result, cmr_Replayed = False\<rparr>, c')))"

text \<open>With the lock held and the catalog open.\<close>

definition locked_commit :: "commit_env \<Rightarrow> commit_input \<Rightarrow> catalog \<Rightarrow> commit_result res \<times> catalog" where
  "locked_commit ce input c =
     (case FindOperation (ce_find ce) (ci_OperationID input) c of
        Inl err \<Rightarrow> (Inl err, c)
      | Inr (Some rc) \<Rightarrow>
          if or_RequestHash rc \<noteq> RequestHash (ci_OperationID input) (plan_Digest (ci_Approved input))
          then (Inl (Errorf ''operation ID %q was already used with different content'' [ci_OperationID input]), c)
          else (replay rc, c)
      | Inr None \<Rightarrow> recheck_commit ce input c)"

definition Commit :: "commit_env \<Rightarrow> commit_input \<Rightarrow> catalog \<Rightarrow> commit_result res \<times> catalog" where
  "Commit ce input c =
     (case precheck input of Some err \<Rightarrow> (Inl err, c) | None \<Rightarrow>
     (case ce_lock ce of Some err \<Rightarrow> (Inl err, c) | None \<Rightarrow>
     (case ce_open ce of Some err \<Rightarrow> (Inl err, c) | None \<Rightarrow> locked_commit ce input c)))"

section \<open>What a commit does\<close>

lemma recheck_commit_cases:
  assumes "recheck_commit ce input c = (r, c')"
  obtains (refused) err where "r = Inl err" "c' = c"
  | (committed) rechecked result where
      "BuildPlan (ci_Reader input) (ci_Prober input) (pc_PublicBaseURL (plan_Content (ci_Approved input)))
         (pc_Declaration (plan_Content (ci_Approved input))) = Inr rechecked"
      "plan_Digest rechecked = plan_Digest (ci_Approved input)"
      "CommitAdoptionBatch (ce_commit ce) (batch_of input rechecked) c = (Inr result, c')"
      "r = Inr \<lparr>cmr_Result = result, cmr_Replayed = False\<rparr>"
proof (cases "BuildPlan (ci_Reader input) (ci_Prober input) (pc_PublicBaseURL (plan_Content (ci_Approved input)))
         (pc_Declaration (plan_Content (ci_Approved input)))")
  case (Inl e)
  then show ?thesis using assms refused by (auto simp: recheck_commit_def Let_def)
next
  case (Inr rechecked)
  show ?thesis
  proof (cases "plan_Digest rechecked = plan_Digest (ci_Approved input)")
    case False
    then show ?thesis using assms Inr refused by (auto simp: recheck_commit_def Let_def)
  next
    case same: True
    obtain b d where bd: "CommitAdoptionBatch (ce_commit ce) (batch_of input rechecked) c = (b, d)" by fastforce
    show ?thesis
    proof (cases b)
      case (Inl e)
      then have "d = c" using bd run_tx_Inl unfolding CommitAdoptionBatch_def by metis
      then show ?thesis using assms Inr same bd Inl refused by (auto simp: recheck_commit_def Let_def)
    next
      case b: (Inr result)
      show ?thesis
        by (rule committed [OF Inr same]) (use assms Inr same bd b in \<open>auto simp: recheck_commit_def Let_def\<close>)
    qed
  qed
qed

text \<open>The three ways a commit can go: refused, answered from its record, committed.\<close>

lemma Commit_cases:
  assumes "Commit ce input c = (r, c')"
  obtains (refused) err where "r = Inl err" "c' = c"
  | (replayed) rc where "precheck input = None"
      "FindOperation (ce_find ce) (ci_OperationID input) c = Inr (Some rc)"
      "or_RequestHash rc = RequestHash (ci_OperationID input) (plan_Digest (ci_Approved input))"
      "r = replay rc" "c' = c"
  | (committed) rechecked result where "precheck input = None"
      "FindOperation (ce_find ce) (ci_OperationID input) c = Inr None"
      "BuildPlan (ci_Reader input) (ci_Prober input) (pc_PublicBaseURL (plan_Content (ci_Approved input)))
         (pc_Declaration (plan_Content (ci_Approved input))) = Inr rechecked"
      "plan_Digest rechecked = plan_Digest (ci_Approved input)"
      "CommitAdoptionBatch (ce_commit ce) (batch_of input rechecked) c = (Inr result, c')"
      "r = Inr \<lparr>cmr_Result = result, cmr_Replayed = False\<rparr>"
proof (cases "precheck input \<noteq> None \<or> ce_lock ce \<noteq> None \<or> ce_open ce \<noteq> None")
  case True
  then show ?thesis using assms refused by (auto simp: Commit_def split: option.splits)
next
  case False
  then have pre: "precheck input = None" and lc: "locked_commit ce input c = (r, c')"
    using assms by (simp_all add: Commit_def)
  show ?thesis
  proof (cases "FindOperation (ce_find ce) (ci_OperationID input) c")
    case (Inl e)
    then show ?thesis using lc refused by (auto simp: locked_commit_def)
  next
    case found: (Inr f)
    show ?thesis
    proof (cases f)
      case None
      then have "recheck_commit ce input c = (r, c')" using lc found by (simp add: locked_commit_def)
      then show ?thesis using refused committed [OF pre found [unfolded None]] by (cases rule: recheck_commit_cases) blast+
    next
      case (Some rc)
      then show ?thesis
        using lc found refused replayed [OF pre found [unfolded Some]] by (auto simp: locked_commit_def split: if_splits)
    qed
  qed
qed

lemma Commit_Inl: "Commit ce input c = (Inl err, c') \<Longrightarrow> c' = c"
  by (erule Commit_cases) auto

section \<open>The adopted batch of a plan\<close>

text \<open>Adding a publication keeps the batch complete, its prefixes distinct and adds one path.\<close>

lemma add_planned_facts:
  "mset (concat (map aj_Publications (add_planned p js))) = add_mset (adoptPublication p) (mset (concat (map aj_Publications js)))"
  "aj_Prefix ` set (add_planned p js) = insert (prj_Prefix (plb_Project p)) (aj_Prefix ` set js)"
  "distinct (map aj_Prefix js) \<Longrightarrow> distinct (map aj_Prefix (add_planned p js))"
  "list_all (\<lambda>j. aj_Publications j \<noteq> []) js \<Longrightarrow> list_all (\<lambda>j. aj_Publications j \<noteq> []) (add_planned p js)"
  "mset (concat (map offered_project (add_planned p js)))
     = add_mset (offered (prj_Prefix (plb_Project p)) (adoptPublication p)) (mset (concat (map offered_project js)))"
proof -
  show pre: "aj_Prefix ` set (add_planned p js) = insert (prj_Prefix (plb_Project p)) (aj_Prefix ` set js)" for js
    by (induction js) auto
  show "distinct (map aj_Prefix js) \<Longrightarrow> distinct (map aj_Prefix (add_planned p js))"
    by (induction js) (auto simp: pre)
qed (induction js; simp add: offered_project_def)+

definition grouped :: "planned_publication list \<Rightarrow> adopted_project list" where
  "grouped ps = foldl (\<lambda>js p. add_planned p js) [] ps"

lemma grouped_snoc: "grouped (ps @ [p]) = add_planned p (grouped ps)"
  by (simp add: grouped_def)

lemma grouped_facts:
  "mset (concat (map aj_Publications (grouped ps))) = mset (map adoptPublication ps)"
  "aj_Prefix ` set (grouped ps) = (\<lambda>p. prj_Prefix (plb_Project p)) ` set ps"
  "distinct (map aj_Prefix (grouped ps))"
  "list_all (\<lambda>j. aj_Publications j \<noteq> []) (grouped ps)"
  "mset (concat (map offered_project (grouped ps)))
     = mset (map (\<lambda>p. offered (prj_Prefix (plb_Project p)) (adoptPublication p)) ps)"
  by (induction ps rule: rev_induct) (simp_all add: grouped_def add_planned_facts)

lemma adoptProjects_grouped: "adoptProjects ps = sort_key aj_Prefix (grouped ps)"
  by (simp add: adoptProjects_def grouped_def)

lemma concat_sort_mset:
  "mset (concat (map f (sort_key k xs))) = mset (concat (map f xs))"
  using sum_list_sort_key [of "\<lambda>x. mset (f x)" k xs] by (simp add: mset_concat o_def)

text \<open>The abstract effect: the offered publications of the plan, each under its declared prefix.\<close>

lemma offered_adoptProjects:
  "mset (concat (map offered_project (normal_form (adoptProjects ps))))
     = mset (map (\<lambda>p. offered (prj_Prefix (plb_Project p)) (adoptPublication p)) ps)"
  unfolding offered_normal_form by (simp add: adoptProjects_grouped concat_sort_mset grouped_facts)

lemma batch_paths_publications: "batch_paths js = map ap_Path (concat (map aj_Publications js))"
  by (induction js) (simp_all add: batch_paths_def)

lemma batch_paths_adoptProjects:
  "mset (batch_paths (adoptProjects ps)) = mset (map plb_Path ps)"
proof -
  have "mset (concat (map aj_Publications (adoptProjects ps))) = mset (map adoptPublication ps)"
    by (simp add: adoptProjects_grouped concat_sort_mset grouped_facts)
  then have "mset (map ap_Path (concat (map aj_Publications (adoptProjects ps)))) = mset (map ap_Path (map adoptPublication ps))"
    by (simp only: mset_map)
  moreover have "map ap_Path (map adoptPublication ps) = map plb_Path ps" by (simp add: adoptPublication_def)
  ultimately show ?thesis by (simp only: batch_paths_publications)
qed

lemma publications_adoptProjects:
  "set (concat (map aj_Publications (adoptProjects ps))) = adoptPublication ` set ps"
proof -
  have "mset (concat (map aj_Publications (adoptProjects ps))) = mset (map adoptPublication ps)"
    by (simp add: adoptProjects_grouped concat_sort_mset grouped_facts)
  then have "set (concat (map aj_Publications (adoptProjects ps))) = set (map adoptPublication ps)"
    by (rule mset_eq_setD)
  then show ?thesis by simp
qed

lemma well_formed_adoptProjects:
  assumes "ps \<noteq> []" and "distinct (map plb_Path ps)"
    and "\<And>p. p \<in> set ps \<Longrightarrow> prj_Prefix (plb_Project p) \<noteq> [] \<and> plb_Path p \<noteq> [] \<and> plb_Objects p \<noteq> []"
  shows "well_formed_batch (adoptProjects ps)"
proof -
  have "distinct (batch_paths (adoptProjects ps))"
    using assms(2) mset_eq_imp_distinct_iff [OF batch_paths_adoptProjects [of ps]] by simp
  moreover have "distinct (map aj_Prefix (adoptProjects ps))" by (simp add: adoptProjects_grouped grouped_facts)
  moreover have "adoptProjects ps \<noteq> []"
  proof
    assume "adoptProjects ps = []"
    then have "set ps = {}" using publications_adoptProjects [of ps] by simp
    with assms(1) show False by simp
  qed
  moreover have "complete_project j" if j: "j \<in> set (adoptProjects ps)" for j
  proof -
    have "aj_Prefix j \<in> (\<lambda>p. prj_Prefix (plb_Project p)) ` set ps"
      using j grouped_facts(2) [of ps] by (auto simp: adoptProjects_grouped)
    then obtain p where "p \<in> set ps" "aj_Prefix j = prj_Prefix (plb_Project p)" by blast
    then have 1: "aj_Prefix j \<noteq> []" using assms(3) [of p] by simp
    have 2: "aj_Publications j \<noteq> []"
      using j grouped_facts(4) [of ps] by (simp add: adoptProjects_grouped list_all_iff)
    have "complete_publication q" if "q \<in> set (aj_Publications j)" for q
    proof -
      have "q \<in> adoptPublication ` set ps"
        using that j publications_adoptProjects [of ps] by auto
      then obtain p where "p \<in> set ps" "q = adoptPublication p" by auto
      then show ?thesis using assms(3) by (simp add: complete_publication_def adoptPublication_def adoptObjects_def)
    qed
    with 1 2 show ?thesis by (simp add: complete_project_def list_all_iff)
  qed
  ultimately show ?thesis by (simp add: well_formed_batch_def list_all_iff)
qed

section \<open>The effect, the replay and the liveness of a commit\<close>

text \<open>What the operator approved and what the recheck saw have one encoding, or SHA-256 collides on them.\<close>

definition same_or_collision :: "plan_content \<Rightarrow> plan_content \<Rightarrow> bool" where
  "same_or_collision a b \<longleftrightarrow> Marshal (json_of_content a) = Marshal (json_of_content b) \<or>
     collision (Marshal (json_of_content a)) (Marshal (json_of_content b))"

lemma Digest_eq: "Digest a = Digest b \<longleftrightarrow> same_or_collision a b"
  by (simp add: Digest_def sha256_hex_eq same_or_collision_def)

lemma Plan_Verify_None: "Plan_Verify p = None \<longleftrightarrow> plan_Digest p = Digest (plan_Content p)"
  by (auto simp: Plan_Verify_def Let_def)

lemma precheck_None:
  "precheck input = None \<longleftrightarrow>
     plan_Digest (ci_Approved input) = Digest (plan_Content (ci_Approved input)) \<and>
     valid_batch (pc_Declaration (plan_Content (ci_Approved input))) \<and> ci_OperationID input \<noteq> [] \<and>
     ci_Reader input \<noteq> None \<and> ci_Prober input \<noteq> None \<and>
     (ci_ExpectedPublicBaseURL input = [] \<or>
      ci_ExpectedPublicBaseURL input = pc_PublicBaseURL (plan_Content (ci_Approved input)))"
  by (auto simp: precheck_def Let_def Plan_Verify_None validation_iff)

definition offered_plan :: "planned_publication list \<Rightarrow> accepted_publication list" where
  "offered_plan ps = map (\<lambda>p. offered (prj_Prefix (plb_Project p)) (adoptPublication p)) ps"

lemma Commit_committed:
  assumes "Commit ce input c = (Inr \<lparr>cmr_Result = r, cmr_Replayed = False\<rparr>, c')" and "consistent c"
  obtains rechecked where
    "BuildPlan (ci_Reader input) (ci_Prober input) (pc_PublicBaseURL (plan_Content (ci_Approved input)))
       (pc_Declaration (plan_Content (ci_Approved input))) = Inr rechecked"
    "same_or_collision (plan_Content rechecked) (plan_Content (ci_Approved input))"
    "consistent c'"
    "mset (accepted c') = mset (accepted c) + mset (offered_plan (pc_Publications (plan_Content rechecked)))"
    "adoption_operations c' = adoption_operations c @ [operation_row_of (ce_commit ce) (batch_of input rechecked) r]"
    "ci_OperationID input \<notin> op_operation_id ` set (adoption_operations c)"
    "CommitAdoptionBatch (ce_commit ce) (batch_of input rechecked) c = (Inr r, c')"
  using assms(1)
proof (cases rule: Commit_cases)
  case refused
  then show ?thesis by simp
next
  case (replayed rc)
  then show ?thesis by (auto simp: replay_def split: option.splits)
next
  case (committed rechecked result)
  have r: "CommitAdoptionBatch (ce_commit ce) (batch_of input rechecked) c = (Inr r, c')" using committed(5,6) by simp
  then have cb: "commit_batch (ce_commit ce) (batch_of input rechecked) c = Inr (r, c')"
    by (simp add: CommitAdoptionBatch_def run_tx_Inr)
  have same: "same_or_collision (plan_Content rechecked) (plan_Content (ci_Approved input))"
    using committed(1,3,4) by (auto simp: precheck_None Digest_eq [symmetric] elim: BuildPlan_Inr)
  from commit_batch_Inr [OF cb assms(2)] obtain js where
    js: "normalizeBatchProjects (bi_Projects (batch_of input rechecked)) = Inr js"
    and acc: "accepted c' = accepted c @ concat (map offered_project js)" and cons: "consistent c'"
    and ops: "adoption_operations c' = adoption_operations c @ [operation_row_of (ce_commit ce) (batch_of input rechecked) r]"
    and new: "ci_OperationID input \<notin> op_operation_id ` set (adoption_operations c)"
    by (auto simp: batch_of_def)
  have "js = normal_form (adoptProjects (pc_Publications (plan_Content rechecked)))"
    using js by (simp add: normalizeBatchProjects_Inr batch_of_def)
  then have "mset (accepted c') = mset (accepted c) + mset (offered_plan (pc_Publications (plan_Content rechecked)))"
    using acc offered_adoptProjects by (simp add: offered_plan_def)
  then show ?thesis using that [OF committed(3) same cons _ ops new r] by blast
qed

lemma FindOperation_committed:
  assumes "adoption_operations c' = adoption_operations c @ [operation_row_of e input r]"
    and "bi_OperationID input \<notin> op_operation_id ` set (adoption_operations c)" and "\<not> env_fault e' 0"
  shows "FindOperation e' (bi_OperationID input) c' = Inr (Some
    \<lparr>or_OperationID = bi_OperationID input, or_RequestHash = bi_RequestHash input,
     or_PlanDigest = bi_PlanDigest input, or_ResultJSON = Marshal (json_of_result r)\<rparr>)"
proof -
  have "find (\<lambda>q. op_operation_id q = bi_OperationID input) (adoption_operations c) = None"
    using assms(2) by (simp add: find_None_iff) (metis image_eqI)
  then show ?thesis
    using assms(1,3) by (simp add: FindOperation_def query_db_def find_append_case operation_row_of_def)
qed

text \<open>Strings of a result: the operation ID, declared prefixes and paths, and drawn identities.\<close>

definition result_utf8 :: "adoption_result \<Rightarrow> bool" where
  "result_utf8 r \<longleftrightarrow> valid_json (json_of_result r)"

lemma replay_committed:
  assumes "counts_ok r" and "result_utf8 r"
  shows "replay \<lparr>or_OperationID = i, or_RequestHash = h, or_PlanDigest = d, or_ResultJSON = Marshal (json_of_result r)\<rparr>
    = Inr \<lparr>cmr_Result = r, cmr_Replayed = True\<rparr>"
  using assms by (simp add: replay_def result_utf8_def results.reads_exactly)

lemma Commit_replays:
  assumes "Commit ce input c = (Inr \<lparr>cmr_Result = r, cmr_Replayed = False\<rparr>, c')" and "consistent c"
    and "counts_ok r" and "result_utf8 r"
    and pre: "precheck input' = None" and op: "ci_OperationID input' = ci_OperationID input"
    and env: "ce_lock ce' = None" "ce_open ce' = None" "\<not> env_fault (ce_find ce') 0"
  shows "Commit ce' input' c' =
     (if RequestHash (ci_OperationID input) (plan_Digest (ci_Approved input'))
         = RequestHash (ci_OperationID input) (plan_Digest (ci_Approved input))
      then (Inr \<lparr>cmr_Result = r, cmr_Replayed = True\<rparr>, c')
      else (Inl (Errorf ''operation ID %q was already used with different content'' [ci_OperationID input]), c'))"
proof -
  from Commit_committed [OF assms(1,2)] obtain rechecked where
    ops: "adoption_operations c' = adoption_operations c @ [operation_row_of (ce_commit ce) (batch_of input rechecked) r]"
    and new: "ci_OperationID input \<notin> op_operation_id ` set (adoption_operations c)" by metis
  have "FindOperation (ce_find ce') (ci_OperationID input) c' = Inr (Some
    \<lparr>or_OperationID = ci_OperationID input,
     or_RequestHash = RequestHash (ci_OperationID input) (plan_Digest (ci_Approved input)),
     or_PlanDigest = plan_Digest (ci_Approved input), or_ResultJSON = Marshal (json_of_result r)\<rparr>)"
    using FindOperation_committed [OF ops _ env(3)] new by (simp add: batch_of_def)
  then show ?thesis
    using pre env op by (simp add: Commit_def locked_commit_def replay_committed [OF assms(3,4)])
qed

section \<open>Commit as an operation of the store\<close>

interpretation committing: catalog_operation "\<lambda>(ce, input). Commit ce input"
proof unfold_locales
  fix i :: "commit_env \<times> commit_input" and c c' :: catalog and x :: commit_result and err :: error
  obtain ce input where i: "i = (ce, input)" by (cases i)
  show "c' = c" if "(case i of (ce, input) \<Rightarrow> Commit ce input) c = (Inl err, c')"
    using that by (auto simp: i dest: Commit_Inl)
  assume "(case i of (ce, input) \<Rightarrow> Commit ce input) c = (Inr x, c')" and cons: "consistent c"
  then have r: "Commit ce input c = (Inr x, c')" by (simp add: i)
  have "consistent c' \<and> extends c c'"
    using r
  proof (cases rule: Commit_cases)
    case (committed rechecked result)
    then show ?thesis
      using adoption.keeps [of "(ce_commit ce, batch_of input rechecked)" c result c']
        adoption.adds [of "(ce_commit ce, batch_of input rechecked)" c result c'] cons by simp
  qed (use cons in simp_all)
  then show "consistent c'" "extends c c'" by blast+
qed

end
