(* ===== verification/End_To_End.thy ===== *)
theory End_To_End
  imports Scan Adoption_Commit
begin

text \<open>
  Adoption and observation together. When storage answers steadily - the listing, the reads and the
  metadata requests agree on every object - a first adoption that commits is followed by scans that find
  every Publication in sync, no unclaimed key and no mutation lock: what planning recorded and the
  catalog stored, through RFC 3339 texts and JSON columns, is what the comparison expects.
\<close>

section \<open>Steady storage\<close>

definition settled :: "reader \<Rightarrow> object_listing \<Rightarrow> bool" where
  "settled rd l \<longleftrightarrow> (\<exists>content meta. ReadObject rd (ol_Key l) = Inr content \<and> StatObject rd (ol_Key l) = Inr meta \<and>
     oc_Size content = ol_Size l \<and> oc_ETag content = ol_ETag l \<and> om_ETag meta = ol_ETag l \<and>
     om_LastModified meta = modified_of l content \<and> second \<le> modified_of l content \<and> year_ok (modified_of l content) \<and>
     om_ContentType meta = oc_ContentType content \<and> om_ContentEncoding meta = oc_ContentEncoding content \<and>
     om_CacheControl meta = oc_CacheControl content \<and> map_ok (oc_UserMetadata content) \<and>
     map_utf8 (oc_UserMetadata content) \<and> map_ok (om_UserMetadata meta) \<and>
     same_map (om_UserMetadata meta) (oc_UserMetadata content))"

definition steady :: "reader \<Rightarrow> bool" where
  "steady rd \<longleftrightarrow> (\<exists>listing. ListObjects rd = Inr listing \<and> distinct (map ol_Key listing) \<and> list_all (settled rd) listing)"

section \<open>One object\<close>

lemma metadata_reads_back:
  assumes "map_ok m" and "map_utf8 m"
  shows "\<exists>d. decode_metadata (Marshal (json_of_map (metadataOrEmpty m))) = Some d \<and> map_ok d \<and> same_map d m"
proof -
  let ?m = "metadataOrEmpty m"
  have m: "entries ?m = entries m" by (simp add: metadataOrEmpty_def entries_def split: option.split)
  then have ok: "map_ok ?m" "map_utf8 ?m" using assms by (simp_all add: map_ok_def map_utf8_def)
  have "map_ok (map_option (sort_key fst) ?m)"
    using ok(1) by (cases ?m) (simp_all add: map_ok_def entries_def)
  moreover have "same_map (map_option (sort_key fst) ?m) m"
    using same_map_sorted [OF ok(1)] m by (simp add: same_map_def)
  ultimately show ?thesis
    using metadata.decodes [of ?m] ok by (auto simp: decode_metadata_def)
qed

lemma recorded_time_within:
  assumes "second \<le> t" and "year_ok t"
  shows "\<exists>u. ParseRFC3339 (FormatRFC3339 t) = Some u \<and> withinTolerance t u"
proof -
  let ?u = "t div second * second"
  have d: "0 \<le> t - ?u" "t - ?u < second" by (rule trunc_second)+
  have "1 \<le> t div second" using assms(1) by (simp add: second_def pos_imp_zdiv_pos_iff zdiv_mono1 [of 1000000000 t 1000000000, simplified])
  then have "?u \<noteq> 0" by (simp add: second_def)
  moreover have "t \<noteq> 0" using assms(1) by (simp add: second_def)
  moreover have "\<bar>t - ?u\<bar> \<le> max_duration" using d by (simp add: second_def max_duration_def)
  ultimately have "withinTolerance t ?u" using withinTolerance_near d by simp
  then show ?thesis using timestamps.decodes [OF assms(2)] by blast
qed

text \<open>A manifest object that carries a planned object of steady storage is unchanged.\<close>

definition carries :: "manifest_object \<Rightarrow> planned_object \<Rightarrow> bool" where
  "carries a ob \<longleftrightarrow> mo_Key a = plo_Key ob \<and> mo_Size a = plo_Size ob \<and> mo_ETag a = plo_ETag ob \<and>
     mo_ModifiedAt a = plo_ModifiedAt ob \<and> mo_ContentType a = plo_ContentType ob \<and>
     mo_ContentEncoding a = plo_ContentEncoding ob \<and> mo_CacheControl a = plo_CacheControl ob \<and>
     mo_SHA256 a = plo_SHA256 ob \<and>
     decode_metadata (Marshal (json_of_map (plo_UserMetadata ob))) = Some (mo_UserMetadata a)"

lemma carried_unchanged:
  assumes l: "ListObjects rd = Inr listing" "list_all (settled rd) listing"
    and ob: "planned_as rd (index_by ol_Key listing) path key ob" and a: "carries a ob"
  shows "unchanged rd (index_by ol_Key listing) a \<and> same_bytes rd a"
proof -
  from ob obtain x content where x: "index_by ol_Key listing key = Some x"
    and content: "ReadObject rd key = Inr content"
    and ob': "ob = planned_object_of path key content (modified_of x content)" by (auto simp: planned_as_def)
  from index_by_Some [OF x] have "x \<in> set listing" and key: "ol_Key x = key" by simp_all
  with l(2) have "settled rd x" by (simp add: list_all_iff)
  then obtain meta where meta: "StatObject rd key = Inr meta"
    "oc_Size content = ol_Size x" "oc_ETag content = ol_ETag x" "om_ETag meta = ol_ETag x"
    "om_LastModified meta = modified_of x content" "second \<le> modified_of x content" "year_ok (modified_of x content)"
    "om_ContentType meta = oc_ContentType content" "om_ContentEncoding meta = oc_ContentEncoding content"
    "om_CacheControl meta = oc_CacheControl content" "map_ok (oc_UserMetadata content)"
    "map_utf8 (oc_UserMetadata content)" "map_ok (om_UserMetadata meta)"
    "same_map (om_UserMetadata meta) (oc_UserMetadata content)"
    using content key by (auto simp: settled_def)
  from recorded_time_within [OF meta(6,7)] obtain u where
    u: "ParseRFC3339 (FormatRFC3339 (modified_of x content)) = Some u" "withinTolerance (modified_of x content) u" by blast
  from metadata_reads_back [OF meta(11,12)] obtain d where
    d: "decode_metadata (Marshal (json_of_map (metadataOrEmpty (oc_UserMetadata content)))) = Some d"
    "map_ok d" "same_map d (oc_UserMetadata content)" by blast
  have "sameEntries (om_UserMetadata meta) d"
    using d(2,3) meta(13,14) by (simp add: sameEntries_same_map same_map_def)
  then have "unchanged rd (index_by ol_Key listing) a"
    unfolding unchanged_def
    by (intro exI [of _ x] exI [of _ meta] exI [of _ u])
      (use a x meta u d in \<open>simp add: carries_def ob' planned_object_of_def\<close>)
  moreover have "same_bytes rd a"
    using a content by (simp add: same_bytes_def carries_def ob' planned_object_of_def)
  ultimately show ?thesis by blast
qed

section \<open>The catalog after a first adoption\<close>

text \<open>Every row of a current manifest is one planned object, and every planned object is such a row.\<close>

lemma accepted_rows:
  assumes "p \<in> set (publications c)" and "pub_current_manifest_id p = Some m"
  shows "set (map anonymous (manifest_rows c p)) = set (acc_objects (accepted_of c p))"
  using assms by (simp add: manifest_rows_def accepted_of_def manifest_of_def)

lemma set_manifest_rows:
  "set (map anonymous (manifest_rows c p)) = set (acc_objects (accepted_of c p))"
  by (simp add: manifest_rows_def accepted_of_def manifest_of_def)

lemma row_of_adopted:
  assumes "anonymous r = object_row_of [] (adoptObject ob)"
    and "decode_metadata (Marshal (json_of_map (plo_UserMetadata ob))) = Some d"
  shows "carries (manifest_object_of r d) ob" and "obj_key r = plo_Key ob"
    and "obj_user_metadata r = Marshal (json_of_map (plo_UserMetadata ob))"
proof -
  have "obj_key r = obj_key (anonymous r)" "obj_size r = obj_size (anonymous r)" "obj_etag r = obj_etag (anonymous r)"
    "obj_modified_at r = obj_modified_at (anonymous r)" "obj_content_type r = obj_content_type (anonymous r)"
    "obj_content_encoding r = obj_content_encoding (anonymous r)"
    "obj_cache_control r = obj_cache_control (anonymous r)"
    "obj_user_metadata r = obj_user_metadata (anonymous r)" "obj_sha256 r = obj_sha256 (anonymous r)"
    by (simp_all add: anonymous_def)
  note f = this [unfolded assms(1) object_row_of_def adoptObject_def, simplified]
  show "obj_key r = plo_Key ob" "obj_user_metadata r = Marshal (json_of_map (plo_UserMetadata ob))"
    using f by simp_all
  show "carries (manifest_object_of r d) ob"
    using f assms(2) by (simp add: carries_def manifest_object_of_def)
qed

definition planned_in :: "planned_publication list \<Rightarrow> planned_object \<Rightarrow> bool" where
  "planned_in ps ob \<longleftrightarrow> (\<exists>q \<in> set ps. ob \<in> set (plb_Objects q))"

lemma first_adoption_rows:
  assumes acc: "mset (accepted c) = mset (offered_plan ps)"
  shows "p \<in> set (publications c) \<Longrightarrow> r \<in> set (manifest_rows c p) \<Longrightarrow>
      \<exists>ob. planned_in ps ob \<and> anonymous r = object_row_of [] (adoptObject ob)"
    and "planned_in ps ob \<Longrightarrow> \<exists>p \<in> set (publications c). \<exists>r \<in> set (manifest_rows c p).
      anonymous r = object_row_of [] (adoptObject ob)"
proof -
  have sets: "accepted_of c ` set (publications c)
      = (\<lambda>p. offered (prj_Prefix (plb_Project p)) (adoptPublication p)) ` set ps"
    using mset_eq_setD [OF acc] by (simp add: accepted_def offered_plan_def)
  have objs: "acc_objects (offered x (adoptPublication q)) = map (\<lambda>ob. object_row_of [] (adoptObject ob)) (plb_Objects q)" for x q
    by (simp add: offered_def adoptPublication_def adoptObjects_def o_def)
  {
    assume p: "p \<in> set (publications c)" and r: "r \<in> set (manifest_rows c p)"
    have "accepted_of c p \<in> (\<lambda>p. offered (prj_Prefix (plb_Project p)) (adoptPublication p)) ` set ps"
      unfolding sets [symmetric] using p by (rule imageI)
    then obtain q where q: "q \<in> set ps" "accepted_of c p = offered (prj_Prefix (plb_Project q)) (adoptPublication q)"
      by blast
    have "anonymous r \<in> set (acc_objects (accepted_of c p))" using r set_manifest_rows [of c p] by auto
    then show "\<exists>ob. planned_in ps ob \<and> anonymous r = object_row_of [] (adoptObject ob)"
      using q by (auto simp: objs planned_in_def)
  }
  {
    assume "planned_in ps ob"
    then obtain q where q: "q \<in> set ps" "ob \<in> set (plb_Objects q)" by (auto simp: planned_in_def)
    have "offered (prj_Prefix (plb_Project q)) (adoptPublication q) \<in> accepted_of c ` set (publications c)"
      unfolding sets using q(1) by (rule imageI)
    then obtain p where p: "p \<in> set (publications c)"
      "accepted_of c p = offered (prj_Prefix (plb_Project q)) (adoptPublication q)"
      by (metis imageE)
    have "object_row_of [] (adoptObject ob) \<in> set (acc_objects (accepted_of c p))"
      using q(2) p(2) by (simp add: objs)
    then have "object_row_of [] (adoptObject ob) \<in> anonymous ` set (manifest_rows c p)"
      using set_manifest_rows [of c p] by simp
    then show "\<exists>p \<in> set (publications c). \<exists>r \<in> set (manifest_rows c p).
        anonymous r = object_row_of [] (adoptObject ob)"
      using p(1) by (metis imageE)
  }
qed

lemma no_publications_no_accepted: "publications c = [] \<Longrightarrow> accepted c = []"
  by (simp add: accepted_def)

lemma planned_objects_of_plan:
  assumes "list_all2 (published_as rd pb base observed) ds ps"
  shows "planned_in ps ob \<Longrightarrow> \<exists>path key. planned_as rd observed path key ob"
    and "k \<in> set (concat (map pd_Objects ds)) \<Longrightarrow> \<exists>ob. planned_in ps ob \<and> plo_Key ob = k"
proof -
  {
    assume "planned_in ps ob"
    then obtain q where q: "q \<in> set ps" "ob \<in> set (plb_Objects q)" by (auto simp: planned_in_def)
    with assms obtain p where "published_as rd pb base observed p q" by (metis in_set_conv_nth list_all2_conv_all_nth)
    then obtain obs where obs: "list_all2 (planned_as rd observed (pd_Path p)) (pd_Objects p) obs"
      "plb_Objects q = sort_key plo_Key obs" by (auto simp: published_as_def)
    from q(2) obs(2) have "ob \<in> set obs" by simp
    with obs(1) show "\<exists>path key. planned_as rd observed path key ob" by (metis in_set_conv_nth list_all2_conv_all_nth)
  }
  {
    assume "k \<in> set (concat (map pd_Objects ds))"
    then obtain p where p: "p \<in> set ds" "k \<in> set (pd_Objects p)" by auto
    with assms obtain q where q: "q \<in> set ps" "published_as rd pb base observed p q"
      by (metis in_set_conv_nth list_all2_conv_all_nth)
    have "k \<in> set (map plo_Key (plb_Objects q))" using published_as_keys [OF q(2)] p(2) by simp
    then show "\<exists>ob. planned_in ps ob \<and> plo_Key ob = k" using q(1) by (auto simp: planned_in_def)
  }
qed

section \<open>The scan after a first adoption\<close>

lemma claimed_spec:
  "set (claimed_keys (manifest_spec dec c)) = obj_key ` (\<Union>p \<in> set (publications c). set (manifest_rows c p))"
proof -
  have "set (claimed_keys (manifest_spec dec c)) = (\<Union>p \<in> set (with_objects c). obj_key ` set (manifest_rows c p))"
    by (auto simp: claimed_keys_def manifest_spec_def manifest_object_of_def)
  also have "\<dots> = obj_key ` (\<Union>p \<in> set (publications c). set (manifest_rows c p))"
    by (auto simp: with_objects_def)
  finally show ?thesis .
qed

lemma adopted_bucket_matches:
  assumes l: "ListObjects rd = Inr listing" "list_all (settled rd) listing"
    and keys: "ol_Key ` set listing = set (concat (map pd_Objects ds))"
    and plan: "list_all2 (published_as rd pb base (index_by ol_Key listing)) ds ps"
    and acc: "mset (accepted c) = mset (offered_plan ps)" and cons: "catalog_ok c" and e: "\<not> env_fault e 0"
  shows "\<exists>ms. AcceptedManifests e c = Inr ms \<and> bucket_matches rd listing ms complete \<and>
    set (map pm_Path ms) \<subseteq> set (map plb_Path ps)"
proof -
  let ?ob = "index_by ol_Key listing"
  define dec :: "object_row \<Rightarrow> str_map" where "dec = (\<lambda>r. the (decode_metadata (obj_user_metadata r)))"
  have row: "decode_metadata (obj_user_metadata r) = Some (dec r) \<and> unchanged rd ?ob (manifest_object_of r (dec r)) \<and>
      same_bytes rd (manifest_object_of r (dec r))"
    if p: "p \<in> set (publications c)" "r \<in> set (manifest_rows c p)" for p r
  proof -
    from first_adoption_rows(1) [OF acc p] obtain ob where
      ob: "planned_in ps ob" "anonymous r = object_row_of [] (adoptObject ob)" by blast
    from planned_objects_of_plan(1) [OF plan ob(1)] obtain path key where pa: "planned_as rd ?ob path key ob" by blast
    then obtain x content where x: "?ob key = Some x" "ReadObject rd key = Inr content"
      "ob = planned_object_of path key content (modified_of x content)" by (auto simp: planned_as_def)
    have "settled rd x" using l(2) index_by_Some [OF x(1)] by (simp add: list_all_iff)
    then have "map_ok (oc_UserMetadata content)" "map_utf8 (oc_UserMetadata content)"
      using x(2) index_by_Some [OF x(1)] by (auto simp: settled_def)
    from metadata_reads_back [OF this] obtain d where
      d: "decode_metadata (Marshal (json_of_map (plo_UserMetadata ob))) = Some d"
      by (auto simp: x(3) planned_object_of_def)
    note adopted = row_of_adopted [OF ob(2) d]
    have "dec r = d" using d by (simp add: dec_def adopted(3))
    then show ?thesis using carried_unchanged [OF l pa adopted(1)] d by (simp add: adopted(3))
  qed
  have ms: "AcceptedManifests e c = Inr (manifest_spec dec c)"
    by (rule AcceptedManifests_spec [OF cons e]) (use row in blast)
  have "ol_Key ` set listing \<subseteq> set (claimed_keys (manifest_spec dec c))"
  proof
    fix k assume "k \<in> ol_Key ` set listing"
    then have "k \<in> set (concat (map pd_Objects ds))" using keys by simp
    from planned_objects_of_plan(2) [OF plan this] obtain ob where ob: "planned_in ps ob" "plo_Key ob = k" by blast
    from first_adoption_rows(2) [OF acc ob(1)] obtain p r where
      r: "p \<in> set (publications c)" "r \<in> set (manifest_rows c p)" "anonymous r = object_row_of [] (adoptObject ob)" by blast
    have "obj_key r = obj_key (anonymous r)" by (simp add: anonymous_def)
    then have "obj_key r = k" using r(3) ob(2) by (simp add: object_row_of_def adoptObject_def)
    then show "k \<in> set (claimed_keys (manifest_spec dec c))" using r(1,2) unfolding claimed_spec by blast
  qed
  moreover have "list_all (\<lambda>m. pm_Objects m \<noteq> [] \<and>
      list_all (\<lambda>a. unchanged rd ?ob a \<and> (complete \<longrightarrow> same_bytes rd a)) (pm_Objects m)) (manifest_spec dec c)"
    using row by (auto simp: manifest_spec_def with_objects_def list_all_iff)
  moreover have "set (map pm_Path (manifest_spec dec c)) \<subseteq> set (map plb_Path ps)"
  proof -
    have "acc_path ` set (accepted c) = plb_Path ` set ps"
      using mset_eq_setD [OF acc] by (simp add: offered_plan_def offered_def adoptPublication_def image_image)
    moreover have "set (map pm_Path (manifest_spec dec c)) \<subseteq> acc_path ` set (accepted c)"
      by (auto simp: manifest_spec_def with_objects_def accepted_def accepted_of_def image_image)
    ultimately show ?thesis by simp
  qed
  ultimately show ?thesis using ms unfolding bucket_matches_def by blast
qed

text \<open>A first adoption that commits, and any scan of steady storage after it.\<close>

lemma first_adoption_scans_clean:
  assumes commit: "Commit ce input c = (Inr \<lparr>cmr_Result = r, cmr_Replayed = False\<rparr>, c')"
    and cons: "consistent c" and empty: "publications c = []"
    and rd: "ci_Reader input = Some rd" and st: "steady rd" and e: "\<not> env_fault e 0"
  shows "\<exists>ms s. AcceptedManifests e c' = Inr ms \<and> Scan rd ms now complete = Inr s \<and>
    sr_MutationLock s = LockNone \<and> sr_UnclaimedKeys s = [] \<and>
    list_all (\<lambda>p. ps_State p = StateInSync) (sr_Publications s)"
proof -
  from Commit_committed [OF commit cons] obtain rechecked where
    plan: "BuildPlan (ci_Reader input) (ci_Prober input) (pc_PublicBaseURL (plan_Content (ci_Approved input)))
       (pc_Declaration (plan_Content (ci_Approved input))) = Inr rechecked"
    and acc: "mset (accepted c') = mset (accepted c) + mset (offered_plan (pc_Publications (plan_Content rechecked)))"
    and cons': "consistent c'" by metis
  from BuildPlan_Inr [OF plan] obtain pb listing ds where
    l: "ListObjects rd = Inr listing" "ol_Key ` set listing = set (concat (map pd_Objects ds))"
    and ps: "list_all2 (published_as rd pb (pc_PublicBaseURL (plan_Content rechecked)) (index_by ol_Key listing))
       ds (pc_Publications (plan_Content rechecked))"
    using rd by (metis option.inject)
  have set: "list_all (settled rd) listing" using st l(1) by (auto simp: steady_def)
  have "mset (accepted c') = mset (offered_plan (pc_Publications (plan_Content rechecked)))"
    using acc no_publications_no_accepted [OF empty] by simp
  from adopted_bucket_matches [OF l(1) set l(2) ps this _ e, of complete] cons' obtain ms where
    ms: "AcceptedManifests e c' = Inr ms" "bucket_matches rd listing ms complete" by (auto simp: consistent_def)
  from Scan_matching [OF l(1) ms(2)] ms(1) show ?thesis by blast
qed

section \<open>A plan that was approved can be committed\<close>

text \<open>Planning again with the same storage and routes gives the approved plan, so the commit succeeds.\<close>

lemma published_storable:
  assumes "published_as rd pb base observed p q" and "valid_publication p"
    and sizes: "\<And>k content. ReadObject rd k = Inr content \<Longrightarrow> \<not> negative (oc_Size content)"
  shows "storable (adoptPublication q) \<and> plb_Objects q \<noteq> [] \<and> plb_Path q \<noteq> [] \<and> prj_Prefix (plb_Project q) \<noteq> []"
proof -
  note keys = published_as_keys [OF assms(1)] and path = published_as_path [OF assms(1)]
  from assms(1) obtain obs where obs: "list_all2 (planned_as rd observed (pd_Path p)) (pd_Objects p) obs"
    "plb_Objects q = sort_key plo_Key obs" "plb_RoutingMode q = pd_RoutingMode p" by (auto simp: published_as_def)
  have "\<not> negative (plo_Size ob)" if "ob \<in> set (plb_Objects q)" for ob
  proof -
    from that obs(2) have "ob \<in> set obs" by simp
    with obs(1) obtain k where "planned_as rd observed (pd_Path p) k ob" by (metis in_set_conv_nth list_all2_conv_all_nth)
    then show ?thesis using sizes by (auto simp: planned_as_def planned_object_of_def)
  qed
  moreover have "distinct (map plo_Key (plb_Objects q))"
    using assms(2) by (simp add: keys valid_publication_def)
  moreover have "ao_Key \<circ> adoptObject = plo_Key" "\<And>ob. ao_Size (adoptObject ob) = plo_Size ob"
    by (auto simp: adoptObject_def)
  moreover have "pd_RoutingMode p \<in> set routing_modes"
    using assms(2) by (auto simp: valid_publication_def valid_mode_def routing_modes_def
        RoutingExactFile_def RoutingDirectoryIndex_def RoutingFallback_def)
  ultimately have "storable (adoptPublication q)"
    by (auto simp: storable_def storable_objects_def adoptPublication_def list_all_iff obs(3) adoptObjects_def)
  moreover have "pd_Objects p \<noteq> []" using assms(2) by (auto simp: valid_publication_def)
  then have "sort (pd_Objects p) \<noteq> []" by (metis set_empty set_sort)
  then have "plb_Objects q \<noteq> []" using keys by auto
  moreover have "prj_Prefix (plb_Project q) \<noteq> []"
    using assms(2) path by (simp add: valid_publication_def valid_prefix_def)
  moreover have "pd_Path p \<noteq> []"
    using assms(2) by (auto simp: valid_publication_def valid_prefix_def valid_path_def)
  ultimately show ?thesis using path by simp
qed

text \<open>What planning again must see: the same answers, and a base URL that normalises to itself.\<close>

lemma planned_batch:
  assumes plan: "BuildPlan (Some rd) (Some pb) url d = Inr pl"
    and sizes: "\<And>k content. ReadObject rd k = Inr content \<Longrightarrow> \<not> negative (oc_Size content)"
  shows "well_formed_batch (adoptProjects (pc_Publications (plan_Content pl)))"
    and "list_all (\<lambda>j. list_all storable (aj_Publications j)) (adoptProjects (pc_Publications (plan_Content pl)))"
    and "map plb_Path (pc_Publications (plan_Content pl)) = map pd_Path (dc_Publications d)"
    and "set (map (\<lambda>q. prj_Prefix (plb_Project q)) (pc_Publications (plan_Content pl)))
       = set (map (\<lambda>p. prj_Prefix (pd_Project p)) (dc_Publications d))"
proof -
  let ?ps = "pc_Publications (plan_Content pl)"
  from BuildPlan_Inr [OF plan] obtain listing where d: "valid_batch d"
    and ps: "list_all2 (published_as rd pb (pc_PublicBaseURL (plan_Content pl)) (index_by ol_Key listing)) (dc_Publications d) ?ps"
    by (metis option.inject)
  have valid: "valid_publication p" if "p \<in> set (dc_Publications d)" for p using d that by (simp add: valid_batch_def)
  have facts: "storable (adoptPublication q) \<and> plb_Objects q \<noteq> [] \<and> plb_Path q \<noteq> [] \<and> prj_Prefix (plb_Project q) \<noteq> []"
    if "q \<in> set ?ps" for q
  proof -
    from that ps obtain p where p: "p \<in> set (dc_Publications d)"
      "published_as rd pb (pc_PublicBaseURL (plan_Content pl)) (index_by ol_Key listing) p q"
      by (metis in_set_conv_nth list_all2_conv_all_nth)
    show ?thesis by (rule published_storable [OF p(2) valid [OF p(1)]]) (rule sizes)
  qed
  have maps: "map plb_Path ?ps = map pd_Path (dc_Publications d) \<and>
      map (\<lambda>q. prj_Prefix (plb_Project q)) ?ps = map (\<lambda>p. prj_Prefix (pd_Project p)) (dc_Publications d)"
    using ps by (induction rule: list_all2_induct) (auto dest: published_as_path)
  then show "map plb_Path ?ps = map pd_Path (dc_Publications d)" by blast
  show "set (map (\<lambda>q. prj_Prefix (plb_Project q)) ?ps) = set (map (\<lambda>p. prj_Prefix (pd_Project p)) (dc_Publications d))"
    using maps by simp
  have "?ps \<noteq> []" using maps d by (auto simp: valid_batch_def)
  moreover have "distinct (map plb_Path ?ps)" using maps d by (simp add: valid_batch_def unambiguous_paths_def)
  ultimately show "well_formed_batch (adoptProjects ?ps)" using facts by (intro well_formed_adoptProjects) auto
  have "storable x" if "x \<in> set (concat (map aj_Publications (adoptProjects ?ps)))" for x
  proof -
    from that obtain q where "q \<in> set ?ps" "x = adoptPublication q" unfolding publications_adoptProjects by blast
    then show ?thesis using facts by simp
  qed
  then show "list_all (\<lambda>j. list_all storable (aj_Publications j)) (adoptProjects ?ps)"
    by (auto simp: list_all_iff)
qed

text \<open>The environment's part: nothing fails, and the identities it draws are new and different.\<close>

definition willing :: "commit_env \<Rightarrow> nat \<Rightarrow> catalog \<Rightarrow> bool" where
  "willing ce n c \<longleftrightarrow> ce_lock ce = None \<and> ce_open ce = None \<and> \<not> env_fault (ce_find ce) 0 \<and>
     no_faults (ce_commit ce) \<and> different_draws (ce_commit ce) n \<and> fresh_from (ce_commit ce) 0 n c"

lemma Commit_succeeds:
  assumes plan: "BuildPlan (Some rd) (Some pb) url d = Inr pl"
    and again: "NormalizePublicBaseURL (pc_PublicBaseURL (plan_Content pl)) = Inr (pc_PublicBaseURL (plan_Content pl))"
    and sizes: "\<And>k content. ReadObject rd k = Inr content \<Longrightarrow> \<not> negative (oc_Size content)"
    and input: "input = \<lparr>ci_Reader = Some rd, ci_Prober = Some pb, ci_Approved = pl, ci_OperationID = opid,
      ci_ExpectedPublicBaseURL = []\<rparr>" and "opid \<noteq> []"
    and cons: "consistent c" and new: "opid \<notin> op_operation_id ` set (adoption_operations c)"
    and prefixes: "set (map (\<lambda>p. prj_Prefix (pd_Project p)) (dc_Publications d)) \<inter> prw_prefix ` set (projects c) = {}"
    and paths: "set (map pd_Path (dc_Publications d)) \<inter> pub_path ` set (publications c) = {}"
    and env: "willing ce (draws_batch (adoptProjects (pc_Publications (plan_Content pl)))) c"
  shows "\<exists>r c'. Commit ce input c = (Inr \<lparr>cmr_Result = r, cmr_Replayed = False\<rparr>, c')"
proof -
  let ?content = "plan_Content pl"
  let ?js = "adoptProjects (pc_Publications ?content)"
  from BuildPlan_Inr [OF plan] have pl: "NormalizePublicBaseURL url = Inr (pc_PublicBaseURL ?content)"
    "pc_Declaration ?content = d" "plan_Digest pl = Digest ?content" "valid_batch d" by metis+
  have recheck: "BuildPlan (Some rd) (Some pb) (pc_PublicBaseURL ?content) d = Inr pl"
    using plan again pl(1) by (simp add: BuildPlan_def)
  note batch = planned_batch [OF plan sizes]
  have bp: "set (batch_paths ?js) = set (map pd_Path (dc_Publications d))"
    using mset_eq_setD [OF batch_paths_adoptProjects [of "pc_Publications ?content"]] batch(3) by simp
  have pf: "aj_Prefix ` set ?js = set (map (\<lambda>p. prj_Prefix (pd_Project p)) (dc_Publications d))"
    using grouped_facts(2) [of "pc_Publications ?content"] batch(4) by (simp add: adoptProjects_grouped)
  have "adoptable (ce_commit ce) (batch_of input pl) c"
    using batch(1,2) bp pf prefixes paths new env \<open>opid \<noteq> []\<close>
    by (simp add: adoptable_def Let_def batch_of_def input willing_def)
  then obtain r c' where cm: "CommitAdoptionBatch (ce_commit ce) (batch_of input pl) c = (Inr r, c')"
    using CommitAdoptionBatch_succeeds [OF _ cons, of "ce_commit ce" "batch_of input pl"] env
    by (auto simp: willing_def)
  have pre: "precheck input = None" using pl \<open>opid \<noteq> []\<close> by (simp add: precheck_None input)
  have "find (\<lambda>r. op_operation_id r = opid) (adoption_operations c) = None"
    using new by (simp add: find_None_iff) (metis image_eqI)
  then have "FindOperation (ce_find ce) opid c = Inr None"
    using env by (simp add: FindOperation_def query_db_def willing_def)
  moreover have "recheck_commit ce input c = (Inr \<lparr>cmr_Result = r, cmr_Replayed = False\<rparr>, c')"
    using recheck cm pl(2) by (simp add: recheck_commit_def input Let_def)
  ultimately have "Commit ce input c = (Inr \<lparr>cmr_Result = r, cmr_Replayed = False\<rparr>, c')"
    using pre env by (simp add: Commit_def locked_commit_def willing_def input)
  then show ?thesis by blast
qed

end
