(* ===== verification/Observation_Success.thy ===== *)
theory Observation_Success
  imports Catalog_Success Scan
begin

text \<open>
  An observation that nothing stands against is recorded: when the driver works, the states and the lock
  are known values, the Publications exist and occur once, the usage is not negative and the identities
  drawn are new and different, \<open>RecordObservation\<close> returns. For a scan of the catalog's own manifests
  the first conditions hold by construction, so \<open>Run\<close> records what \<open>Scan\<close> found.
\<close>

section \<open>Recording\<close>

definition observation_ids :: "catalog \<Rightarrow> string set" where
  "observation_ids c = obs_id ` set (observations c) \<union> pob_id ` set (publication_observations c)"

definition recordable :: "env \<Rightarrow> observation_record \<Rightarrow> catalog \<Rightarrow> bool" where
  "recordable e rec c \<longleftrightarrow>
     (let ps = oor_Publications rec; n = Suc (length ps) in
      known_lock (oor_MutationLock rec) \<and> \<not> IsZero (oor_ObservedAt rec) \<and>
      \<not> negative (oor_TotalBytes rec) \<and> \<not> negative (oor_AcceptedBytes rec) \<and> \<not> negative (oor_UnclaimedBytes rec) \<and>
      distinct (map por_PublicationID ps) \<and> por_PublicationID ` set ps \<subseteq> pub_id ` set (publications c) \<and>
      list_all (\<lambda>p. known_state (por_State p)) ps \<and>
      different_draws e n \<and> (\<forall>i < n. draw e i \<notin> observation_ids c))"

lemma known_values:
  "known_lock l \<longleftrightarrow> l \<in> set mutation_locks" "known_state s \<longleftrightarrow> s \<in> set observation_states"
  by (auto simp: known_lock_def known_state_def mutation_locks_def observation_states_def LockNone_def LockGlobal_def
      LockPublication_def StateInSync_def StateDrifted_def StateMissing_def)

lemma record_publications_ok:
  assumes "no_faults e" and "different_draws e N"
  shows "tx_ids t + length ps \<le> N \<Longrightarrow> oid \<in> obs_id ` set (observations (tx_cat t)) \<Longrightarrow>
    distinct (map por_PublicationID ps) \<Longrightarrow>
    por_PublicationID ` set ps \<subseteq> pub_id ` set (publications (tx_cat t)) \<Longrightarrow>
    list_all (\<lambda>p. known_state (por_State p)) ps \<Longrightarrow>
    (\<forall>p \<in> set ps. (oid, por_PublicationID p)
       \<notin> (\<lambda>r. (pob_observation_id r, pob_publication_id r)) ` set (publication_observations (tx_cat t))) \<Longrightarrow>
    (\<forall>i. tx_ids t \<le> i \<and> i < N \<longrightarrow> draw e i \<notin> pob_id ` set (publication_observations (tx_cat t))) \<Longrightarrow>
    \<exists>t'. fold_tx (record_publication e oid) ps t = Inr t'"
proof (induction ps arbitrary: t)
  case (Cons p ps)
  let ?id = "draw e (tx_ids t)"
  let ?r = "\<lparr>pob_id = ?id, pob_observation_id = oid, pob_publication_id = por_PublicationID p,
      pob_state = por_State p, pob_observed_size = por_ObservedSize p, pob_status_detail = por_StatusDetail p\<rparr>"
  let ?c = "(tx_cat t)\<lparr>publication_observations := publication_observations (tx_cat t) @ [?r]\<rparr>"
  let ?t = "t\<lparr>tx_ids := Suc (tx_ids t), tx_cat := ?c, tx_stmts := Suc (tx_stmts t)\<rparr>"
  have fresh: "?id \<notin> pob_id ` set (publication_observations (tx_cat t))" using Cons.prems(1,7) by simp
  have "insert_publication_observation ?r (tx_cat t) = Inr ?c"
    using Cons.prems fresh by (simp add: insert_publication_observation_def known_values)
  then have "exec e (insert_publication_observation ?r) (t\<lparr>tx_ids := Suc (tx_ids t)\<rparr>) = Inr ?t"
    using exec_ok [OF assms(1), of _ "t\<lparr>tx_ids := Suc (tx_ids t)\<rparr>"] by simp
  then have step: "record_publication e oid p t = Inr ?t"
    using Cons.prems(5) by (simp add: record_publication_def NewID_def)
  have other: "draw e i \<noteq> ?id" if "Suc (tx_ids t) \<le> i" "i < N" for i
    using different_drawsD [OF assms(2), of i "tx_ids t"] that by simp
  have "\<exists>t'. fold_tx (record_publication e oid) ps ?t = Inr t'"
  proof (rule Cons.IH)
    show "\<forall>i. tx_ids ?t \<le> i \<and> i < N \<longrightarrow> draw e i \<notin> pob_id ` set (publication_observations (tx_cat ?t))"
      using Cons.prems(7) other by simp
    show "\<forall>q \<in> set ps. (oid, por_PublicationID q)
       \<notin> (\<lambda>r. (pob_observation_id r, pob_publication_id r)) ` set (publication_observations (tx_cat ?t))"
      using Cons.prems(3,6) by (auto simp: image_iff)
  qed (use Cons.prems in simp_all)
  then show ?case by (simp add: step)
qed simp

lemma RecordObservation_succeeds:
  assumes nf: "no_faults e" and cons: "consistent c" and ok: "recordable e rec c"
  shows "\<exists>c'. RecordObservation e rec c = (Inr (), c')"
proof -
  let ?ps = "oor_Publications rec" let ?o = "observation_row_of e rec"
  let ?c1 = "c\<lparr>observations := observations c @ [?o]\<rparr>"
  let ?t = "\<lparr>tx_cat = ?c1, tx_ids = 1, tx_stmts = 2\<rparr>"
  have ids: "draw e i \<notin> obs_id ` set (observations c)" "draw e i \<notin> pob_id ` set (publication_observations c)"
    if "i < Suc (length ?ps)" for i
    using ok that by (auto simp: recordable_def Let_def observation_ids_def)
  have "insert_observation ?o c = Inr ?c1"
    using ok ids(1) [of 0]
    by (simp add: insert_observation_def observation_row_of_def recordable_def Let_def known_values)
  then have ins: "exec e (insert_observation ?o) \<lparr>tx_cat = c, tx_ids = 1, tx_stmts = 1\<rparr> = Inr ?t"
    using exec_ok [OF nf, of _ "\<lparr>tx_cat = c, tx_ids = 1, tx_stmts = 1\<rparr>"] by simp
  have no_pairs: "pob_observation_id r \<noteq> draw e 0" if "r \<in> set (publication_observations c)" for r
  proof -
    have "pob_observation_id ` set (publication_observations c) \<subseteq> obs_id ` set (observations c)"
      using cons by (simp add: consistent_def catalog_ok_def)
    then show ?thesis using that ids(1) [of 0] by (metis image_eqI subsetD zero_less_Suc)
  qed
  have "\<exists>t'. fold_tx (record_publication e (draw e 0)) ?ps ?t = Inr t'"
  proof (rule record_publications_ok [OF nf, of "Suc (length ?ps)"])
    show "\<forall>p \<in> set ?ps. (draw e 0, por_PublicationID p)
       \<notin> (\<lambda>r. (pob_observation_id r, pob_publication_id r)) ` set (publication_observations (tx_cat ?t))"
      using no_pairs by fastforce
    show "draw e 0 \<in> obs_id ` set (observations (tx_cat ?t))" by (simp add: observation_row_of_def)
  qed (use ok ids(2) in \<open>simp_all add: recordable_def Let_def\<close>)
  then obtain t' where loop: "fold_tx (record_publication e (draw e 0)) ?ps ?t = Inr t'" by blast
  obtain rows where "tx_cat t' = ?c1\<lparr>publication_observations := publication_observations c @ rows\<rparr>"
    using record_publications_Inr [OF loop] by auto
  then have "deferred_ok (tx_cat t')" using cons deferred_ok_cong [of "tx_cat t'" c]
    by (simp add: consistent_def)
  then have "commit_tx e t' = Inr (tx_cat t')" using nf by (simp add: commit_tx_def no_faults_def)
  then have "record_observation e rec c = Inr ((), tx_cat t')"
    using ok nf ins loop
    by (simp add: record_observation_def begin_tx_def no_faults_def NewID_def observation_row_of_def recordable_def Let_def)
  then show ?thesis by (auto simp: RecordObservation_def run_tx_Inr)
qed

section \<open>Running\<close>

lemma add_object_ids:
  "pm_PublicationID ` set (add_object pid path ob acc) = insert pid (pm_PublicationID ` set acc)"
  by (induction pid path ob acc rule: add_object.induct) auto

lemma add_object_distinct:
  "distinct (map pm_PublicationID acc) \<Longrightarrow> distinct (map pm_PublicationID (add_object pid path ob acc))"
proof (induction pid path ob acc rule: add_object.induct)
  case (2 pid path ob m ms)
  show ?case
  proof (cases "pm_PublicationID m = pid")
    case False
    then have "pm_PublicationID m \<notin> pm_PublicationID ` set (add_object pid path ob ms)"
      using 2(2) by (simp add: add_object_ids)
    then show ?thesis using 2 False by simp
  qed (use 2(2) in simp)
qed simp

lemma manifests_loop_ids:
  "manifests_loop rows acc = Inr ms \<Longrightarrow> distinct (map pm_PublicationID acc) \<Longrightarrow>
    distinct (map pm_PublicationID ms) \<and>
    pm_PublicationID ` set ms \<subseteq> pm_PublicationID ` set acc \<union> (pub_id \<circ> fst) ` set rows"
proof (induction rows acc rule: manifests_loop.induct)
  case (2 p r rows acc)
  then obtain m where m: "decode_metadata (obj_user_metadata r) = Some m" by (auto split: option.splits)
  then have "distinct (map pm_PublicationID ms) \<and> pm_PublicationID ` set ms
      \<subseteq> insert (pub_id p) (pm_PublicationID ` set acc) \<union> (pub_id \<circ> fst) ` set rows"
    using 2 by (simp add: add_object_ids add_object_distinct)
  then show ?case by auto
qed simp

lemma joined_publications: "(p, r) \<in> set (joined_rows c) \<Longrightarrow> p \<in> set (publications c)"
  by (auto simp: joined_rows_def)

lemma AcceptedManifests_ids:
  assumes "AcceptedManifests e c = Inr ms"
  shows "distinct (map pm_PublicationID ms)" and "pm_PublicationID ` set ms \<subseteq> pub_id ` set (publications c)"
proof -
  have l: "manifests_loop (joined_rows c) [] = Inr ms"
    using assms by (simp add: AcceptedManifests_def query_db_def split: if_splits)
  show "distinct (map pm_PublicationID ms)" using manifests_loop_ids [OF l] by simp
  have "pm_PublicationID ` set ms \<subseteq> (pub_id \<circ> fst) ` set (joined_rows c)" using manifests_loop_ids [OF l] by simp
  also have "\<dots> \<subseteq> pub_id ` set (publications c)" using joined_publications by force
  finally show "pm_PublicationID ` set ms \<subseteq> pub_id ` set (publications c)" .
qed

lemma scanned_ids:
  assumes "list_all2 (\<lambda>m p. scanPublication rd observed complete m = Inr p) ms ps"
  shows "map ps_PublicationID ps = map pm_PublicationID ms" and "list_all (\<lambda>p. known_state (ps_State p)) ps"
proof -
  show "map ps_PublicationID ps = map pm_PublicationID ms"
    using assms by (induction rule: list_all2_induct) (simp_all add: scanPublication_Inr(1))
  have state: "known_state (ps_State p)" if "scanPublication rd observed complete m = Inr p" for m p
    by (simp add: scanPublication_Inr(3) [OF that] known_state_def)
  show "list_all (\<lambda>p. known_state (ps_State p)) ps"
    using assms by (induction rule: list_all2_induct) (simp_all add: state)
qed

text \<open>What a run needs beyond a scan that returned.\<close>

definition run_ready :: "env \<Rightarrow> scan_result \<Rightarrow> catalog \<Rightarrow> bool" where
  "run_ready e s c \<longleftrightarrow>
     (let n = Suc (length (sr_Publications s)) in
      no_faults e \<and> \<not> IsZero (env_now e) \<and> \<not> negative (bu_TotalBytes (sr_Usage s)) \<and>
      \<not> negative (bu_AcceptedBytes (sr_Usage s)) \<and> \<not> negative (bu_UnclaimedBytes (sr_Usage s)) \<and>
      different_draws e n \<and> (\<forall>i < n. draw e i \<notin> observation_ids c))"

lemma Run_succeeds:
  assumes ms: "AcceptedManifests re c = Inr ms" and s: "Scan rd ms (env_now we) complete = Inr s"
    and cons: "consistent c" and ready: "run_ready we s c"
  shows "\<exists>c'. Run re we rd complete c = (Inr s, c') \<and> RecordObservation we (Record s) c = (Inr (), c')"
proof -
  obtain listing where l: "list_all2 (\<lambda>m p. scanPublication rd (index_by ol_Key listing) complete m = Inr p) ms (sr_Publications s)"
      "sr_ObservedAt s = env_now we"
      "sr_MutationLock s = (if unclaimed_keys listing ms \<noteq> [] \<or> anyFinding (sr_Publications s) then LockGlobal else LockNone)"
    using Scan_Inr [OF s] by metis
  have ids: "map por_PublicationID (oor_Publications (Record s)) = map pm_PublicationID ms"
    using scanned_ids(1) [OF l(1)] by (simp add: Record_def o_def)
  have "por_PublicationID ` set (oor_Publications (Record s)) = pm_PublicationID ` set ms"
    using ids by (metis list.set_map)
  moreover have "list_all (\<lambda>p. known_state (por_State p)) (oor_Publications (Record s))"
    using scanned_ids(2) [OF l(1)] by (simp add: Record_def list.pred_map o_def)
  moreover have "known_lock (oor_MutationLock (Record s))" using l(3) by (simp add: Record_def known_lock_def)
  ultimately have "recordable we (Record s) c"
    using ready ids AcceptedManifests_ids [OF ms] l(2)
    by (simp add: recordable_def run_ready_def Let_def Record_def o_def)
  moreover have "no_faults we" using ready by (simp add: run_ready_def Let_def)
  ultimately obtain c' where "RecordObservation we (Record s) c = (Inr (), c')"
    using RecordObservation_succeeds [OF _ cons] by blast
  then show ?thesis using ms s by (simp add: Run_def)
qed

end
