(* ===== verification/Catalog_Reports.thy ===== *)
theory Catalog_Reports
  imports Catalog_Accepted
begin

text \<open>
  What the result of a committed batch reports: one entry per Project and per Publication of the
  normalised batch with its identities, counts and sizes, and their totals. All its identities are
  ASCII, so a result with valid UTF-8 prefixes, paths and operation ID is recorded as JSON that decodes
  to the same result.
\<close>

section \<open>The reported entries\<close>

definition reports_publication :: "env \<Rightarrow> adopted_publication \<Rightarrow> publication_result \<Rightarrow> bool" where
  "reports_publication e p r \<longleftrightarrow> (\<exists>n. r = publication_result_of e n p)"

definition reports_project :: "env \<Rightarrow> adopted_project \<Rightarrow> project_result \<Rightarrow> bool" where
  "reports_project e j r \<longleftrightarrow> (\<exists>n. jr_ProjectID r = draw e n) \<and> jr_ProjectPrefix r = aj_Prefix j \<and>
     list_all2 (reports_publication e) (aj_Publications j) (jr_Publications r)"

lemma map_tx_all2:
  assumes "map_tx f xs t = Inr (ys, t')" and "\<And>x s y s'. f x s = Inr (y, s') \<Longrightarrow> P x y"
  shows "list_all2 P xs ys"
  using assms(1)
proof (induction xs arbitrary: t ys)
  case Nil
  then show ?case by simp
next
  case (Cons x xs)
  then show ?case using assms(2) by (auto simp: res_iff)
qed

lemma adopt_publication_reports:
  "adopt_publication e now digest pid p t = Inr (r, t') \<Longrightarrow> reports_publication e p r"
  unfolding reports_publication_def by (rule exI) (rule adopt_publication_Inr(3))

lemma adopt_project_reports:
  "adopt_project e now digest j t = Inr (r, t') \<Longrightarrow> reports_project e j r"
  by (auto simp: adopt_project_def NewID_def res_iff reports_project_def
      intro: map_tx_all2 [OF _ adopt_publication_reports])

definition reports :: "env \<Rightarrow> adopted_project list \<Rightarrow> adoption_result \<Rightarrow> bool" where
  "reports e js r \<longleftrightarrow> list_all2 (reports_project e) js (ar_Projects r) \<and> ar_Status r = ''committed'' \<and>
     ar_ObjectCount r = int (\<Sum>j \<leftarrow> js. \<Sum>p \<leftarrow> aj_Publications j. length (ap_Objects p)) \<and>
     ar_AcceptedSize r = (\<Sum>j \<leftarrow> js. \<Sum>p \<leftarrow> aj_Publications j. \<Sum>ob \<leftarrow> ap_Objects p. ao_Size ob) \<and>
     ar_CommittedAt r = []"

lemma reported_totals:
  assumes "list_all2 (reports_project e) js rs"
  shows "(\<Sum>p \<leftarrow> concat (map jr_Publications rs). pr_ObjectCount p)
       = int (\<Sum>j \<leftarrow> js. \<Sum>p \<leftarrow> aj_Publications j. length (ap_Objects p))"
    and "(\<Sum>p \<leftarrow> concat (map jr_Publications rs). pr_AcceptedSize p)
       = (\<Sum>j \<leftarrow> js. \<Sum>p \<leftarrow> aj_Publications j. \<Sum>ob \<leftarrow> ap_Objects p. ao_Size ob)"
proof -
  have one: "(\<Sum>p \<leftarrow> qs. pr_ObjectCount p) = int (\<Sum>p \<leftarrow> ps. length (ap_Objects p)) \<and>
      (\<Sum>p \<leftarrow> qs. pr_AcceptedSize p) = (\<Sum>p \<leftarrow> ps. \<Sum>ob \<leftarrow> ap_Objects p. ao_Size ob)"
    if "list_all2 (reports_publication e) ps qs" for ps qs
    using that by (induction rule: list_all2_induct) (auto simp: reports_publication_def publication_result_of_def)
  have all: "list_all2 (\<lambda>j r. list_all2 (reports_publication e) (aj_Publications j) (jr_Publications r)) js rs"
    using assms by (rule list_all2_mono) (simp add: reports_project_def)
  show "(\<Sum>p \<leftarrow> concat (map jr_Publications rs). pr_ObjectCount p)
       = int (\<Sum>j \<leftarrow> js. \<Sum>p \<leftarrow> aj_Publications j. length (ap_Objects p))"
    using all by (induction rule: list_all2_induct) (simp_all add: one)
  show "(\<Sum>p \<leftarrow> concat (map jr_Publications rs). pr_AcceptedSize p)
       = (\<Sum>j \<leftarrow> js. \<Sum>p \<leftarrow> aj_Publications j. \<Sum>ob \<leftarrow> ap_Objects p. ao_Size ob)"
    using all by (induction rule: list_all2_induct) (simp_all add: one)
qed

lemma commit_batch_reports:
  assumes "commit_batch e input c = Inr (r, c')"
  shows "reports e (normal_form (bi_Projects input)) r \<and> ar_OperationID r = bi_OperationID input"
proof -
  from assms obtain js t2 t3 results where js: "js = normal_form (bi_Projects input)"
    and t3: "map_tx (adopt_project e (FormatRFC3339 (env_now e)) (bi_PlanDigest input)) js t2 = Inr (results, t3)"
    and r: "r = adoption_result_of (bi_OperationID input) results"
    unfolding commit_batch_def Let_def by (auto simp: res_iff normalizeBatchProjects_Inr split: if_splits)
  have "list_all2 (reports_project e) js results"
    by (rule map_tx_all2 [OF t3]) (rule adopt_project_reports)
  then show ?thesis using reported_totals by (auto simp: reports_def r adoption_result_of_def Let_def js)
qed

section \<open>Encodable results\<close>

lemma valid_utf8_ascii: "\<forall>c \<in> set s. byte c < 128 \<Longrightarrow> valid_utf8 s"
  by (auto simp: valid_utf8_def runes_ascii list_all_iff rune_error_def)

lemma hex_digit_ascii: "d < 16 \<Longrightarrow> byte (hex_digit d) < 128"
  by (simp add: hex_digit_def byte_def)

lemma hex_bytes_ascii: "c \<in> set (hex_bytes bs) \<Longrightarrow> byte c < 128"
proof (induction bs)
  case (Cons b bs)
  have "unat b < 256" using unsigned_less [of b] by simp
  then have "unat b div 16 < 16" "unat b mod 16 < 16" by simp_all
  then show ?case using Cons hex_digit_ascii by (auto simp: hex_bytes_def hex_byte_def)
qed (simp add: hex_bytes_def)

lemma draw_utf8 [simp]: "valid_utf8 (draw e n)"
proof (rule valid_utf8_ascii, rule ballI)
  fix c assume "c \<in> set (draw e n)"
  then have "(\<exists>bs. c \<in> set (hex_bytes bs)) \<or> c = CHR ''-''"
    by (auto simp: draw_def uuid_def Let_def dest!: in_set_takeD in_set_dropD)
  then show "byte c < 128" using hex_bytes_ascii by (auto simp: byte_def)
qed

lemma result_labels:
  "valid_utf8 ''operationId''" "valid_utf8 ''status''" "valid_utf8 ''objectCount''" "valid_utf8 ''acceptedSize''"
  "valid_utf8 ''projects''" "valid_utf8 ''committedAt''" "valid_utf8 ''projectId''" "valid_utf8 ''projectPrefix''"
  "valid_utf8 ''publications''" "valid_utf8 ''publicationId''" "valid_utf8 ''publicationPath''"
  "valid_utf8 ''manifestRevisionId''" "valid_utf8 ''committed''" "valid_utf8 []"
  by (rule valid_utf8_ascii, simp add: byte_def)+

lemma reported_json:
  assumes "reports e js r" and "valid_utf8 (ar_OperationID r)"
    and "\<And>j. j \<in> set js \<Longrightarrow> valid_utf8 (aj_Prefix j) \<and> (\<forall>p \<in> set (aj_Publications j). valid_utf8 (ap_Path p))"
  shows "valid_json (json_of_result r)"
proof -
  have pub: "valid_json (json_of_publication_result q)" if "reports_publication e p q" "valid_utf8 (ap_Path p)" for p q
    using that by (auto simp: reports_publication_def publication_result_of_def json_of_publication_result_def
        json_int64_def result_labels)
  have proj: "valid_json (json_of_project_result q)" if j: "j \<in> set js" and q: "reports_project e j q" for j q
  proof -
    have all: "list_all2 (reports_publication e) (aj_Publications j) (jr_Publications q)"
      using q by (simp add: reports_project_def)
    have "valid_json (json_of_publication_result x)" if "x \<in> set (jr_Publications q)" for x
    proof -
      from that all obtain p where "p \<in> set (aj_Publications j)" "reports_publication e p x"
        by (metis in_set_conv_nth list_all2_conv_all_nth)
      then show ?thesis using pub assms(3) [OF j] by blast
    qed
    then show ?thesis
      using q assms(3) [OF j]
      by (auto simp: reports_project_def json_of_project_result_def json_array_def list_all_iff result_labels)
  qed
  have "valid_json (json_of_project_result q)" if "q \<in> set (ar_Projects r)" for q
  proof -
    have "list_all2 (reports_project e) js (ar_Projects r)" using assms(1) by (simp add: reports_def)
    with that obtain j where "j \<in> set js" "reports_project e j q" by (metis in_set_conv_nth list_all2_conv_all_nth)
    then show ?thesis by (rule proj)
  qed
  then show ?thesis
    using assms(1,2) by (simp add: json_of_result_def json_array_def list_all_iff json_int64_def result_labels reports_def)
qed

text \<open>Every count is at most the total, so one bound covers them all.\<close>

lemma reported_counts:
  assumes "reports e js r" and "(\<Sum>j \<leftarrow> js. \<Sum>p \<leftarrow> aj_Publications j. length (ap_Objects p)) < 9223372036854775808"
  shows "counts_ok r"
proof -
  have "int_range (pr_ObjectCount q)" if "x \<in> set (ar_Projects r)" "q \<in> set (jr_Publications x)" for x q
  proof -
    have "list_all2 (reports_project e) js (ar_Projects r)" using assms(1) by (simp add: reports_def)
    with that(1) obtain j where j: "j \<in> set js" "reports_project e j x" by (metis in_set_conv_nth list_all2_conv_all_nth)
    then have "list_all2 (reports_publication e) (aj_Publications j) (jr_Publications x)" by (simp add: reports_project_def)
    with that(2) obtain p where p: "p \<in> set (aj_Publications j)" "reports_publication e p q"
      by (metis in_set_conv_nth list_all2_conv_all_nth)
    have "length (ap_Objects p) \<le> (\<Sum>p \<leftarrow> aj_Publications j. length (ap_Objects p))"
      using p(1) by (intro member_le_sum_list) auto
    also have "\<dots> \<le> (\<Sum>j \<leftarrow> js. \<Sum>p \<leftarrow> aj_Publications j. length (ap_Objects p))"
      using j(1) by (intro member_le_sum_list) auto
    finally have "length (ap_Objects p) < 9223372036854775808" using assms(2) by simp
    then show ?thesis using p(2) by (auto simp: reports_publication_def publication_result_of_def int_range_def)
  qed
  moreover have "int_range (ar_ObjectCount r)"
    using assms unfolding reports_def int_range_def by linarith
  ultimately show ?thesis by (simp add: counts_ok_def list_all_iff)
qed

end
