(* ===== verification/Machine.thy ===== *)
theory Machine
  imports Main
begin

text \<open>
  State machines given by a call function: \<open>exec a s\<close> is the state after the call \<open>a\<close>, or \<open>None\<close> when
  the call is not possible in \<open>s\<close>. The locale \<open>machine\<close> is the interface of an invariant: it holds at the
  start and every possible call keeps it; then it holds in every reachable state and after every schedule.
  The lock file, the observation service and the catalog's history are machines.
\<close>

fun run_calls :: "('c \<Rightarrow> 's \<Rightarrow> 's option) \<Rightarrow> 'c list \<Rightarrow> 's \<Rightarrow> 's option" where
  "run_calls exec [] s = Some s"
| "run_calls exec (a # as) s = Option.bind (exec a s) (run_calls exec as)"

inductive reachable :: "('c \<Rightarrow> 's \<Rightarrow> 's option) \<Rightarrow> 's \<Rightarrow> 's \<Rightarrow> bool" for exec init where
  start: "reachable exec init init"
| call: "reachable exec init s \<Longrightarrow> exec a s = Some s' \<Longrightarrow> reachable exec init s'"

lemma run_calls_append:
  "run_calls exec (as @ bs) s = Option.bind (run_calls exec as s) (run_calls exec bs)"
  by (induction as arbitrary: s) (simp_all split: bind_splits)

text \<open>Reachable states are those some schedule leads to.\<close>

lemma reachable_run: "reachable exec init s \<longleftrightarrow> (\<exists>as. run_calls exec as init = Some s)"
proof
  assume "reachable exec init s"
  then show "\<exists>as. run_calls exec as init = Some s"
  proof (induction rule: reachable.induct)
    case start
    show ?case by (intro exI [of _ "[]"]) simp
  next
    case (call s a s')
    then obtain as where "run_calls exec as init = Some s" by blast
    then show ?case using call by (intro exI [of _ "as @ [a]"]) (simp add: run_calls_append)
  qed
next
  have "reachable exec init s'" if "run_calls exec as s = Some s'" "reachable exec init s" for as s s'
    using that by (induction as arbitrary: s) (auto split: bind_splits intro: reachable.call)
  then show "\<exists>as. run_calls exec as init = Some s \<Longrightarrow> reachable exec init s"
    by (auto intro: reachable.start)
qed

lemma run_reachable: "run_calls exec as init = Some s \<Longrightarrow> reachable exec init s"
  by (simp only: reachable_run, rule exI)

text \<open>A machine with fewer possible calls reaches fewer states.\<close>

lemma reachable_mono:
  assumes "reachable exec init s" and "\<And>a s s'. exec a s = Some s' \<Longrightarrow> exec' a s = Some s'"
  shows "reachable exec' init s"
  using assms(1)
proof (induction rule: reachable.induct)
  case (call s a s')
  then show ?case using assms(2) reachable.call by metis
qed (rule reachable.start)

locale machine =
  fixes exec :: "'c \<Rightarrow> 's \<Rightarrow> 's option" and init :: 's and inv :: "'s \<Rightarrow> bool"
  assumes inv_init: "inv init"
    and inv_exec: "exec a s = Some s' \<Longrightarrow> reachable exec init s \<Longrightarrow> inv s \<Longrightarrow> inv s'"
begin

lemma inv_reachable: "reachable exec init s \<Longrightarrow> inv s"
proof (induction rule: reachable.induct)
  case start
  show ?case by (rule inv_init)
next
  case (call s a s')
  show ?case by (rule inv_exec [OF call(2,1,3)])
qed

lemma inv_run: "run_calls exec as init = Some s \<Longrightarrow> inv s"
  by (rule inv_reachable, rule run_reachable)

end

end
