(* ===== verification/History.thy ===== *)
theory History
  imports End_To_End Observation_Success Catalog_Reports Machine
begin

text \<open>
  The catalog over the life of a deployment: commits, batches and scans in any order, from the empty
  catalog of a fresh deployment, each in its own environment and each free to fail. Every catalog reached
  is consistent and extends the ones before. An operation that committed can be replayed, whatever ran in
  between, and the scan that follows a first adoption records a bucket in sync.
\<close>

section \<open>Histories\<close>

datatype store_call =
    CommitPlan commit_env commit_input
  | AdoptBatch env batch_input
  | RunScan env env reader bool

fun store_exec :: "store_call \<Rightarrow> catalog \<Rightarrow> catalog option" where
  "store_exec (CommitPlan ce input) c = Some (snd (Commit ce input c))"
| "store_exec (AdoptBatch e input) c = Some (snd (CommitAdoptionBatch e input c))"
| "store_exec (RunScan re we rd complete) c = Some (snd (Run re we rd complete c))"

lemma store_exec_outcome:
  assumes "store_exec a c = Some c'" and "consistent c"
  shows "consistent c' \<and> extends c c'"
proof (cases a)
  case (CommitPlan ce input)
  then show ?thesis using committing.outcome [OF assms(2), of "(ce, input)"] assms(1) by simp
next
  case (AdoptBatch e input)
  then show ?thesis using adoption.outcome [OF assms(2), of "(e, input)"] assms(1) by simp
next
  case (RunScan re we rd complete)
  then show ?thesis using running.outcome [OF assms(2), of "(re, we, rd, complete)"] assms(1) by simp
qed

interpretation history: machine store_exec empty_catalog consistent
proof unfold_locales
  show "consistent empty_catalog" by (simp add: consistent_def catalog_ok_empty)
  show "consistent s'" if "store_exec a s = Some s'" "consistent s" for a s s'
    using store_exec_outcome that by blast
qed

lemma history_extends:
  "run_calls store_exec as c = Some c' \<Longrightarrow> consistent c \<Longrightarrow> consistent c' \<and> extends c c'"
proof (induction as arbitrary: c)
  case (Cons a as)
  then obtain c1 where c1: "store_exec a c = Some c1" "run_calls store_exec as c1 = Some c'"
    by (auto split: bind_splits)
  have step: "consistent c1" "extends c c1" using store_exec_outcome [OF c1(1) Cons.prems(2)] by blast+
  then show ?case using Cons.IH [OF c1(2) step(1)] extends_trans [OF step(2)] by blast
qed simp

section \<open>Replays\<close>

text \<open>What a declaration needs for its result to be recorded without loss.\<close>

definition recordable_declaration :: "string \<Rightarrow> batch_declaration \<Rightarrow> bool" where
  "recordable_declaration opid d \<longleftrightarrow> valid_utf8 opid \<and>
     list_all (\<lambda>p. valid_utf8 (prj_Prefix (pd_Project p)) \<and> valid_utf8 (pd_Path p)) (dc_Publications d) \<and>
     sum_list (map (\<lambda>p. length (pd_Objects p)) (dc_Publications d)) < 9223372036854775808"

lemma batch_totals:
  "(\<Sum>j \<leftarrow> js. \<Sum>p \<leftarrow> aj_Publications j. length (ap_Objects p))
     = (\<Sum>a \<leftarrow> concat (map offered_project js). length (acc_objects a))"
  by (induction js) (simp_all add: offered_project_def offered_def o_def)

lemma published_counts:
  assumes "list_all2 (published_as rd pb base observed) ds ps"
  shows "(\<Sum>a \<leftarrow> offered_plan ps. length (acc_objects a)) = (\<Sum>p \<leftarrow> ds. length (pd_Objects p))"
  using assms
proof (induction rule: list_all2_induct)
  case (Cons p ds q ps)
  have "length (plb_Objects q) = length (pd_Objects p)"
    using published_as_keys [OF Cons.hyps(1)] by (metis length_map length_sort)
  then show ?case using Cons by (simp add: offered_plan_def offered_def adoptPublication_def adoptObjects_def)
qed (simp add: offered_plan_def)

lemma published_names:
  assumes "list_all2 (published_as rd pb base observed) ds ps"
    and "list_all (\<lambda>p. valid_utf8 (prj_Prefix (pd_Project p)) \<and> valid_utf8 (pd_Path p)) ds"
  shows "a \<in> set (offered_plan ps) \<Longrightarrow> valid_utf8 (the (acc_prefix a)) \<and> valid_utf8 (acc_path a)"
  using assms
proof (induction rule: list_all2_induct)
  case (Cons p ds q ps)
  then show ?case using published_as_path [OF Cons.hyps(1)]
    by (auto simp: offered_plan_def offered_def adoptPublication_def)
qed (simp add: offered_plan_def)

lemma offered_members:
  "j \<in> set js \<Longrightarrow> p \<in> set (aj_Publications j) \<Longrightarrow> offered (aj_Prefix j) p \<in> set (concat (map offered_project js))"
  by (auto simp: offered_project_def)

lemma sort_key_Nil [simp]: "sort_key k xs = [] \<longleftrightarrow> xs = []"
  by (metis length_0_conv length_sort)

text \<open>The result of a commit is recorded as JSON that decodes to it.\<close>

lemma committed_result_recorded:
  assumes commit: "Commit ce input c = (Inr \<lparr>cmr_Result = r, cmr_Replayed = False\<rparr>, c')" and cons: "consistent c"
    and rec: "recordable_declaration (ci_OperationID input) (pc_Declaration (plan_Content (ci_Approved input)))"
  shows "counts_ok r \<and> result_utf8 r"
proof -
  let ?d = "pc_Declaration (plan_Content (ci_Approved input))"
  obtain rc where b: "BuildPlan (ci_Reader input) (ci_Prober input) (pc_PublicBaseURL (plan_Content (ci_Approved input))) ?d = Inr rc"
    and cb: "CommitAdoptionBatch (ce_commit ce) (batch_of input rc) c = (Inr r, c')"
    by (rule Commit_committed [OF commit cons])
  let ?ps = "pc_Publications (plan_Content rc)" let ?js = "normal_form (adoptProjects ?ps)"
  obtain rd pb listing where pub: "list_all2 (published_as rd pb (pc_PublicBaseURL (plan_Content rc)) (index_by ol_Key listing))
      (dc_Publications ?d) ?ps"
    using BuildPlan_Inr [OF b] by metis
  have cbx: "commit_batch (ce_commit ce) (batch_of input rc) c = Inr (r, c')"
    using cb by (simp add: CommitAdoptionBatch_def run_tx_Inr)
  obtain js where "normalizeBatchProjects (bi_Projects (batch_of input rc)) = Inr js"
    by (rule commit_batch_Inr [OF cbx cons])
  then have wf: "well_formed_batch (adoptProjects ?ps)" by (simp add: batch_of_def normalizeBatchProjects_Inr)
  have rep: "reports (ce_commit ce) ?js r \<and> ar_OperationID r = ci_OperationID input"
    using commit_batch_reports [OF cbx] by (simp add: batch_of_def)
  have off: "mset (concat (map offered_project ?js)) = mset (offered_plan ?ps)"
    by (simp add: offered_adoptProjects offered_plan_def)
  have total: "(\<Sum>j \<leftarrow> ?js. \<Sum>p \<leftarrow> aj_Publications j. length (ap_Objects p)) = (\<Sum>p \<leftarrow> dc_Publications ?d. length (pd_Objects p))"
    using sum_list_mset_cong [OF off, of "\<lambda>a. length (acc_objects a)"] published_counts [OF pub] by (simp only: batch_totals)
  have counts: "counts_ok r"
    by (rule reported_counts [OF conjunct1 [OF rep]], subst total) (use rec in \<open>simp add: recordable_declaration_def\<close>)
  have names: "valid_utf8 (aj_Prefix j) \<and> valid_utf8 (ap_Path p)" if "j \<in> set ?js" "p \<in> set (aj_Publications j)" for j p
  proof -
    have "offered (aj_Prefix j) p \<in> set (offered_plan ?ps)"
      using offered_members [OF that] off by (metis set_mset_mset)
    then show ?thesis using published_names [OF pub, of "offered (aj_Prefix j) p"] rec
      by (simp add: recordable_declaration_def offered_def)
  qed
  have "aj_Publications j \<noteq> []" if "j \<in> set ?js" for j
    using wf that by (auto simp: normal_form_def well_formed_batch_def list_all_iff complete_project_def
        sorted_project_def)
  then have "valid_utf8 (aj_Prefix j)" if "j \<in> set ?js" for j
    using names [OF that] that by (metis list.set_intros(1) neq_Nil_conv)
  then have "valid_json (json_of_result r)"
    using reported_json [of "ce_commit ce" ?js r] rep rec names by (auto simp: recordable_declaration_def)
  then show ?thesis using counts by (simp add: result_utf8_def)
qed

text \<open>A recorded operation is found again in every later catalog.\<close>

lemma find_prefix:
  assumes "prefix xs ys" and "find P xs = Some x"
  shows "find P ys = Some x"
  using assms by (auto simp: prefix_def find_append_case)

lemma FindOperation_extends:
  assumes "extends c c'" and "FindOperation e op c = Inr (Some rc)" and "\<not> env_fault e' 0"
  shows "FindOperation e' op c' = Inr (Some rc)"
proof -
  have "\<exists>r. find (\<lambda>r. op_operation_id r = op) (adoption_operations c) = Some r \<and>
      rc = \<lparr>or_OperationID = op_operation_id r, or_RequestHash = op_request_hash r,
           or_PlanDigest = op_plan_digest r, or_ResultJSON = op_result_json r\<rparr>"
    using assms(2) by (auto simp: FindOperation_def query_db_def split: if_splits)
  then obtain r where r: "find (\<lambda>r. op_operation_id r = op) (adoption_operations c) = Some r"
    "rc = \<lparr>or_OperationID = op_operation_id r, or_RequestHash = op_request_hash r,
           or_PlanDigest = op_plan_digest r, or_ResultJSON = op_result_json r\<rparr>" by blast
  have "prefix (adoption_operations c) (adoption_operations c')" using assms(1) by (simp add: extends_def)
  then have "find (\<lambda>r. op_operation_id r = op) (adoption_operations c') = Some r" using find_prefix r(1) by fast
  then show ?thesis using assms(3) by (simp add: FindOperation_def query_db_def r(2))
qed

lemma replays_later:
  assumes commit: "Commit ce input c = (Inr \<lparr>cmr_Result = r, cmr_Replayed = False\<rparr>, c')" and cons: "consistent c"
    and rec: "recordable_declaration (ci_OperationID input) (pc_Declaration (plan_Content (ci_Approved input)))"
    and later: "run_calls store_exec as c' = Some c''"
    and pre: "precheck input' = None" and op: "ci_OperationID input' = ci_OperationID input"
    and env: "ce_lock ce' = None" "ce_open ce' = None" "\<not> env_fault (ce_find ce') 0"
  shows "Commit ce' input' c'' =
     (if RequestHash (ci_OperationID input) (plan_Digest (ci_Approved input'))
         = RequestHash (ci_OperationID input) (plan_Digest (ci_Approved input))
      then (Inr \<lparr>cmr_Result = r, cmr_Replayed = True\<rparr>, c'')
      else (Inl (Errorf ''operation ID %q was already used with different content'' [ci_OperationID input]), c''))"
proof -
  obtain rc where rc: "adoption_operations c' = adoption_operations c @ [operation_row_of (ce_commit ce) (batch_of input rc) r]"
    "ci_OperationID input \<notin> op_operation_id ` set (adoption_operations c)" "consistent c'"
    using Commit_committed [OF commit cons] by metis
  define rec where "rec = \<lparr>or_OperationID = ci_OperationID input,
     or_RequestHash = RequestHash (ci_OperationID input) (plan_Digest (ci_Approved input)),
     or_PlanDigest = plan_Digest (ci_Approved input), or_ResultJSON = Marshal (json_of_result r)\<rparr>"
  have "FindOperation (ce_find ce') (ci_OperationID input) c' = Inr (Some rec)"
    using FindOperation_committed [OF rc(1), of "ce_find ce'"] rc(2) env(3) by (simp add: batch_of_def rec_def)
  then have "FindOperation (ce_find ce') (ci_OperationID input) c'' = Inr (Some rec)"
    using FindOperation_extends history_extends [OF later rc(3)] env(3) by blast
  moreover have "replay rec = Inr \<lparr>cmr_Result = r, cmr_Replayed = True\<rparr>"
    using replay_committed committed_result_recorded [OF commit cons rec] by (simp add: rec_def)
  ultimately show ?thesis using pre env op by (simp add: Commit_def locked_commit_def) (simp add: rec_def)
qed

end
