(* ===== verification/Examples.thy ===== *)
theory Examples
  imports History
begin

text \<open>
  Concrete inputs: a declaration with one Publication, storage that holds its object, a prober, the plan
  built from them, environments and a catalog. The properties are applied to them.
\<close>

section \<open>Declaration, storage and plan\<close>

definition ex_publication :: publication_declaration where
  "ex_publication = \<lparr>pd_Project = \<lparr>prj_Prefix = ''p'', prj_DisplayName = []\<rparr>, pd_Path = ''p'', pd_DisplayName = [],
     pd_EntryPoint = ''p'', pd_RoutingMode = RoutingExactFile, pd_Objects = [''p''],
     pd_Probes = [\<lparr>rp_Path = [], rp_ExpectStatus = 200\<rparr>]\<rparr>"

definition ex_declaration :: batch_declaration where
  "ex_declaration = \<lparr>dc_Version = 1, dc_Publications = [ex_publication]\<rparr>"

lemma ex_clean: "clean_characters ''p''"
  by (simp add: clean_characters_def code_points_def runes_ascii byte_def IsControl_def IsSpace_def)

lemma ex_declaration_valid: "valid_batch ex_declaration"
  by (simp add: valid_batch_def ex_declaration_def ex_publication_def valid_publication_def valid_prefix_def
      valid_path_def valid_mode_def valid_object_key_def valid_probe_def consistent_names_def unambiguous_paths_def
      RoutingExactFile_def EqualFold_def reservedManagerPrefix_def byte_def ex_clean)

definition ex_time :: time where "ex_time = 1700000000 * second"

definition ex_content :: object_content where
  "ex_content = \<lparr>oc_Key = ''p'', oc_Size = 3, oc_ETag = ''e'', oc_LastModified = ex_time, oc_ContentType = ''t'',
     oc_ContentEncoding = [], oc_CacheControl = [], oc_UserMetadata = None, oc_SHA256 = ''h''\<rparr>"

definition ex_meta :: object_meta where
  "ex_meta = \<lparr>om_Key = ''p'', om_Size = 3, om_ETag = ''e'', om_LastModified = ex_time, om_ContentType = ''t'',
     om_ContentEncoding = [], om_CacheControl = [], om_UserMetadata = None\<rparr>"

definition ex_listing :: object_listing where
  "ex_listing = \<lparr>ol_Key = ''p'', ol_Size = 3, ol_ETag = ''e'', ol_LastModified = ex_time\<rparr>"

definition ex_reader :: reader where
  "ex_reader = \<lparr>ListObjects = Inr [ex_listing],
     ReadObject = (\<lambda>k. if k = ''p'' then Inr ex_content else Inl ErrObjectNotFound),
     StatObject = (\<lambda>k. if k = ''p'' then Inr ex_meta else Inl ErrObjectNotFound)\<rparr>"

definition ex_prober :: prober where
  "ex_prober url = Inr \<lparr>pbo_Status = 200, pbo_ContentType = ''t'', pbo_BodySHA256 = ''h''\<rparr>"

definition ex_base :: string where "ex_base = ''https://a''"

lemma ex_url: "url_Parse ''https://a'' = Some \<lparr>url_Scheme = ''https'', url_Opaque = [], url_User = False,
    url_Host = ''a'', url_Path = [], url_RawQuery = [], url_Fragment = []\<rparr>"
  by (simp add: url_Parse_def Cut_def Index_def parse_reference_def getScheme_def is_letter_def byte_def is_ctl_def
      lower_char_def lower_byte_def split_query_def suffix_def parseAuthority_def LastIndex_def parseHost_def
      host_char_def is_alnum_def Let_def is_digit_def char_of_def bit_0)

lemma ex_base_normal: "NormalizePublicBaseURL ex_base = Inr ex_base"
  by (simp add: NormalizePublicBaseURL_def ex_base_def TrimSpace_def TrimSuffix_def HasSuffix_def runes_ascii
      byte_def IsSpace_def suffix_def Let_def ex_url IsAbs_def)

definition ex_planned :: planned_publication where
  "ex_planned = \<lparr>plb_Project = \<lparr>prj_Prefix = ''p'', prj_DisplayName = []\<rparr>, plb_Path = ''p'', plb_DisplayName = ''p'',
     plb_EntryPoint = ''p'', plb_RoutingMode = RoutingExactFile, plb_CanonicalURL = ex_base @ ''/p'',
     plb_ContentChangedAt = FormatRFC3339 ex_time,
     plb_Objects = [planned_object_of ''p'' ''p'' ex_content ex_time],
     plb_Probes = [\<lparr>plp_Path = [], plp_URL = ex_base @ ''/p'', plp_ExpectStatus = 200, plp_ObservedStatus = 200,
       plp_ContentType = ''t'', plp_BodySHA256 = ''h''\<rparr>]\<rparr>"

definition ex_plan :: plan where
  "ex_plan = (let content = \<lparr>pc_Version = 1, pc_PublicBaseURL = ex_base, pc_Declaration = ex_declaration,
      pc_Publications = [ex_planned]\<rparr> in \<lparr>plan_Content = content, plan_Digest = Digest content\<rparr>)"

lemma ex_plan_publication: "planPublication ex_reader ex_prober ex_base (index_by ol_Key [ex_listing]) ex_publication = Inr ex_planned"
  by (simp add: planPublication_def ex_publication_def ex_planned_def CanonicalURL_def RoutingExactFile_def
      index_by_def ex_listing_def ex_reader_def ex_content_def modified_of_def IsZero_def ex_time_def second_def
      After_def plan_probe_def ex_prober_def ProbeURL_def DisplayNameOr_def TrimSpace_def defaultDisplayName_def
      sortObjects_def sortProbes_def Let_def)

lemma ex_simps [simp]:
  "ListObjects ex_reader = Inr [ex_listing]" "dc_Publications ex_declaration = [ex_publication]"
  "pd_Objects ex_publication = [''p'']" "ol_Key ex_listing = ''p''" "pd_Path ex_publication = ''p''"
  "prj_Prefix (pd_Project ex_publication) = ''p''"
  by (simp_all add: ex_reader_def ex_declaration_def ex_publication_def ex_listing_def)

lemma ex_build: "BuildPlan (Some ex_reader) (Some ex_prober) ex_base ex_declaration = Inr ex_plan"
proof -
  have "checkNoUnexpectedObjects [ex_listing] ex_declaration = None" by (simp add: checkNoUnexpected_None)
  then show ?thesis
    using ex_plan_publication
    by (simp add: BuildPlan_def ex_base_normal iffD2 [OF Declaration_Validate_iff ex_declaration_valid]
        wrap_err_def ex_plan_def Let_def)
qed

section \<open>Environments and commits\<close>

definition ex_env :: env where
  "ex_env = \<lparr>env_rand = (\<lambda>n i. if i = 0 then of_nat n else 0), env_now = ex_time, env_fault = (\<lambda>i. False)\<rparr>"

lemma ex_draw_eq: "n < 256 \<Longrightarrow> m < 256 \<Longrightarrow> draw ex_env n = draw ex_env m \<longleftrightarrow> n = m"
  using draw_first_byte [of ex_env n ex_env m]
  by (auto simp: ex_env_def word_of_nat_eq_iff take_bit_nat_eq_self)

lemma ex_different: "N \<le> 256 \<Longrightarrow> different_draws ex_env N"
  by (auto simp: different_draws_def distinct_map inj_on_def ex_draw_eq)

lemma ex_no_faults: "no_faults ex_env"
  by (simp add: no_faults_def ex_env_def)

definition ex_commit_env :: commit_env where
  "ex_commit_env = \<lparr>ce_lock = None, ce_open = None, ce_find = ex_env, ce_commit = ex_env\<rparr>"

definition ex_input :: commit_input where
  "ex_input = \<lparr>ci_Reader = Some ex_reader, ci_Prober = Some ex_prober, ci_Approved = ex_plan, ci_OperationID = ''o'',
     ci_ExpectedPublicBaseURL = []\<rparr>"

lemma ex_plan_simps [simp]:
  "pc_PublicBaseURL (plan_Content ex_plan) = ex_base" "pc_Publications (plan_Content ex_plan) = [ex_planned]"
  "pc_Declaration (plan_Content ex_plan) = ex_declaration" "plan_Digest ex_plan = Digest (plan_Content ex_plan)"
  by (simp_all add: ex_plan_def Let_def)

lemma ex_draws_batch: "draws_batch (adoptProjects [ex_planned]) = 5"
  by (simp add: adoptProjects_def draws_batch_def draws_project_def)

lemma ex_sizes: "ReadObject ex_reader k = Inr content \<Longrightarrow> \<not> negative (oc_Size content)"
  by (auto simp: ex_reader_def ex_content_def negative_def split: if_splits)

lemma ex_willing: "willing ex_commit_env 5 empty_catalog"
  by (simp add: willing_def ex_commit_env_def ex_no_faults ex_different fresh_from_def identities_def empty_catalog_def)
     (simp add: ex_env_def)

lemma ex_consistent_empty: "consistent empty_catalog"
  by (simp add: consistent_def catalog_ok_empty)

lemma ex_commits: "\<exists>r c'. Commit ex_commit_env ex_input empty_catalog = (Inr \<lparr>cmr_Result = r, cmr_Replayed = False\<rparr>, c')"
  by (rule Commit_succeeds [OF ex_build]) (simp_all add: ex_base_normal ex_sizes ex_input_def ex_draws_batch ex_willing
      ex_consistent_empty, simp_all add: empty_catalog_def)

section \<open>A catalog with one Publication\<close>

definition ex_id :: "char \<Rightarrow> string" where "ex_id c = replicate 36 c"

definition ex_object_row :: object_row where
  "ex_object_row = \<lparr>obj_manifest_id = ex_id (CHR ''c''), obj_key = ''p'', obj_relative_path = ''p'', obj_size = 3,
     obj_etag = ''e'', obj_modified_at = FormatRFC3339 ex_time, obj_content_type = ''t'', obj_content_encoding = [],
     obj_cache_control = [], obj_user_metadata = Marshal (json_of_map (Some [])), obj_sha256 = ''h''\<rparr>"

definition ex_publication_row :: publication_row where
  "ex_publication_row = \<lparr>pub_id = ex_id (CHR ''b''), pub_project_id = ex_id (CHR ''a''), pub_path = ''p'',
     pub_display_name = ''p'', pub_description = [], pub_entry_point = ''p'', pub_routing_mode = ''exact_file'',
     pub_content_changed_at = FormatRFC3339 ex_time, pub_entity_revision = ex_id (CHR ''d''),
     pub_current_manifest_id = Some (ex_id (CHR ''c'')), pub_created_at = [], pub_updated_at = []\<rparr>"

definition ex_catalog :: catalog where
  "ex_catalog = \<lparr>projects = [\<lparr>prw_id = ex_id (CHR ''a''), prw_prefix = ''p'', prw_display_name = ''p'',
       prw_description = [], prw_entity_revision = ex_id (CHR ''e''), prw_created_at = [], prw_updated_at = []\<rparr>],
     publications = [ex_publication_row],
     manifest_revisions = [\<lparr>man_id = ex_id (CHR ''c''), man_publication_id = ex_id (CHR ''b''), man_plan_digest = [],
       man_created_at = []\<rparr>],
     manifest_objects = [ex_object_row], observations = [], publication_observations = [], adoption_operations = []\<rparr>"

lemma ex_consistent: "consistent ex_catalog"
  by (simp add: consistent_def catalog_ok_def deferred_ok_def ex_catalog_def ex_publication_row_def ex_object_row_def
      routing_modes_def negative_def)

definition ex_manifest_object :: manifest_object where
  "ex_manifest_object = manifest_object_of ex_object_row (Some [])"

definition ex_manifests :: "publication_manifest list" where
  "ex_manifests = [\<lparr>pm_PublicationID = ex_id (CHR ''b''), pm_Path = ''p'', pm_Objects = [ex_manifest_object]\<rparr>]"

lemma ex_metadata: "decode_metadata (Marshal (json_of_map (Some []))) = Some (Some [])"
  using metadata.decodes [of "Some []"] by (simp add: decode_metadata_def map_ok_def map_utf8_def entries_def)

lemma ex_AcceptedManifests: "AcceptedManifests ex_env ex_catalog = Inr ex_manifests"
  by (simp add: AcceptedManifests_def query_db_def ex_env_def joined_rows_def ex_catalog_def ex_publication_row_def
      ex_manifests_def ex_manifest_object_def ex_metadata)
     (simp add: ex_object_row_def ex_metadata)

lemma ex_year: "year_ok ex_time" "ex_time div second * second = ex_time" "ex_time \<noteq> 0"
  by (simp_all add: year_ok_def year_start_def ex_time_def second_def)

lemma ex_unchanged: "unchanged ex_reader (index_by ol_Key [ex_listing]) ex_manifest_object"
proof -
  have "ParseRFC3339 (FormatRFC3339 ex_time) = Some ex_time" using timestamps.decodes [OF ex_year(1)] ex_year(2) by simp
  moreover have "withinTolerance ex_time ex_time"
    using withinTolerance_near [OF ex_year(3) ex_year(3)] by (simp add: max_duration_def second_def)
  ultimately show ?thesis
    by (simp add: unchanged_def ex_manifest_object_def manifest_object_of_def ex_object_row_def index_by_def
        ex_reader_def ex_listing_def ex_meta_def sameEntries_def entries_def)
qed

lemma ex_same_bytes: "same_bytes ex_reader ex_manifest_object"
  by (simp add: same_bytes_def ex_manifest_object_def manifest_object_of_def ex_object_row_def ex_reader_def ex_content_def)

lemma ex_claimed [simp]: "claimed_keys ex_manifests = [''p'']"
  by (simp add: claimed_keys_def ex_manifests_def ex_manifest_object_def manifest_object_of_def ex_object_row_def)

lemma ex_bucket_matches: "bucket_matches ex_reader [ex_listing] ex_manifests complete"
  by (simp add: bucket_matches_def) (simp add: ex_manifests_def ex_unchanged ex_same_bytes)

lemma ex_scan: obtains s where "Scan ex_reader ex_manifests ex_time complete = Inr s" "sr_MutationLock s = LockNone"
    "length (sr_Publications s) = 1" "bu_TotalBytes (sr_Usage s) = 3" "bu_AcceptedBytes (sr_Usage s) = 3"
    "bu_UnclaimedBytes (sr_Usage s) = 0" "sr_UnclaimedKeys s = []" "sr_ObservedAt s = ex_time"
proof -
  obtain s where s: "Scan ex_reader ex_manifests ex_time complete = Inr s" "sr_MutationLock s = LockNone"
      "sr_UnclaimedKeys s = []"
    using Scan_matching [OF ex_simps(1) ex_bucket_matches] by blast
  have "length (sr_Publications s) = 1 \<and> bu_TotalBytes (sr_Usage s) = 3 \<and> bu_AcceptedBytes (sr_Usage s) = 3 \<and>
      bu_UnclaimedBytes (sr_Usage s) = 0 \<and> sr_ObservedAt s = ex_time"
  proof (rule Scan_Inr [OF s(1)])
    fix listing
    assume l: "ListObjects ex_reader = Inr listing"
      and "list_all2 (\<lambda>m p. scanPublication ex_reader (index_by ol_Key listing) complete m = Inr p) ex_manifests (sr_Publications s)"
      and "bu_TotalBytes (sr_Usage s) = sum_list (map ol_Size listing)"
        "bu_AcceptedBytes (sr_Usage s) = (\<Sum>m \<leftarrow> ex_manifests. \<Sum>a \<leftarrow> pm_Objects m. mo_Size a)"
        "bu_UnclaimedBytes (sr_Usage s) = (\<Sum>k \<leftarrow> unclaimed_keys listing ex_manifests. observed_size (index_by ol_Key listing) k)"
        "sr_UnclaimedKeys s = unclaimed_keys listing ex_manifests" "sr_ObservedAt s = ex_time"
    then show ?thesis using s(3)
      by (auto dest!: list_all2_lengthD simp: ex_listing_def ex_manifests_def ex_manifest_object_def
          manifest_object_of_def ex_object_row_def)
  qed
  then show thesis using s that by blast
qed

end
