(* ===== verification/Adoption_Properties.thy ===== *)
theory Adoption_Properties
  imports Examples
begin

text \<open>
  The properties of package \<open>internal/adoption\<close>: what validation accepts and guarantees, when planning
  succeeds and what a plan says, and what committing an approved plan does on every path.
\<close>

section \<open>When planning succeeds\<close>

definition readable :: "reader \<Rightarrow> (string \<Rightarrow> object_listing option) \<Rightarrow> string \<Rightarrow> bool" where
  "readable rd observed key \<longleftrightarrow> (\<exists>listed content. observed key = Some listed \<and> ReadObject rd key = Inr content)"

definition probes_hold :: "prober \<Rightarrow> string \<Rightarrow> publication_declaration \<Rightarrow> bool" where
  "probes_hold pb base p \<longleftrightarrow>
     list_all (\<lambda>r. \<exists>ob. pb (probe_url base p r) = Inr ob \<and> pbo_Status ob = rp_ExpectStatus r) (pd_Probes p)"

lemma plan_objects_possible:
  "(\<exists>r. plan_objects rd observed path n keys = Inr r) \<longleftrightarrow> list_all (readable rd observed) keys"
proof (induction keys arbitrary: n)
  case (Cons key keys)
  show ?case
  proof (cases "readable rd observed key")
    case True
    then obtain listed content where k: "observed key = Some listed" "ReadObject rd key = Inr content"
      by (auto simp: readable_def)
    let ?n = "if After (modified_of listed content) n then modified_of listed content else n"
    have "(\<exists>r. plan_objects rd observed path n (key # keys) = Inr r)
        \<longleftrightarrow> (\<exists>r. plan_objects rd observed path ?n keys = Inr r)"
      by (auto simp: k Let_def bind_res_Inr split: prod.splits)
    then show ?thesis using Cons.IH True by simp
  next
    case False
    then show ?thesis
      by (auto simp: readable_def bind_res_Inr split: option.split)
  qed
qed simp

lemma map_res_possible: "(\<exists>ys. map_res f xs = Inr ys) \<longleftrightarrow> list_all (\<lambda>x. \<exists>y. f x = Inr y) xs"
proof (induction xs)
  case (Cons x xs)
  then show ?case by (cases "f x"; cases "map_res f xs") auto
qed simp

lemma plan_probes_possible:
  "(\<exists>qs. map_res (plan_probe pb path (CanonicalURL base (pd_Path p) (pd_EntryPoint p) (pd_RoutingMode p))) (pd_Probes p)
      = Inr qs) \<longleftrightarrow> probes_hold pb base p"
  unfolding map_res_possible probes_hold_def
  by (intro list.pred_cong refl) (simp add: plan_probe_Inr probed_as_def probe_url_def)

lemma planPublication_possible:
  "(\<exists>q. planPublication rd pb base observed p = Inr q) \<longleftrightarrow>
     list_all (readable rd observed) (pd_Objects p) \<and> probes_hold pb base p"
  unfolding plan_objects_possible [of rd observed "pd_Path p" 0, symmetric] plan_probes_possible [of pb "pd_Path p", symmetric]
  by (auto simp: planPublication_def Let_def bind_res_Inr)

text \<open>Everything planning asks of its inputs.\<close>

definition plannable :: "reader \<Rightarrow> prober \<Rightarrow> string \<Rightarrow> batch_declaration \<Rightarrow> bool" where
  "plannable rd pb url d \<longleftrightarrow> valid_batch d \<and> (\<exists>base listing. NormalizePublicBaseURL url = Inr base \<and>
     ListObjects rd = Inr listing \<and> ol_Key ` set listing \<subseteq> set (concat (map pd_Objects (dc_Publications d))) \<and>
     list_all (\<lambda>p. list_all (readable rd (index_by ol_Key listing)) (pd_Objects p) \<and> probes_hold pb base p)
       (dc_Publications d))"

lemma BuildPlan_possible: "(\<exists>pl. BuildPlan (Some rd) (Some pb) url d = Inr pl) \<longleftrightarrow> plannable rd pb url d"
proof (cases "NormalizePublicBaseURL url")
  case (Inl e)
  then show ?thesis by (simp add: BuildPlan_def plannable_def)
next
  case base: (Inr base)
  show ?thesis
  proof (cases "ListObjects rd")
    case (Inl e)
    then show ?thesis by (auto simp: BuildPlan_def plannable_def base res_iff)
  next
    case listing: (Inr listing)
    have "plannable rd pb url d \<longleftrightarrow> valid_batch d \<and> checkNoUnexpectedObjects listing d = None \<and>
      (\<exists>ps. map_res (planPublication rd pb base (index_by ol_Key listing)) (dc_Publications d) = Inr ps)"
      by (simp add: plannable_def base listing checkNoUnexpected_None map_res_possible planPublication_possible)
    then show ?thesis
      by (auto simp: BuildPlan_def base listing bind_res_Inr require_Inr Declaration_Validate_iff Let_def)
  qed
qed

section \<open>Properties\<close>

text \<open>
  C1. A commit that is not a replay planned the approved declaration again against storage and the public
  routes, and what it saw encodes like the approved plan (or SHA-256 collides on the two). The catalog then
  accepts what it accepted before plus exactly the planned Publications with their objects, it is
  consistent, and one operation with the plan's digest is recorded, under an ID not used before.
\<close>

theorem Commit_effect:
  assumes "Commit ce input c = (Inr \<lparr>cmr_Result = r, cmr_Replayed = False\<rparr>, c')" and "consistent c"
  shows "\<exists>rc. BuildPlan (ci_Reader input) (ci_Prober input) (pc_PublicBaseURL (plan_Content (ci_Approved input)))
       (pc_Declaration (plan_Content (ci_Approved input))) = Inr rc \<and>
     same_or_collision (plan_Content rc) (plan_Content (ci_Approved input)) \<and> consistent c' \<and>
     mset (accepted c') = mset (accepted c) + mset (offered_plan (pc_Publications (plan_Content rc))) \<and>
     adoption_operations c' = adoption_operations c @ [operation_row_of (ce_commit ce) (batch_of input rc) r] \<and>
     ci_OperationID input \<notin> op_operation_id ` set (adoption_operations c)"
  by (rule Commit_committed [OF assms]) blast

theorem Commit_effect_witness:
  "\<exists>r c'. Commit ex_commit_env ex_input empty_catalog = (Inr \<lparr>cmr_Result = r, cmr_Replayed = False\<rparr>, c') \<and>
     mset (accepted c') = mset (offered_plan [ex_planned])"
proof -
  obtain r c' where c': "Commit ex_commit_env ex_input empty_catalog = (Inr \<lparr>cmr_Result = r, cmr_Replayed = False\<rparr>, c')"
    using ex_commits by blast
  have "BuildPlan (ci_Reader ex_input) (ci_Prober ex_input) (pc_PublicBaseURL (plan_Content (ci_Approved ex_input)))
       (pc_Declaration (plan_Content (ci_Approved ex_input))) = Inr ex_plan"
    using ex_build by (simp add: ex_input_def)
  then have "mset (accepted c') = mset (offered_plan [ex_planned])"
    using Commit_effect [OF c' ex_consistent_empty] by (simp add: accepted_def empty_catalog_def)
  then show ?thesis using c' by blast
qed

text \<open>
  C18. \<open>Commit\<close> has three outcomes. Refused: an error, and the catalog as it was. Replayed: the recorded
  result of the same operation ID and plan digest, and the catalog as it was. Committed: a consistent
  catalog that extends the one before by one operation.
\<close>

theorem Commit_outcomes:
  assumes "Commit ce input c = (r, c')" and "consistent c"
  shows "(\<exists>err. r = Inl err) \<and> c' = c \<or>
     (\<exists>rc. FindOperation (ce_find ce) (ci_OperationID input) c = Inr (Some rc) \<and> r = replay rc \<and> c' = c \<and>
        or_RequestHash rc = RequestHash (ci_OperationID input) (plan_Digest (ci_Approved input))) \<or>
     (\<exists>res. r = Inr \<lparr>cmr_Result = res, cmr_Replayed = False\<rparr> \<and> consistent c' \<and> extends c c' \<and>
        length (adoption_operations c') = Suc (length (adoption_operations c)))"
  using assms(1)
proof (cases rule: Commit_cases)
  case (committed rechecked result)
  then have c: "Commit ce input c = (Inr \<lparr>cmr_Result = result, cmr_Replayed = False\<rparr>, c')" using assms(1) by simp
  have "consistent c' \<and> extends c c'" using committing.outcome [OF assms(2), of "(ce, input)"] c by simp
  moreover have "length (adoption_operations c') = Suc (length (adoption_operations c))"
    by (rule Commit_committed [OF c assms(2)]) simp
  ultimately show ?thesis using committed by blast
qed blast+

theorem Commit_outcomes_witness:
  "\<exists>c'. snd (Commit ex_commit_env ex_input empty_catalog) = c' \<and> extends empty_catalog c' \<and>
     length (adoption_operations c') = 1"
proof -
  obtain r c' where c': "Commit ex_commit_env ex_input empty_catalog = (Inr \<lparr>cmr_Result = r, cmr_Replayed = False\<rparr>, c')"
    using ex_commits by blast
  have "FindOperation (ce_find ex_commit_env) (ci_OperationID ex_input) empty_catalog = Inr None"
    by (simp add: FindOperation_def query_db_def ex_commit_env_def ex_env_def empty_catalog_def)
  then show ?thesis using Commit_outcomes [OF c' ex_consistent_empty] c' by (simp add: empty_catalog_def)
qed

text \<open>
  An approved plan can be committed. When \<open>BuildPlan\<close> produced it, its base URL normalises to itself, storage
  and routes answer as they did, the prefixes, paths and the operation ID are free, the driver works and
  the identities drawn are new, \<open>Commit\<close> commits.
\<close>

theorem Commit_liveness:
  assumes "BuildPlan (Some rd) (Some pb) url d = Inr pl"
    and "NormalizePublicBaseURL (pc_PublicBaseURL (plan_Content pl)) = Inr (pc_PublicBaseURL (plan_Content pl))"
    and "\<And>k content. ReadObject rd k = Inr content \<Longrightarrow> \<not> negative (oc_Size content)"
    and "input = \<lparr>ci_Reader = Some rd, ci_Prober = Some pb, ci_Approved = pl, ci_OperationID = opid,
      ci_ExpectedPublicBaseURL = []\<rparr>" and "opid \<noteq> []"
    and "consistent c" and "opid \<notin> op_operation_id ` set (adoption_operations c)"
    and "set (map (\<lambda>p. prj_Prefix (pd_Project p)) (dc_Publications d)) \<inter> prw_prefix ` set (projects c) = {}"
    and "set (map pd_Path (dc_Publications d)) \<inter> pub_path ` set (publications c) = {}"
    and "willing ce (draws_batch (adoptProjects (pc_Publications (plan_Content pl)))) c"
  shows "\<exists>r c'. Commit ce input c = (Inr \<lparr>cmr_Result = r, cmr_Replayed = False\<rparr>, c')"
  by (rule Commit_succeeds [OF assms(1,2) _ assms(4-10)]) (rule assms(3))

theorem Commit_liveness_witness:
  "\<exists>r c'. Commit ex_commit_env ex_input empty_catalog = (Inr \<lparr>cmr_Result = r, cmr_Replayed = False\<rparr>, c')"
  by (rule Commit_liveness [OF ex_build]) (simp_all add: ex_base_normal ex_sizes ex_input_def ex_draws_batch ex_willing
      ex_consistent_empty, simp_all add: empty_catalog_def)

text \<open>C17. \<open>Declaration.Validate\<close> accepts exactly the valid batches.\<close>

theorem Declaration_Validate_exact: "Declaration_Validate d = None \<longleftrightarrow> valid_batch d"
  by (rule Declaration_Validate_iff)

text \<open>
  C19. In a declaration that validates, every declared object lies inside its Publication, a key lies
  inside at most one Publication, no object is declared twice, and two probes with the same URL are the
  same probe of the same Publication.
\<close>

theorem one_owner:
  assumes "Declaration_Validate d = None" and "p \<in> set (dc_Publications d)" and "q \<in> set (dc_Publications d)"
  shows "(\<forall>k \<in> set (pd_Objects p). inside (pd_Path p) k) \<and>
     (inside (pd_Path p) k \<and> inside (pd_Path q) k \<longrightarrow> p = q) \<and>
     distinct (concat (map pd_Objects (dc_Publications d))) \<and>
     (probe_url base p r = probe_url base q s \<longrightarrow> p = q \<and> rp_Path r = rp_Path s)"
proof -
  have v: "valid_batch d" using assms(1) by (simp add: Declaration_Validate_iff)
  then have vp: "valid_publication p" "valid_publication q" and ua: "unambiguous_paths (dc_Publications d)"
    using assms(2,3) by (simp_all add: valid_batch_def)
  have owner: "p = q" if "inside (pd_Path p) x" "inside (pd_Path q) x" for x
    by (rule owner_unique [OF ua assms(2,3) that])
  have "p = q \<and> rp_Path r = rp_Path s" if eq: "probe_url base p r = probe_url base q s"
  proof -
    obtain x where x: "inside (pd_Path p) x" "probe_url base p r = base @ ''/'' @ x" using probe_url_inside [OF vp(1)] .
    obtain y where y: "inside (pd_Path q) y" "probe_url base q s = base @ ''/'' @ y" using probe_url_inside [OF vp(2)] .
    have "x = y" using eq x(2) y(2) by simp
    then have "p = q" using owner x(1) y(1) by blast
    then show ?thesis using eq probe_url_inj by blast
  qed
  then show ?thesis using owner v publication_objects_inside [OF vp(1)] by (auto simp: valid_batch_def)
qed

theorem one_owner_witness:
  "inside (pd_Path ex_publication) ''p'' \<and> distinct (concat (map pd_Objects (dc_Publications ex_declaration)))"
  using one_owner [of ex_declaration ex_publication ex_publication] ex_declaration_valid
  by (simp add: Declaration_Validate_iff)

text \<open>
  \<open>BuildPlan\<close> returns a plan exactly when the base URL normalises, the declaration is valid, storage lists
  no undeclared key, every declared object is listed and can be read, and every probe answers with the
  status the declaration expects.
\<close>

theorem BuildPlan_exactly_when: "(\<exists>pl. BuildPlan (Some rd) (Some pb) url d = Inr pl) \<longleftrightarrow> plannable rd pb url d"
  by (rule BuildPlan_possible)

text \<open>
  C27. A plan is exact: storage lists the declared keys and no others, every planned Publication is what
  the listing, the reads and the probes reported for its declaration, in key and path order, and the digest
  is the digest of the content.
\<close>

theorem BuildPlan_exact:
  assumes "BuildPlan (Some rd) (Some pb) url d = Inr pl"
  shows "\<exists>listing. ListObjects rd = Inr listing \<and>
     ol_Key ` set listing = set (concat (map pd_Objects (dc_Publications d))) \<and>
     list_all2 (published_as rd pb (pc_PublicBaseURL (plan_Content pl)) (index_by ol_Key listing))
       (dc_Publications d) (pc_Publications (plan_Content pl)) \<and>
     list_all (\<lambda>q. sorted (map plo_Key (plb_Objects q)) \<and> sorted (map plp_Path (plb_Probes q)))
       (pc_Publications (plan_Content pl)) \<and>
     pc_Declaration (plan_Content pl) = d \<and> plan_Digest pl = Digest (plan_Content pl)"
proof -
  obtain listing where l: "ListObjects rd = Inr listing"
    "ol_Key ` set listing = set (concat (map pd_Objects (dc_Publications d)))"
    "list_all2 (published_as rd pb (pc_PublicBaseURL (plan_Content pl)) (index_by ol_Key listing))
       (dc_Publications d) (pc_Publications (plan_Content pl))"
    "pc_Declaration (plan_Content pl) = d" "plan_Digest pl = Digest (plan_Content pl)"
    by (rule BuildPlan_Inr [OF assms]) simp
  have "list_all (\<lambda>q. sorted (map plo_Key (plb_Objects q)) \<and> sorted (map plp_Path (plb_Probes q)))
       (pc_Publications (plan_Content pl))"
    using l(3) by (induction rule: list_all2_induct) (auto simp: published_as_def)
  then show ?thesis using l by blast
qed

theorem BuildPlan_exact_witness:
  "\<exists>listing. ListObjects ex_reader = Inr listing \<and> ol_Key ` set listing = {''p''} \<and>
     list_all2 (published_as ex_reader ex_prober ex_base (index_by ol_Key listing)) [ex_publication] [ex_planned]"
  using BuildPlan_exact [OF ex_build] by simp

text \<open>
  A digest identifies what was approved: two plan contents with valid UTF-8 texts and the same digest
  are the same JSON document, or SHA-256 collides on their encodings.
\<close>

theorem digest_binds:
  assumes "Digest a = Digest b" and "valid_json (json_of_content a)" and "valid_json (json_of_content b)"
  shows "json_of_content a = json_of_content b \<or>
     collision (Marshal (json_of_content a)) (Marshal (json_of_content b))"
  using assms texts.text_eq_iff by (auto simp: Digest_eq same_or_collision_def)

theorem digest_binds_witness:
  "let a = \<lparr>pc_Version = 1, pc_PublicBaseURL = ''u'', pc_Declaration = \<lparr>dc_Version = 1, dc_Publications = []\<rparr>,
      pc_Publications = []\<rparr> in valid_json (json_of_content a) \<and> (json_of_content a = json_of_content a \<or>
        collision (Marshal (json_of_content a)) (Marshal (json_of_content a)))"
proof -
  let ?a = "\<lparr>pc_Version = 1, pc_PublicBaseURL = ''u'', pc_Declaration = \<lparr>dc_Version = 1, dc_Publications = []\<rparr>,
      pc_Publications = []\<rparr>"
  have v: "valid_json (json_of_content ?a)"
    by (simp add: json_of_content_def json_of_declaration_def json_slice_def valid_utf8_ascii byte_def)
  show ?thesis using digest_binds [OF refl v v] v by (simp add: Let_def)
qed

text \<open>
  A probe that is observed read the whole body: at most 32 MiB arrived, without a read error, and the
  recorded hash is the hash of exactly that body.
\<close>

theorem probe_hashes_whole_body:
  assumes "HTTPRouteProber_Probe get url = Inr ob"
  shows "\<exists>response. get url = Inr response \<and> length (hr_Body response) \<le> maxProbeBodyBytes \<and>
     hr_BodyError response = None \<and> pbo_Status ob = hr_StatusCode response \<and>
     pbo_BodySHA256 ob = ''sha256:'' @ sha256_hex (hr_Body response)"
proof -
  obtain response where r: "get url = Inr response"
    using assms by (auto simp: HTTPRouteProber_Probe_def bind_res_Inr split: if_splits)
  let ?read = "take (Suc maxProbeBodyBytes) (hr_Body response)"
  have short: "length ?read \<le> maxProbeBodyBytes"
    using assms r by (auto simp: HTTPRouteProber_Probe_def Let_def split: if_splits option.splits)
  then have len: "length (hr_Body response) \<le> maxProbeBodyBytes" by (simp add: min_def split: if_splits)
  then have whole: "?read = hr_Body response" by simp
  have "hr_BodyError response = None"
    using assms r len whole by (auto simp: HTTPRouteProber_Probe_def Let_def split: if_splits option.splits)
  then show ?thesis
    using assms r len whole by (auto simp: HTTPRouteProber_Probe_def Let_def split: if_splits)
qed

theorem probe_hashes_whole_body_witness:
  "\<exists>ob. HTTPRouteProber_Probe (\<lambda>u. Inr \<lparr>hr_StatusCode = 200, hr_ContentType = [], hr_Body = ''b'', hr_BodyError = None\<rparr>)
       ''https://a'' = Inr ob \<and> pbo_BodySHA256 ob = ''sha256:'' @ sha256_hex ''b''"
proof -
  let ?get = "\<lambda>u :: string. (Inr \<lparr>hr_StatusCode = 200, hr_ContentType = [], hr_Body = ''b'', hr_BodyError = None\<rparr> :: http_response res)"
  have "\<exists>ob. HTTPRouteProber_Probe ?get ''https://a'' = Inr ob"
    by (simp add: HTTPRouteProber_Probe_def ex_url maxProbeBodyBytes_def Let_def)
  then obtain ob where "HTTPRouteProber_Probe ?get ''https://a'' = Inr ob" by blast
  then show ?thesis using probe_hashes_whole_body by fastforce
qed

section \<open>Escapes in paths\<close>

text \<open>
  \<open>%\<close> is an ordinary character of a declared path, but canonical URLs are not escaped: two different valid paths
  have canonical URLs that are the same address once parsed.
\<close>

lemma percent_paths_collide:
  "validatePath ''p'' ''p/a b'' = None \<and> validatePath ''p'' ''p/a%20b'' = None \<and>
   url_Parse (CanonicalURL ''https://a'' ''p/a b'' e RoutingDirectoryIndex) =
   url_Parse (CanonicalURL ''https://a'' ''p/a%20b'' e RoutingDirectoryIndex) \<and>
   url_Parse (CanonicalURL ''https://a'' ''p/a b'' e RoutingDirectoryIndex) \<noteq> None"
proof -
  have "CanonicalURL ''https://a'' p e RoutingDirectoryIndex = ''https://a/'' @ p" for p
    by (simp add: CanonicalURL_def RoutingDirectoryIndex_def RoutingExactFile_def)
  moreover have "url_Parse ''https://a/p/a b'' = url_Parse ''https://a/p/a%20b''" "url_Parse ''https://a/p/a b'' \<noteq> None"
    by code_simp+
  moreover have "validatePath ''p'' ''p/a b'' = None" "validatePath ''p'' ''p/a%20b'' = None"
    by (simp_all add: validatePath_iff valid_path_def clean_segments_def clean_characters_def code_points_def runes_ascii
        byte_def IsControl_def IsSpace_def suffix_def)
  ultimately show ?thesis by simp
qed

end
