(* ===== verification/Catalog_Properties.thy ===== *)
theory Catalog_Properties
  imports Examples
begin

text \<open>
  The properties of package \<open>internal/catalog\<close>: the adoption transaction and its result, the identities it
  draws, and recording and reading observations and manifests.
\<close>

section \<open>A batch for the examples\<close>

definition ex_batch :: batch_input where
  "ex_batch = \<lparr>bi_OperationID = ''o'', bi_RequestHash = ''r'', bi_PlanDigest = ''d'',
     bi_Projects = [\<lparr>aj_Prefix = ''q'', aj_DisplayName = ''Q'', aj_Description = [],
       aj_Publications = [\<lparr>ap_Path = ''q/b'', ap_DisplayName = [], ap_Description = [], ap_EntryPoint = ''q/b/i'',
           ap_RoutingMode = ''fallback'', ap_ContentChangedAt = [],
           ap_Objects = [\<lparr>ao_Key = ''q/b/i'', ao_RelativePath = ''i'', ao_Size = 5, ao_ETag = [], ao_ModifiedAt = [],
             ao_ContentType = [], ao_ContentEncoding = [], ao_CacheControl = [], ao_UserMetadata = None,
             ao_SHA256 = []\<rparr>]\<rparr>]\<rparr>]\<rparr>"

lemma draw_has_shape: "uuid_shape (draw e n)"
  unfolding draw_def by (rule uuid_has_shape) simp

lemma ex_id_new: "draw e n \<noteq> ex_id c"
proof
  assume "draw e n = ex_id c"
  then have "uuid_shape (ex_id c)" by (metis draw_has_shape)
  then show False by (auto simp: uuid_shape_def ex_id_def)
qed

lemma ex_adoptable: "adoptable ex_env ex_batch ex_catalog"
  by (simp add: adoptable_def Let_def ex_batch_def well_formed_batch_def complete_project_def complete_publication_def
      batch_paths_def storable_def storable_objects_def routing_modes_def negative_def draws_batch_def
      draws_project_def ex_different fresh_from_def identities_def ex_id_new)
     (simp add: ex_catalog_def ex_publication_row_def ex_id_new)

lemma ex_batch_commits: "\<exists>r c'. CommitAdoptionBatch ex_env ex_batch ex_catalog = (Inr r, c')"
  by (rule CommitAdoptionBatch_succeeds [OF ex_no_faults ex_consistent ex_adoptable])

section \<open>Properties\<close>

text \<open>
  C14. A batch that commits leaves the catalog consistent and appends exactly its Publications, normalised,
  to the accepted state, and one operation that carries the result as JSON; observations stay as they were.
\<close>

theorem CommitAdoptionBatch_effect:
  assumes "CommitAdoptionBatch e input c = (Inr r, c')" and "consistent c"
  shows "consistent c' \<and>
     accepted c' = accepted c @ concat (map offered_project (normal_form (bi_Projects input))) \<and>
     map prw_prefix (projects c') = map prw_prefix (projects c) @ map aj_Prefix (normal_form (bi_Projects input)) \<and>
     adoption_operations c' = adoption_operations c @ [operation_row_of e input r] \<and>
     observations c' = observations c \<and> publication_observations c' = publication_observations c"
proof -
  have r: "commit_batch e input c = Inr (r, c')" using assms(1) by (simp add: CommitAdoptionBatch_def run_tx_Inr)
  show ?thesis by (rule commit_batch_Inr [OF r assms(2)]) (simp add: normalizeBatchProjects_Inr)
qed

theorem CommitAdoptionBatch_effect_witness:
  "\<exists>r c'. CommitAdoptionBatch ex_env ex_batch ex_catalog = (Inr r, c') \<and> consistent c' \<and>
     map prw_prefix (projects c') = [''p'', ''q'']"
proof -
  obtain r c' where c: "CommitAdoptionBatch ex_env ex_batch ex_catalog = (Inr r, c')" using ex_batch_commits by blast
  then show ?thesis using CommitAdoptionBatch_effect [OF c ex_consistent]
    by (simp add: normal_form_def sorted_project_def ex_batch_def ex_catalog_def)
qed

text \<open>
  A batch that nothing stands against commits: complete and without a prefix or path declared twice,
  storable, with free prefixes, paths and operation ID, a driver that works and identities that are new
  and different.
\<close>

theorem CommitAdoptionBatch_liveness:
  assumes "no_faults e" and "consistent c" and "adoptable e input c"
  shows "\<exists>r c'. CommitAdoptionBatch e input c = (Inr r, c')"
  by (rule CommitAdoptionBatch_succeeds [OF assms])

theorem CommitAdoptionBatch_liveness_witness: "\<exists>r c'. CommitAdoptionBatch ex_env ex_batch ex_catalog = (Inr r, c')"
  by (rule CommitAdoptionBatch_liveness [OF ex_no_faults ex_consistent ex_adoptable])

text \<open>
  \<open>normalizeBatchProjects\<close> accepts exactly the well-formed batches and returns them with Projects in prefix
  order and Publications in path order.
\<close>

theorem normalizeBatchProjects_exact:
  "normalizeBatchProjects js = Inr ns \<longleftrightarrow> well_formed_batch js \<and> ns = normal_form js"
  by (rule normalizeBatchProjects_Inr)

text \<open>
  The result of a batch reports every Project and Publication of the normalised batch once, in order,
  with its identities, object count and size and their totals - and an empty \<open>CommittedAt\<close>, which the code
  never assigns.
\<close>

theorem CommitAdoptionBatch_reports:
  assumes "CommitAdoptionBatch e input c = (Inr r, c')"
  shows "reports e (normal_form (bi_Projects input)) r \<and> ar_OperationID r = bi_OperationID input \<and> ar_CommittedAt r = []"
  using assms commit_batch_reports [of e input c r c']
  by (simp add: CommitAdoptionBatch_def run_tx_Inr reports_def)

theorem CommitAdoptionBatch_reports_witness:
  "\<exists>r c'. CommitAdoptionBatch ex_env ex_batch ex_catalog = (Inr r, c') \<and> ar_OperationID r = ''o'' \<and> ar_CommittedAt r = []"
proof -
  obtain r c' where c: "CommitAdoptionBatch ex_env ex_batch ex_catalog = (Inr r, c')" using ex_batch_commits by blast
  then show ?thesis using CommitAdoptionBatch_reports [OF c] by (simp add: ex_batch_def)
qed


text \<open>
  Recording an observation, whether it succeeds or fails, leaves Projects, Publications, manifests and
  operations exactly as they were.
\<close>

theorem RecordObservation_keeps_accepted:
  assumes "RecordObservation e rec c = (r, c')" and "consistent c"
  shows "accepted c' = accepted c \<and> projects c' = projects c \<and> publications c' = publications c \<and>
    manifest_revisions c' = manifest_revisions c \<and> manifest_objects c' = manifest_objects c \<and>
    adoption_operations c' = adoption_operations c"
  by (rule RecordObservation_accepted [OF assms])

definition ex_record :: observation_record where
  "ex_record = \<lparr>oor_ObservedAt = ex_time, oor_MutationLock = LockGlobal, oor_TotalBytes = 9, oor_AcceptedBytes = 3,
     oor_UnclaimedBytes = 6, oor_UnclaimedKeys = [''u''],
     oor_Publications = [\<lparr>por_PublicationID = ex_id (CHR ''b''), por_State = StateDrifted, por_ObservedSize = Some 3,
       por_StatusDetail = ''x''\<rparr>]\<rparr>"

lemma ex_recordable: "recordable ex_env ex_record ex_catalog"
  by (simp add: recordable_def Let_def ex_record_def known_lock_def known_state_def IsZero_def ex_year negative_def
      ex_different observation_ids_def)
     (simp add: ex_catalog_def ex_publication_row_def)

lemma ex_records: "\<exists>c'. RecordObservation ex_env ex_record ex_catalog = (Inr (), c')"
  by (rule RecordObservation_succeeds [OF ex_no_faults ex_consistent ex_recordable])

theorem RecordObservation_keeps_accepted_witness:
  "\<exists>c'. RecordObservation ex_env ex_record ex_catalog = (Inr (), c') \<and> accepted c' = accepted ex_catalog"
proof -
  obtain c' where c: "RecordObservation ex_env ex_record ex_catalog = (Inr (), c')" using ex_records by blast
  then show ?thesis using RecordObservation_keeps_accepted [OF c ex_consistent] by blast
qed

text \<open>
  C30. The newest recorded observation is what \<open>LatestObservation\<close> returns: the same lock, usage, unclaimed
  keys and per-Publication states, its time truncated to the second.
\<close>

theorem LatestObservation_returns_recorded:
  assumes "RecordObservation e rec c = (Inr u, c')" and "consistent c"
    and "\<And>q. q \<in> set (observations c) \<Longrightarrow> obs_status q = observationComplete \<Longrightarrow>
      obs_observed_at q \<le> FormatRFC3339 (oor_ObservedAt rec)"
    and "year_ok (oor_ObservedAt rec)" and "list_all valid_utf8 (oor_UnclaimedKeys rec)" and "no_faults e'"
  shows "LatestObservation e' c' = Inr (Some
    \<lparr>ors_ObservationID = draw e 0, ors_ObservedAt = oor_ObservedAt rec div second * second,
     ors_MutationLock = oor_MutationLock rec,
     ors_Usage = \<lparr>bu_QuotaBytes = 0, bu_TotalBytes = oor_TotalBytes rec,
       bu_AcceptedBytes = oor_AcceptedBytes rec, bu_UnclaimedBytes = oor_UnclaimedBytes rec\<rparr>,
     ors_UnclaimedKeys = oor_UnclaimedKeys rec,
     ors_Publications = (\<lambda>pid. map_option recorded_publication (index_by por_PublicationID (oor_Publications rec) pid))\<rparr>)"
  by (rule LatestObservation_recorded [OF assms(1,2) _ assms(4,5)]) (use assms(3,6) in \<open>simp_all add: no_faults_def\<close>)

theorem LatestObservation_returns_recorded_witness:
  "\<exists>c' obs. RecordObservation ex_env ex_record ex_catalog = (Inr (), c') \<and> LatestObservation ex_env c' = Inr (Some obs) \<and>
     ors_UnclaimedKeys obs = [''u''] \<and> ors_ObservedAt obs = ex_time \<and> ors_MutationLock obs = LockGlobal"
proof -
  obtain c' where c: "RecordObservation ex_env ex_record ex_catalog = (Inr (), c')" using ex_records by blast
  have "year_ok (oor_ObservedAt ex_record)" "list_all valid_utf8 (oor_UnclaimedKeys ex_record)" "observations ex_catalog = []"
    by (simp_all add: ex_record_def ex_year valid_utf8_ascii byte_def ex_catalog_def)
  then show ?thesis
    using c LatestObservation_returns_recorded [OF c ex_consistent _ _ _ ex_no_faults] by (simp add: ex_record_def ex_year)
qed

text \<open>
  C31. \<open>AcceptedManifests\<close> is the specification: every Publication whose current manifest holds objects, in path
  order, with these objects in key order and their metadata decoded.
\<close>

theorem AcceptedManifests_exact:
  assumes "catalog_ok c" and "\<not> env_fault e 0"
    and "\<And>p r. p \<in> set (publications c) \<Longrightarrow> r \<in> set (manifest_rows c p) \<Longrightarrow>
      decode_metadata (obj_user_metadata r) = Some (dec r)"
  shows "AcceptedManifests e c = Inr (manifest_spec dec c)"
  by (rule AcceptedManifests_spec [OF assms(1,2)]) (rule assms(3))

theorem AcceptedManifests_exact_witness:
  "AcceptedManifests ex_env ex_catalog = Inr (manifest_spec (\<lambda>r. Some []) ex_catalog)"
proof (rule AcceptedManifests_exact)
  show "decode_metadata (obj_user_metadata r) = Some (Some [])" if "r \<in> set (manifest_rows ex_catalog p)" for p r
    using that by (simp add: manifest_rows_def ex_catalog_def ex_object_row_def ex_metadata split: if_splits)
  show "catalog_ok ex_catalog" using ex_consistent by (simp add: consistent_def)
qed (simp add: ex_env_def)

end
