(* ===== verification/Service.thy ===== *)
theory Service
  imports Scan Machine
begin

text \<open>
  \<open>internal/observe/service.go\<close>: the single in-flight observation. Every caller of \<open>Refresh\<close> is a thread;
  each critical section of the mutex, the scan outside it and the wait on the channel are one step each,
  so callers interleave as goroutines do. Only one scan runs at a time, nobody waits for a channel that
  no running scan will close, and a scan counts once for everyone who joined it.
\<close>

section \<open>Outcomes and configuration\<close>

datatype outcome = OutcomeNever | OutcomeSucceeded | OutcomeUnavailable | OutcomeMisconfigured | OutcomeFailed

definition OutcomeOf :: "error option \<Rightarrow> outcome" where
  "OutcomeOf e = (case e of
       None \<Rightarrow> OutcomeSucceeded
     | Some err \<Rightarrow>
         if errors_Is err ErrStorageUnavailable then OutcomeUnavailable
         else if errors_Is err ErrStorageMisconfigured then OutcomeMisconfigured
         else OutcomeFailed)"

record service_options =
  so_DailyInterval :: duration
  so_RetryDelay :: duration

definition DefaultDailyInterval :: duration where "DefaultDailyInterval = 24 * 3600 * second"
definition DefaultRetryDelay :: duration where "DefaultRetryDelay = 30 * second"

definition service_intervals :: "service_options \<Rightarrow> service_options" where
  "service_intervals opts =
     \<lparr>so_DailyInterval = (if so_DailyInterval opts \<le> 0 then DefaultDailyInterval else so_DailyInterval opts),
      so_RetryDelay = (if so_RetryDelay opts \<le> 0 then DefaultRetryDelay else so_RetryDelay opts)\<rparr>"

text \<open>The timer \<open>Start\<close> sets after a scan.\<close>

definition next_delay :: "service_options \<Rightarrow> outcome \<Rightarrow> duration" where
  "next_delay opts out = (if out \<noteq> OutcomeSucceeded then so_RetryDelay opts else so_DailyInterval opts)"

text \<open>\<open>scan\<close>: one run, classified.\<close>

definition scan_outcome :: "env \<Rightarrow> env \<Rightarrow> reader \<Rightarrow> catalog \<Rightarrow> outcome \<times> catalog" where
  "scan_outcome re we rd c =
     (case Run re we rd False c of
        (Inl err, c') \<Rightarrow> (OutcomeOf (Some err), c') | (Inr r, c') \<Rightarrow> (OutcomeOf None, c'))"

section \<open>Refresh as a protocol\<close>

type_synonym chan = nat
type_synonym tid = nat

datatype refresh_phase =
    Ready
  | Joined chan
  | Woken chan
  | Scanning chan
  | Scanned chan outcome
  | Returned outcome

record service =
  sv_running :: "chan option"
  sv_lastOutcome :: outcome
  sv_next :: chan
  sv_closed :: "chan \<Rightarrow> outcome option"
  sv_phase :: "tid \<Rightarrow> refresh_phase"

text \<open>\<open>sv_closed ch\<close> is set when the channel is closed, to the outcome of the scan that closed it.\<close>

definition NewService :: service where
  "NewService = \<lparr>sv_running = None, sv_lastOutcome = OutcomeNever, sv_next = 0, sv_closed = Map.empty,
     sv_phase = (\<lambda>t. Ready)\<rparr>"

definition State :: "service \<Rightarrow> bool \<times> outcome" where
  "State s = (sv_running s \<noteq> None, sv_lastOutcome s)"

datatype refresh_call = Enter tid | DoScan tid outcome | Finish tid | Wake tid | ReadOutcome tid | Leave tid

definition set_phase :: "tid \<Rightarrow> refresh_phase \<Rightarrow> service \<Rightarrow> service" where
  "set_phase t ph s = s\<lparr>sv_phase := (sv_phase s)(t := ph)\<rparr>"

fun refresh_exec :: "refresh_call \<Rightarrow> service \<Rightarrow> service option" where
  "refresh_exec (Enter t) s = (case sv_phase s t of
     Ready \<Rightarrow>
       (case sv_running s of
          Some done \<Rightarrow> Some (set_phase t (Joined done) s)
        | None \<Rightarrow> Some (set_phase t (Scanning (sv_next s))
            (s\<lparr>sv_running := Some (sv_next s), sv_next := Suc (sv_next s)\<rparr>)))
   | _ \<Rightarrow> None)"
| "refresh_exec (DoScan t out) s = (case sv_phase s t of
     Scanning ch \<Rightarrow> if out = OutcomeNever then None else Some (set_phase t (Scanned ch out) s)
   | _ \<Rightarrow> None)"
| "refresh_exec (Finish t) s = (case sv_phase s t of
     Scanned ch out \<Rightarrow> Some (set_phase t (Returned out)
       (s\<lparr>sv_lastOutcome := out, sv_running := None, sv_closed := (sv_closed s)(ch \<mapsto> out)\<rparr>))
   | _ \<Rightarrow> None)"
| "refresh_exec (Wake t) s = (case sv_phase s t of
     Joined ch \<Rightarrow> if sv_closed s ch \<noteq> None then Some (set_phase t (Woken ch) s) else None
   | _ \<Rightarrow> None)"
| "refresh_exec (ReadOutcome t) s = (case sv_phase s t of
     Woken ch \<Rightarrow> Some (set_phase t (Returned (sv_lastOutcome s)) s) | _ \<Rightarrow> None)"
| "refresh_exec (Leave t) s = (case sv_phase s t of
     Returned out \<Rightarrow> Some (set_phase t Ready s) | _ \<Rightarrow> None)"

section \<open>The invariant\<close>

text \<open>A thread that owns the scan of a channel.\<close>

definition scanner :: "service \<Rightarrow> tid \<Rightarrow> chan \<Rightarrow> bool" where
  "scanner s t ch \<longleftrightarrow> sv_phase s t = Scanning ch \<or> (\<exists>out. sv_phase s t = Scanned ch out)"

definition waiter :: "service \<Rightarrow> tid \<Rightarrow> chan \<Rightarrow> bool" where
  "waiter s t ch \<longleftrightarrow> sv_phase s t = Joined ch"

definition service_inv :: "service \<Rightarrow> bool" where
  "service_inv s \<longleftrightarrow>
     (\<forall>t ch. scanner s t ch \<longrightarrow> sv_running s = Some ch) \<and>
     (\<forall>t u ch. scanner s t ch \<longrightarrow> scanner s u ch \<longrightarrow> t = u) \<and>
     (\<forall>ch. sv_running s = Some ch \<longrightarrow> (\<exists>t. scanner s t ch) \<and> sv_closed s ch = None \<and> ch < sv_next s) \<and>
     (\<forall>t ch. waiter s t ch \<longrightarrow> sv_running s = Some ch \<or> sv_closed s ch \<noteq> None) \<and>
     (\<forall>ch. sv_closed s ch \<noteq> None \<longrightarrow> ch < sv_next s)"

lemma service_inv_init: "service_inv NewService"
  by (simp add: service_inv_def NewService_def scanner_def waiter_def)

lemma set_phase_simps [simp]:
  "sv_running (set_phase t ph s) = sv_running s" "sv_lastOutcome (set_phase t ph s) = sv_lastOutcome s"
  "sv_next (set_phase t ph s) = sv_next s" "sv_closed (set_phase t ph s) = sv_closed s"
  "sv_phase (set_phase t ph s) = (sv_phase s)(t := ph)"
  by (simp_all add: set_phase_def)

text \<open>Threads that start, stop or move between phases without a scan keep the invariant.\<close>

lemma scanner_set_phase:
  "scanner (set_phase t ph s) u ch \<longleftrightarrow>
     (if u = t then ph = Scanning ch \<or> (\<exists>out. ph = Scanned ch out) else scanner s u ch)"
  "waiter (set_phase t ph s) u ch \<longleftrightarrow> (if u = t then ph = Joined ch else waiter s u ch)"
  by (auto simp: scanner_def waiter_def)

lemma scanner_update [simp]:
  "scanner (s\<lparr>sv_running := r, sv_next := n\<rparr>) = scanner s"
  "scanner (s\<lparr>sv_lastOutcome := l, sv_running := r, sv_closed := c\<rparr>) = scanner s"
  "waiter (s\<lparr>sv_running := r, sv_next := n\<rparr>) = waiter s"
  "waiter (s\<lparr>sv_lastOutcome := l, sv_running := r, sv_closed := c\<rparr>) = waiter s"
  by (auto simp: scanner_def waiter_def fun_eq_iff)

lemma service_inv_step:
  assumes "refresh_exec a s = Some s'" and inv: "service_inv s"
  shows "service_inv s'"
proof (cases a)
  case (Enter t)
  then have ready: "sv_phase s t = Ready" using assms(1) by (auto split: refresh_phase.splits)
  have none: "\<not> scanner s t ch" for ch using ready by (simp add: scanner_def)
  show ?thesis
  proof (cases "sv_running s")
    case None
    then have s': "s' = set_phase t (Scanning (sv_next s))
        (s\<lparr>sv_running := Some (sv_next s), sv_next := Suc (sv_next s)\<rparr>)"
      using assms(1) Enter ready by simp
    have "\<not> scanner s u ch" for u ch using inv None by (auto simp: service_inv_def)
    moreover have "sv_closed s (sv_next s) = None" using inv unfolding service_inv_def by blast
    moreover have "ch < Suc (sv_next s)" if "sv_closed s ch \<noteq> None" for ch
      using inv that unfolding service_inv_def by (metis less_SucI)
    moreover have "sv_closed s ch \<noteq> None" if "waiter s u ch" for u ch
      using inv that None unfolding service_inv_def by (metis option.distinct(1))
    ultimately show ?thesis unfolding service_inv_def s' by (simp add: scanner_set_phase)
  next
    case (Some ch)
    then have s': "s' = set_phase t (Joined ch) s" using assms(1) Enter ready by simp
    show ?thesis
      using inv Some none unfolding service_inv_def s'
      by (simp add: scanner_set_phase) metis
  qed
next
  case (DoScan t out)
  then obtain ch where ch: "sv_phase s t = Scanning ch" and s': "s' = set_phase t (Scanned ch out) s"
    using assms(1) by (auto split: refresh_phase.splits if_splits)
  have "scanner s' = scanner s" "waiter s' = waiter s"
    using ch by (auto simp: s' scanner_def waiter_def fun_eq_iff)
  then show ?thesis using inv unfolding service_inv_def by (simp add: s')
next
  case (Finish t)
  then obtain ch out where ch: "sv_phase s t = Scanned ch out"
    and s': "s' = set_phase t (Returned out)
       (s\<lparr>sv_lastOutcome := out, sv_running := None, sv_closed := (sv_closed s)(ch \<mapsto> out)\<rparr>)"
    using assms(1) by (auto split: refresh_phase.splits)
  have t: "scanner s t ch" using ch by (auto simp: scanner_def)
  then have run: "sv_running s = Some ch" "ch < sv_next s" using inv unfolding service_inv_def by blast+
  have "u = t" if "scanner s u ch'" for u ch'
    using inv that t run unfolding service_inv_def by (metis option.inject)
  then have none: "\<not> scanner s' u ch'" for u ch' by (auto simp: s' scanner_set_phase)
  have "sv_closed s' ch' \<noteq> None" if "waiter s' u ch'" for u ch'
  proof -
    have "waiter s u ch'" using that by (auto simp: s' scanner_set_phase split: if_splits)
    then have "sv_running s = Some ch' \<or> sv_closed s ch' \<noteq> None" using inv unfolding service_inv_def by blast
    then show ?thesis using run by (auto simp: s')
  qed
  moreover have "ch' < sv_next s'" if "sv_closed s' ch' \<noteq> None" for ch'
  proof (cases "ch' = ch")
    case False
    then have "sv_closed s ch' \<noteq> None" using that by (simp add: s')
    then show ?thesis using inv unfolding service_inv_def by (simp add: s')
  qed (use run in \<open>simp add: s'\<close>)
  ultimately show ?thesis using none unfolding service_inv_def by (auto simp: s')
next
  case (Wake t)
  then obtain ch where ch: "sv_phase s t = Joined ch" and s': "s' = set_phase t (Woken ch) s"
    using assms(1) by (auto split: refresh_phase.splits if_splits)
  have "scanner s' = scanner s" using ch by (auto simp: s' scanner_def fun_eq_iff)
  moreover have "waiter s' u c \<Longrightarrow> waiter s u c" for u c by (auto simp: s' scanner_set_phase split: if_splits)
  ultimately show ?thesis using inv unfolding service_inv_def by (simp add: s') blast
next
  case (ReadOutcome t)
  then obtain ch where ch: "sv_phase s t = Woken ch" and s': "s' = set_phase t (Returned (sv_lastOutcome s)) s"
    using assms(1) by (auto split: refresh_phase.splits)
  have "scanner s' = scanner s" "waiter s' = waiter s"
    using ch by (auto simp: s' scanner_def waiter_def fun_eq_iff)
  then show ?thesis using inv unfolding service_inv_def by (simp add: s')
next
  case (Leave t)
  then obtain out where ch: "sv_phase s t = Returned out" and s': "s' = set_phase t Ready s"
    using assms(1) by (auto split: refresh_phase.splits)
  have "scanner s' = scanner s" "waiter s' = waiter s"
    using ch by (auto simp: s' scanner_def waiter_def fun_eq_iff)
  then show ?thesis using inv unfolding service_inv_def by (simp add: s')
qed

interpretation refreshing: machine refresh_exec NewService service_inv
  by unfold_locales (rule service_inv_init, erule (1) service_inv_step)

section \<open>What the callers get\<close>

lemma service_invD:
  assumes "service_inv s"
  shows "scanner s t ch \<Longrightarrow> sv_running s = Some ch"
    and "scanner s t ch \<Longrightarrow> scanner s u ch \<Longrightarrow> t = u"
    and "sv_running s = Some ch \<Longrightarrow> \<exists>t. scanner s t ch"
    and "waiter s t ch \<Longrightarrow> sv_running s = Some ch \<or> sv_closed s ch \<noteq> None"
  using assms unfolding service_inv_def by blast+

lemma scanner_exclusive:
  assumes "service_inv s" and "scanner s t ch" and "scanner s u ch'"
  shows "t = u \<and> ch = ch'"
proof -
  have "sv_running s = Some ch" "sv_running s = Some ch'" using service_invD(1) assms by blast+
  then have "ch = ch'" by simp
  then show ?thesis using service_invD(2) [OF assms(1)] assms(2,3) by blast
qed

text \<open>A scanning caller can finish, and closes its channel.\<close>

lemma scanner_finishes:
  assumes "scanner s t ch"
  shows "\<exists>as s' out. run_calls refresh_exec as s = Some s' \<and> length as \<le> 2 \<and> sv_closed s' ch = Some out \<and>
           sv_phase s' = (sv_phase s)(t := Returned out)"
proof (cases "sv_phase s t")
  case (Scanning ch')
  then have "ch' = ch" using assms by (simp add: scanner_def)
  then show ?thesis using Scanning
    by (intro exI [of _ "[DoScan t OutcomeFailed, Finish t]"]) (simp add: set_phase_def)
next
  case (Scanned ch' out)
  then have "ch' = ch" using assms by (simp add: scanner_def)
  then show ?thesis using Scanned by (intro exI [of _ "[Finish t]"]) (simp add: set_phase_def)
qed (use assms in \<open>simp_all add: scanner_def\<close>)

lemma closed_wakes:
  assumes "sv_phase s t = Joined ch" and "sv_closed s ch = Some out"
  shows "\<exists>s'. run_calls refresh_exec [Wake t, ReadOutcome t] s = Some s' \<and> sv_phase s' t = Returned (sv_lastOutcome s)"
  using assms by (simp add: set_phase_def)

text \<open>Every caller that entered can get its answer, in at most four steps.\<close>

lemma caller_returns:
  assumes "service_inv s" and "sv_phase s t \<noteq> Ready"
  shows "\<exists>as s' out. run_calls refresh_exec as s = Some s' \<and> length as \<le> 4 \<and> sv_phase s' t = Returned out"
proof (cases "sv_phase s t")
  case (Joined ch)
  show ?thesis
  proof (cases "sv_closed s ch")
    case None
    then have "sv_running s = Some ch" using service_invD(4) [OF assms(1)] Joined by (metis waiter_def)
    then obtain u where u: "scanner s u ch" using service_invD(3) [OF assms(1)] by blast
    then have "u \<noteq> t" using Joined by (auto simp: scanner_def)
    obtain as s1 out where r: "run_calls refresh_exec as s = Some s1" "length as \<le> 2" "sv_closed s1 ch = Some out"
        "sv_phase s1 = (sv_phase s)(u := Returned out)"
      using scanner_finishes [OF u] by blast
    then have "sv_phase s1 t = Joined ch" using Joined \<open>u \<noteq> t\<close> by simp
    from closed_wakes [OF this r(3)] obtain s2 where
      "run_calls refresh_exec [Wake t, ReadOutcome t] s1 = Some s2" "sv_phase s2 t = Returned (sv_lastOutcome s1)" by blast
    then show ?thesis using r by (intro exI [of _ "as @ [Wake t, ReadOutcome t]"]) (simp add: run_calls_append)
  next
    case (Some out)
    then show ?thesis using closed_wakes [OF Joined Some]
      by (intro exI [of _ "[Wake t, ReadOutcome t]"]) auto
  qed
next
  case (Woken ch)
  then show ?thesis by (intro exI [of _ "[ReadOutcome t]"]) (simp add: set_phase_def)
next
  case (Scanning ch)
  then have "scanner s t ch" by (simp add: scanner_def)
  from scanner_finishes [OF this] obtain as s' out where
    "run_calls refresh_exec as s = Some s'" "length as \<le> 2" "sv_phase s' = (sv_phase s)(t := Returned out)" by blast
  then show ?thesis by (intro exI [of _ as]) simp
next
  case (Scanned ch out)
  then show ?thesis by (intro exI [of _ "[Finish t]"]) (simp add: set_phase_def)
next
  case (Returned out)
  then show ?thesis by (intro exI [of _ "[]"]) simp
qed (use assms in simp)

text \<open>
  A caller that joins a scan and is woken only after a later scan has ended returns the later scan's
  outcome: the channel it waited for was closed by a scan that succeeded.
\<close>

definition late_join :: "refresh_call list" where
  "late_join = [Enter 0, Enter 1, DoScan 0 OutcomeSucceeded, Finish 0, Enter 2, DoScan 2 OutcomeFailed, Finish 2,
     Wake 1, ReadOutcome 1]"

lemma late_join_outcome:
  "\<exists>s. run_calls refresh_exec late_join NewService = Some s \<and> sv_closed s 0 = Some OutcomeSucceeded \<and>
     sv_phase s 1 = Returned OutcomeFailed"
  by (simp add: late_join_def NewService_def set_phase_def)

end
