(* ===== verification/Catalog_Lock.thy ===== *)
theory Catalog_Lock
  imports Machine
begin

text \<open>
  \<open>internal/catalog/lock.go\<close>: the advisory lock on a sidecar file. The file system has the path of the
  lock file, which names an inode or nothing, and for every inode the process that holds its \<open>flock\<close>.
  Each system call of \<open>acquireFlock\<close> and \<open>Release\<close> is one step of one process, so the steps of several
  processes interleave. \<open>flock\<close> excludes per inode; the path may meanwhile name another inode.
\<close>

section \<open>Processes and the lock file\<close>

type_synonym pid = nat
type_synonym inode = nat

text \<open>Where a process is: between calls, after \<open>OpenFile\<close>, with the lock, after \<open>Remove\<close>, after \<open>LOCK_UN\<close>.\<close>

datatype lock_phase = Idle | Opened inode | Holding inode | Unlinked inode | Unlocked inode

record lock_state =
  lk_path :: "inode option"
  lk_next :: inode
  lk_flock :: "inode \<Rightarrow> pid option"
  lk_phase :: "pid \<Rightarrow> lock_phase"

definition lock_init :: lock_state where
  "lock_init = \<lparr>lk_path = None, lk_next = 0, lk_flock = Map.empty, lk_phase = (\<lambda>p. Idle)\<rparr>"

definition LockPath :: "string \<Rightarrow> string" where
  "LockPath catalogPath = catalogPath @ ''.lock''"

text \<open>\<open>os.OpenFile(lockPath, O_CREATE|O_RDWR)\<close>: the named inode, or a new one.\<close>

definition open_file :: "pid \<Rightarrow> lock_state \<Rightarrow> lock_state" where
  "open_file p s = (case lk_path s of
       Some i \<Rightarrow> s\<lparr>lk_phase := (lk_phase s)(p := Opened i)\<rparr>
     | None \<Rightarrow> s\<lparr>lk_path := Some (lk_next s), lk_next := Suc (lk_next s),
                lk_phase := (lk_phase s)(p := Opened (lk_next s))\<rparr>)"

inductive lock_step :: "lock_state \<Rightarrow> lock_state \<Rightarrow> bool" where
  open_step: "lk_phase s p = Idle \<Longrightarrow> lock_step s (open_file p s)"
| flock_ok: "lk_phase s p = Opened i \<Longrightarrow> lk_flock s i = None \<Longrightarrow>
    lock_step s (s\<lparr>lk_flock := (lk_flock s)(i \<mapsto> p), lk_phase := (lk_phase s)(p := Holding i)\<rparr>)"
| flock_busy: "lk_phase s p = Opened i \<Longrightarrow> lk_flock s i = Some q \<Longrightarrow>
    lock_step s (s\<lparr>lk_phase := (lk_phase s)(p := Idle)\<rparr>)"
| remove_step: "lk_phase s p = Holding i \<Longrightarrow>
    lock_step s (s\<lparr>lk_path := None, lk_phase := (lk_phase s)(p := Unlinked i)\<rparr>)"
| unlock_step: "lk_phase s p = Unlinked i \<Longrightarrow>
    lock_step s (s\<lparr>lk_flock := (lk_flock s)(i := None), lk_phase := (lk_phase s)(p := Unlocked i)\<rparr>)"
| close_step: "lk_phase s p = Unlocked i \<Longrightarrow> lock_step s (s\<lparr>lk_phase := (lk_phase s)(p := Idle)\<rparr>)"

inductive_cases lock_stepE: "lock_step s s'"

text \<open>The calls of a process as functions, to run schedules; \<open>None\<close> when the call is not its next one.\<close>

datatype lock_call = CallOpen pid | CallFlock pid | CallRemove pid | CallUnlock pid | CallClose pid

fun lock_exec :: "lock_call \<Rightarrow> lock_state \<Rightarrow> lock_state option" where
  "lock_exec (CallOpen p) s = (if lk_phase s p = Idle then Some (open_file p s) else None)"
| "lock_exec (CallFlock p) s = (case lk_phase s p of
     Opened i \<Rightarrow> (case lk_flock s i of
        None \<Rightarrow> Some (s\<lparr>lk_flock := (lk_flock s)(i \<mapsto> p), lk_phase := (lk_phase s)(p := Holding i)\<rparr>)
      | Some q \<Rightarrow> Some (s\<lparr>lk_phase := (lk_phase s)(p := Idle)\<rparr>))
   | _ \<Rightarrow> None)"
| "lock_exec (CallRemove p) s = (case lk_phase s p of
     Holding i \<Rightarrow> Some (s\<lparr>lk_path := None, lk_phase := (lk_phase s)(p := Unlinked i)\<rparr>) | _ \<Rightarrow> None)"
| "lock_exec (CallUnlock p) s = (case lk_phase s p of
     Unlinked i \<Rightarrow> Some (s\<lparr>lk_flock := (lk_flock s)(i := None), lk_phase := (lk_phase s)(p := Unlocked i)\<rparr>)
   | _ \<Rightarrow> None)"
| "lock_exec (CallClose p) s = (case lk_phase s p of
     Unlocked i \<Rightarrow> Some (s\<lparr>lk_phase := (lk_phase s)(p := Idle)\<rparr>) | _ \<Rightarrow> None)"

lemma lock_exec_step: "lock_exec a s = Some s' \<Longrightarrow> lock_step s s'"
  by (cases a) (auto split: if_splits lock_phase.splits option.splits intro: lock_step.intros)

lemma lock_step_exec:
  assumes "lock_step s s'"
  shows "\<exists>a. lock_exec a s = Some s'"
  using assms
proof cases
  case (open_step p)
  then show ?thesis by (intro exI [of _ "CallOpen p"]) simp
next
  case (flock_ok p i)
  then show ?thesis by (intro exI [of _ "CallFlock p"]) simp
next
  case (flock_busy p i q)
  then show ?thesis by (intro exI [of _ "CallFlock p"]) simp
next
  case (remove_step p i)
  then show ?thesis by (intro exI [of _ "CallRemove p"]) simp
next
  case (unlock_step p i)
  then show ?thesis by (intro exI [of _ "CallUnlock p"]) simp
next
  case (close_step p i)
  then show ?thesis by (intro exI [of _ "CallClose p"]) simp
qed

section \<open>Exclusion per inode\<close>

text \<open>A process that has not yet given its lock back owns the \<open>flock\<close> of its inode.\<close>

definition owns :: "lock_state \<Rightarrow> pid \<Rightarrow> inode \<Rightarrow> bool" where
  "owns s p i \<longleftrightarrow> lk_phase s p = Holding i \<or> lk_phase s p = Unlinked i"

definition flock_inv :: "lock_state \<Rightarrow> bool" where
  "flock_inv s \<longleftrightarrow> (\<forall>p i. owns s p i \<longleftrightarrow> lk_flock s i = Some p)"

lemma flock_inv_init: "flock_inv lock_init"
  by (simp add: flock_inv_def owns_def lock_init_def)

lemma open_file_simps [simp]:
  "lk_flock (open_file p s) = lk_flock s"
  "q \<noteq> p \<Longrightarrow> lk_phase (open_file p s) q = lk_phase s q"
  by (simp_all add: open_file_def split: option.split)

lemma open_file_phase: "\<exists>i. lk_phase (open_file p s) p = Opened i"
  by (simp add: open_file_def split: option.split)

lemma flock_inv_step:
  assumes "lock_step s s'" and inv: "flock_inv s"
  shows "flock_inv s'"
  using assms(1)
proof cases
  case (open_step p)
  have "owns s' q i \<longleftrightarrow> owns s q i" for q i
    using open_step open_file_phase [of p s] by (cases "q = p") (auto simp: owns_def)
  then show ?thesis using inv open_step by (simp add: flock_inv_def)
next
  case (flock_ok p i)
  then show ?thesis using inv by (auto simp: flock_inv_def owns_def) (metis lock_phase.distinct lock_phase.inject option.distinct(1))+
next
  case (flock_busy p i q)
  then show ?thesis using inv by (auto simp: flock_inv_def owns_def) (metis lock_phase.distinct lock_phase.inject)+
next
  case (remove_step p i)
  then show ?thesis using inv by (auto simp: flock_inv_def owns_def) (metis lock_phase.distinct lock_phase.inject)+
next
  case (unlock_step p i)
  then show ?thesis using inv by (auto simp: flock_inv_def owns_def) (metis lock_phase.distinct lock_phase.inject option.inject)+
next
  case (close_step p i)
  then show ?thesis using inv by (auto simp: flock_inv_def owns_def) (metis lock_phase.distinct lock_phase.inject)+
qed

interpretation flock: machine lock_exec lock_init flock_inv
  by unfold_locales (rule flock_inv_init, rule flock_inv_step, rule lock_exec_step)

section \<open>Exclusion over the path\<close>

text \<open>
  A run in which no process removes the file while another one is between its \<open>OpenFile\<close> and its
  \<open>flock\<close>.
\<close>

definition someone_waits :: "lock_state \<Rightarrow> bool" where
  "someone_waits s \<longleftrightarrow> (\<exists>q i. lk_phase s q = Opened i)"

definition quiet_exec :: "lock_call \<Rightarrow> lock_state \<Rightarrow> lock_state option" where
  "quiet_exec a s = (case a of
     CallRemove p \<Rightarrow> if someone_waits s then None else lock_exec a s | _ \<Rightarrow> lock_exec a s)"

lemma quiet_exec_Some:
  "quiet_exec a s = Some s' \<Longrightarrow> lock_exec a s = Some s' \<and> (\<forall>p. a = CallRemove p \<longrightarrow> \<not> someone_waits s)"
  by (auto simp: quiet_exec_def split: lock_call.splits if_splits)

text \<open>There, everyone who waits or holds has the inode the path names.\<close>

definition path_inv :: "lock_state \<Rightarrow> bool" where
  "path_inv s \<longleftrightarrow> (\<forall>p i. lk_phase s p = Opened i \<or> lk_phase s p = Holding i \<longrightarrow> lk_path s = Some i)"

lemma quiet_flock: "reachable quiet_exec lock_init s \<Longrightarrow> flock_inv s"
  by (rule flock.inv_reachable, erule reachable_mono) (simp add: quiet_exec_Some)

lemma holder_unique: "flock_inv s \<Longrightarrow> owns s p i \<Longrightarrow> owns s q i \<Longrightarrow> p = q"
  by (metis flock_inv_def option.inject)

lemma path_inv_step:
  assumes "path_inv s" and "flock_inv s" and "lock_exec a s = Some s'"
    and quiet: "\<And>p. a = CallRemove p \<Longrightarrow> \<not> someone_waits s"
  shows "path_inv s'"
proof (cases a)
  case (CallOpen p)
  then have s': "s' = open_file p s" using assms(3) by (auto split: if_splits)
  show ?thesis
  proof (cases "lk_path s")
    case None
    then have "lk_phase s q \<noteq> Opened i \<and> lk_phase s q \<noteq> Holding i" for q i
      using assms(1) by (auto simp: path_inv_def)
    then show ?thesis by (auto simp: path_inv_def s' open_file_def None)
  next
    case (Some i)
    then show ?thesis using assms(1) by (auto simp: path_inv_def s' open_file_def)
  qed
next
  case (CallFlock p)
  then obtain i where i: "lk_phase s p = Opened i"
    and s': "s' = s\<lparr>lk_flock := (lk_flock s)(i \<mapsto> p), lk_phase := (lk_phase s)(p := Holding i)\<rparr>
      \<or> s' = s\<lparr>lk_phase := (lk_phase s)(p := Idle)\<rparr>"
    using assms(3) by (auto split: lock_phase.splits option.splits)
  have "lk_path s = Some i" using assms(1) i by (auto simp: path_inv_def)
  then show ?thesis using assms(1) s' by (auto simp: path_inv_def split: if_splits)
next
  case (CallRemove p)
  then obtain i where i: "lk_phase s p = Holding i"
    and s': "s' = s\<lparr>lk_path := None, lk_phase := (lk_phase s)(p := Unlinked i)\<rparr>"
    using assms(3) by (auto split: lock_phase.splits)
  have path: "lk_path s = Some i" using assms(1) i by (auto simp: path_inv_def)
  have "lk_phase s q \<noteq> Opened j \<and> (q \<noteq> p \<longrightarrow> lk_phase s q \<noteq> Holding j)" for q j
  proof -
    have "lk_phase s q \<noteq> Opened j" using quiet [OF CallRemove] by (auto simp: someone_waits_def)
    moreover have "q = p" if "lk_phase s q = Holding j"
    proof -
      have "lk_path s = Some j" using assms(1) that by (auto simp: path_inv_def)
      with path have "j = i" by simp
      then show ?thesis using holder_unique [OF assms(2), of q i p] that i by (simp add: owns_def)
    qed
    ultimately show ?thesis by blast
  qed
  then show ?thesis by (auto simp: path_inv_def s')
next
  case (CallUnlock p)
  then show ?thesis using assms(1,3) by (auto simp: path_inv_def split: lock_phase.splits if_splits)
next
  case (CallClose p)
  then show ?thesis using assms(1,3) by (auto simp: path_inv_def split: lock_phase.splits if_splits)
qed

interpretation quiet: machine quiet_exec lock_init path_inv
proof unfold_locales
  show "path_inv lock_init" by (simp add: path_inv_def lock_init_def)
  show "path_inv s'" if "quiet_exec a s = Some s'" "reachable quiet_exec lock_init s" "path_inv s" for a s s'
    using path_inv_step [OF that(3) quiet_flock [OF that(2)]] quiet_exec_Some [OF that(1)] by blast
qed

lemma quiet_exclusion:
  assumes "reachable quiet_exec lock_init s" and "lk_phase s p = Holding i" and "lk_phase s q = Holding j"
  shows "p = q"
proof -
  have "lk_path s = Some i" "lk_path s = Some j"
    using quiet.inv_reachable [OF assms(1)] assms(2,3) unfolding path_inv_def by blast+
  then have "i = j" by simp
  then show ?thesis using holder_unique [OF quiet_flock [OF assms(1)], of p i q] assms(2,3) by (simp add: owns_def)
qed

text \<open>
  The general schedule: the second process opens the file before the first one removes it, locks the
  orphaned inode after \<open>LOCK_UN\<close>, and the third one locks the file it creates.
\<close>

definition orphan_schedule :: "lock_call list" where
  "orphan_schedule = [CallOpen 0, CallFlock 0, CallOpen 1, CallRemove 0, CallUnlock 0, CallFlock 1, CallOpen 2, CallFlock 2]"

lemma orphan_two_holders:
  "\<exists>s. run_calls lock_exec orphan_schedule lock_init = Some s \<and> lk_phase s 1 = Holding 0 \<and> lk_phase s 2 = Holding 1"
  by (simp add: orphan_schedule_def lock_init_def open_file_def)

end
