(* ===== verification/Observe_Properties.thy ===== *)
theory Observe_Properties
  imports Examples Service Catalog_Lock
begin

text \<open>
  The properties of package \<open>internal/observe\<close> and of the catalog's lock file: what a scan reports, what a
  run records, one scan at a time, and who may hold the lock.
\<close>

section \<open>The comparison of one object\<close>

text \<open>
  C28. \<open>compareObject\<close> reports nothing exactly for an object that is listed and whose listing entry and
  metadata equal the accepted record; a complete reconciliation also requires the same bytes.
\<close>

theorem compareObject_quiet_iff:
  "compareObject rd a observed complete = Inr (None, b) \<longleftrightarrow>
     b \<and> unchanged rd observed a \<and> (if complete then same_bytes rd a else True)"
  by (simp add: compareObject_None)

text \<open>
  C32. The modification times of two instants count as the same exactly when they are within a second of
  each other - or when the observed one lies at least \<open>2^63\<close> nanoseconds (292 years) before the accepted
  one: the difference saturates at the most negative duration, which is its own negation.
\<close>

theorem withinTolerance_exact:
  assumes "t \<noteq> 0" and "u \<noteq> 0"
  shows "withinTolerance t u \<longleftrightarrow> \<bar>t - u\<bar> \<le> second \<or> t - u \<le> min_duration"
proof -
  consider "t - u < min_duration" | "t - u = min_duration" | "\<bar>t - u\<bar> \<le> max_duration" | "max_duration < t - u"
    unfolding min_duration_def max_duration_def by linarith
  then show ?thesis
  proof cases
    case 1
    then show ?thesis using withinTolerance_saturates [OF assms] by simp
  next
    case 2
    then show ?thesis using assms
      by (simp add: withinTolerance_def IsZero_def Sub_def Let_def neg_duration_def min_duration_def max_duration_def
          modifiedTimeTolerance_def second_def)
  next
    case 3
    then show ?thesis using withinTolerance_near [OF assms(2,1)] by (auto simp: min_duration_def max_duration_def)
  next
    case 4
    then show ?thesis using assms
      by (simp add: withinTolerance_def IsZero_def Sub_def Let_def min_duration_def max_duration_def
          modifiedTimeTolerance_def second_def)
  qed
qed

theorem withinTolerance_exact_witness:
  "withinTolerance (1 * second) (300 * 31536000 * second) \<and> \<not> withinTolerance (5 * second) (7 * second)"
  using withinTolerance_exact [of "1 * second" "300 * 31536000 * second"]
    withinTolerance_exact [of "5 * second" "7 * second"]
  by (simp add: second_def min_duration_def)

section \<open>The scan\<close>

text \<open>
  C16. A scan that returns locks mutation globally unless the bucket matches: no unclaimed key, and every
  manifest has objects, all of them unchanged (and byte-identical in a complete reconciliation). Its
  states are \<open>missing\<close> when no accepted object was found, \<open>in_sync\<close> when all are quiet, else \<open>drifted\<close>.
\<close>

theorem Scan_lock_and_states:
  assumes "Scan rd ms now complete = Inr r" and "ListObjects rd = Inr listing"
  shows "sr_MutationLock r = (if bucket_matches rd listing ms complete then LockNone else LockGlobal) \<and>
    list_all2 (\<lambda>m p. ps_PublicationID p = pm_PublicationID m \<and>
      ps_State p = (if found_objects rd (index_by ol_Key listing) complete (pm_Objects m) = [] then StateMissing
        else if list_all (quiet rd (index_by ol_Key listing) complete) (pm_Objects m) then StateInSync else StateDrifted))
      ms (sr_Publications r)"
proof -
  have "list_all2 (\<lambda>m p. scanPublication rd (index_by ol_Key listing) complete m = Inr p) ms (sr_Publications r)"
    by (rule Scan_Inr [OF assms(1)]) (use assms(2) in simp)
  then have "list_all2 (\<lambda>m p. ps_PublicationID p = pm_PublicationID m \<and>
      ps_State p = (if found_objects rd (index_by ol_Key listing) complete (pm_Objects m) = [] then StateMissing
        else if list_all (quiet rd (index_by ol_Key listing) complete) (pm_Objects m) then StateInSync else StateDrifted))
      ms (sr_Publications r)"
    by (rule list_all2_mono) (use scanPublication_Inr in blast)
  then show ?thesis using Scan_lock [OF assms] by blast
qed

theorem Scan_lock_and_states_witness:
  "\<exists>s. Scan ex_reader ex_manifests ex_time True = Inr s \<and> sr_MutationLock s = LockNone"
proof -
  obtain s where s: "Scan ex_reader ex_manifests ex_time True = Inr s" by (rule ex_scan)
  then show ?thesis using Scan_lock_and_states [OF s ex_simps(1)] ex_bucket_matches by simp
qed

text \<open>
  The usage a scan reports partitions the bucket: when the listing names each key once, the total is
  the bytes of the unclaimed keys plus the bytes of the claimed listed objects, and the unclaimed keys are
  exactly the listed keys no manifest claims, sorted and without repetition.
\<close>

theorem Scan_usage_partition:
  assumes "Scan rd ms now complete = Inr r" and "ListObjects rd = Inr listing" and "distinct (map ol_Key listing)"
  shows "bu_TotalBytes (sr_Usage r) = bu_UnclaimedBytes (sr_Usage r) +
       (\<Sum>x \<leftarrow> filter (\<lambda>x. ol_Key x \<in> set (claimed_keys ms)) listing. ol_Size x) \<and>
     set (sr_UnclaimedKeys r) = ol_Key ` set listing - set (claimed_keys ms) \<and>
     sorted (sr_UnclaimedKeys r) \<and> distinct (sr_UnclaimedKeys r)"
proof -
  have "bu_TotalBytes (sr_Usage r) = sum_list (map ol_Size listing) \<and>
      bu_UnclaimedBytes (sr_Usage r) = (\<Sum>k \<leftarrow> unclaimed_keys listing ms. observed_size (index_by ol_Key listing) k) \<and>
      sr_UnclaimedKeys r = unclaimed_keys listing ms"
    by (rule Scan_Inr [OF assms(1)]) (use assms(2) in simp)
  then show ?thesis
    using usage_partition [OF assms(3), of ms] set_unclaimed [of listing ms] distinct_unclaimed [of listing ms]
    by (simp add: unclaimed_keys_def)
qed

theorem Scan_usage_partition_witness:
  "\<exists>s. Scan ex_reader ex_manifests ex_time False = Inr s \<and> bu_TotalBytes (sr_Usage s) = bu_UnclaimedBytes (sr_Usage s) + 3"
proof -
  obtain s where s: "Scan ex_reader ex_manifests ex_time False = Inr s" by (rule ex_scan)
  then show ?thesis using Scan_usage_partition [OF s ex_simps(1)] by (simp add: ex_listing_def)
qed

section \<open>The run\<close>

text \<open>
  C29. A scan of the catalog's own manifests that returns is recorded: when the driver works, the usage is
  not negative and the identities drawn are new, \<open>Run\<close> returns the scan, leaves the accepted state as it was
  and adds one observation with the scan's lock, usage and unclaimed keys.
\<close>

theorem Run_records:
  assumes "AcceptedManifests re c = Inr ms" and "Scan rd ms (env_now we) complete = Inr s"
    and "consistent c" and "run_ready we s c"
  shows "\<exists>c'. Run re we rd complete c = (Inr s, c') \<and> accepted c' = accepted c \<and> consistent c' \<and>
     observations c' = observations c @ [observation_row_of we (Record s)]"
proof -
  obtain c' where c': "Run re we rd complete c = (Inr s, c')" "RecordObservation we (Record s) c = (Inr (), c')"
    using Run_succeeds [OF assms] by blast
  have "consistent c' \<and> observations c' = observations c @ [observation_row_of we (Record s)]"
    by (rule RecordObservation_Inr [OF c'(2) assms(3)]) simp
  then show ?thesis using c' RecordObservation_accepted [OF c'(2) assms(3)] by blast
qed

theorem Run_records_witness:
  "\<exists>s c'. Run ex_env ex_env ex_reader False ex_catalog = (Inr s, c') \<and> length (observations c') = 1 \<and>
     accepted c' = accepted ex_catalog"
proof -
  obtain s where s: "Scan ex_reader ex_manifests ex_time False = Inr s" "length (sr_Publications s) = 1"
      "bu_TotalBytes (sr_Usage s) = 3" "bu_AcceptedBytes (sr_Usage s) = 3" "bu_UnclaimedBytes (sr_Usage s) = 0"
    by (rule ex_scan)
  have now: "env_now ex_env = ex_time" and obs: "observations ex_catalog = []" "publication_observations ex_catalog = []"
    by (simp_all add: ex_env_def ex_catalog_def)
  have "run_ready ex_env s ex_catalog"
    using s(2-5) by (simp add: run_ready_def Let_def ex_no_faults now IsZero_def ex_year negative_def ex_different
        observation_ids_def obs)
  moreover have "Scan ex_reader ex_manifests (env_now ex_env) False = Inr s" using s(1) now by simp
  ultimately show ?thesis using Run_records [OF ex_AcceptedManifests _ ex_consistent] obs by fastforce
qed

section \<open>One scan at a time\<close>

text \<open>C35. In every reachable state of the service at most one caller is scanning, and only while \<open>running\<close> is set.\<close>

theorem single_scan:
  assumes "reachable refresh_exec NewService s" and "scanner s t ch" and "scanner s u ch'"
  shows "t = u \<and> ch = ch' \<and> fst (State s)"
  using scanner_exclusive [OF refreshing.inv_reachable [OF assms(1)] assms(2,3)]
    service_invD(1) [OF refreshing.inv_reachable [OF assms(1)] assms(2)] by (simp add: State_def)

theorem single_scan_witness:
  "\<exists>s. run_calls refresh_exec [Enter 0, Enter 1] NewService = Some s \<and> scanner s 0 0 \<and> fst (State s)"
proof -
  obtain s where s: "run_calls refresh_exec [Enter 0, Enter 1] NewService = Some s" "scanner s 0 0"
    by (simp add: NewService_def set_phase_def scanner_def)
  have "reachable refresh_exec NewService s" using s(1) by (rule run_reachable)
  then show ?thesis using single_scan [OF _ s(2) s(2)] s by blast
qed

text \<open>
  No caller of \<open>Refresh\<close> is stuck: from every reachable state each caller that entered can get an
  outcome within four steps, so nobody waits for a channel that no scan will close.
\<close>

theorem every_caller_returns:
  assumes "reachable refresh_exec NewService s" and "sv_phase s t \<noteq> Ready"
  shows "\<exists>as s' out. run_calls refresh_exec as s = Some s' \<and> length as \<le> 4 \<and> sv_phase s' t = Returned out"
  by (rule caller_returns [OF refreshing.inv_reachable [OF assms(1)] assms(2)])

theorem every_caller_returns_witness:
  "\<exists>s as s' out. run_calls refresh_exec [Enter 0, Enter 1] NewService = Some s \<and>
     run_calls refresh_exec as s = Some s' \<and> sv_phase s' 1 = Returned out"
proof -
  obtain s where s: "run_calls refresh_exec [Enter 0, Enter 1] NewService = Some s" "sv_phase s 1 \<noteq> Ready"
    by (simp add: NewService_def set_phase_def)
  have "reachable refresh_exec NewService s" using s(1) by (rule run_reachable)
  then show ?thesis using every_caller_returns [OF _ s(2)] s(1) by blast
qed

text \<open>
  A caller that joined a scan which succeeded can return \<open>failed\<close>: it reads \<open>lastOutcome\<close> after it was
  woken, and a later scan may have ended in between.
\<close>

theorem joined_caller_returns_later_outcome:
  "\<exists>s. run_calls refresh_exec late_join NewService = Some s \<and> sv_closed s 0 = Some OutcomeSucceeded \<and>
     sv_phase s 1 = Returned OutcomeFailed"
  by (rule late_join_outcome)

section \<open>The lock file\<close>

text \<open>
  C34. As long as no process removes the lock file while another one is between opening and locking it, at most
  one process holds the lock.
\<close>

theorem lock_exclusion:
  assumes "reachable quiet_exec lock_init s" and "lk_phase s p = Holding i" and "lk_phase s q = Holding j"
  shows "p = q"
  by (rule quiet_exclusion [OF assms])

theorem lock_exclusion_witness:
  "\<exists>s. run_calls quiet_exec [CallOpen 0, CallFlock 0, CallOpen 1, CallFlock 1] lock_init = Some s \<and>
     lk_phase s 0 = Holding 0 \<and> lk_phase s 1 \<noteq> Holding 0"
proof -
  obtain s where s: "run_calls quiet_exec [CallOpen 0, CallFlock 0, CallOpen 1, CallFlock 1] lock_init = Some s"
      "lk_phase s 0 = Holding 0"
    by (simp add: quiet_exec_def lock_init_def open_file_def)
  have "reachable quiet_exec lock_init s" using s(1) by (rule run_reachable)
  then have "lk_phase s 1 \<noteq> Holding 0" using lock_exclusion [OF _ s(2), of 1 0] by auto
  then show ?thesis using s by blast
qed


end
