(* ===== verification/Base_Properties.thy ===== *)
theory Base_Properties
  imports Examples Catalog_Reports
begin

text \<open>
  The properties of packages \<open>internal/config\<close> and \<open>internal/storage\<close> and of the text encodings everything
  else is stored in.
\<close>

section \<open>Configuration\<close>

definition ex_environ :: environ where
  "ex_environ name = (if name = ''PAGE_HUB_STORAGE_QUOTA_BYTES'' then ''7''
     else if name = ''PAGE_HUB_PUBLIC_BASE_URL'' then ''https://a''
     else if name = ''PAGE_HUB_AUTH_ASSERTION_VALUE'' then ''s''
     else if name = ''PAGE_HUB_CATALOG_PATH'' then ''c''
     else if name = ''PAGE_HUB_AUTH_ASSERTION_HEADER'' then ''X'' else [])"

lemma TrimSpace_word: "TrimSpace ''c'' = ''c''" "TrimSpace ''127.0.0.1:8080'' = ''127.0.0.1:8080''"
  by (simp_all add: TrimSpace_def runes_ascii byte_def IsSpace_def)

lemma ex_base_parses: "NormalizePublicBaseURL ''https://a'' = Inr ''https://a''"
  using ex_base_normal by (simp add: ex_base_def)

lemma ex_header: "validHeaderName ''X''"
  by (simp add: validHeaderName_def code_points_def runes_ascii byte_def)

lemma ex_loads: "\<exists>c. Config_Load ex_environ = Inr c"
proof -
  have "ParseInt64 ''7'' = Some 7"
    by (simp add: ParseInt64_def digits_val_def digit_val_def is_digit_def byte_def)
  then show ?thesis
    by (simp add: Config_Load_def envBool_def envInt64_def ex_environ_def ex_base_parses Let_def Config_Validate_def
        envOr_def TrimSpace_word DefaultListenAddr_def ex_header fail_if_def)
qed

text \<open>
  C40. A configuration that loads keeps the authentication boundary: without the development bypass there is
  an assertion value, with it the listener is on a loopback address or a Unix socket; the assertion header
  is an HTTP token, the quota is positive and the public base URL is an absolute http(s) URL with a host and
  without query, fragment and user information.
\<close>

theorem loaded_config_is_safe:
  assumes "Config_Load env = Inr c"
  shows "boundary_safe c \<and> (\<exists>u. url_Parse (cf_PublicBaseURL c) = Some u \<and> url_Host u \<noteq> [] \<and>
     url_Scheme u \<in> {''http'', ''https''} \<and> url_RawQuery u = [] \<and> url_Fragment u = [] \<and> \<not> url_User u)"
proof -
  obtain raw where "NormalizePublicBaseURL raw = Inr (cf_PublicBaseURL c)"
    using assms by (auto simp: Config_Load_def bind_res_Inr require_Inr Let_def)
  then have "\<exists>u. url_Parse (cf_PublicBaseURL c) = Some u \<and> url_Host u \<noteq> [] \<and>
     url_Scheme u \<in> {''http'', ''https''} \<and> url_RawQuery u = [] \<and> url_Fragment u = [] \<and> \<not> url_User u"
    by (rule Normalize_Inr) blast
  then show ?thesis using Config_Load_safe [OF assms] by blast
qed

theorem loaded_config_is_safe_witness: "\<exists>c. Config_Load ex_environ = Inr c \<and> boundary_safe c"
  using ex_loads loaded_config_is_safe by blast

text \<open>
  Normalising the public base URL is not idempotent: one trailing slash is removed, so a URL with two
  keeps one, and normalising the result removes it. A plan for the first base can never be committed: the
  recheck plans for another base, which has another digest unless SHA-256 collides.
\<close>

theorem base_url_not_idempotent:
  "NormalizePublicBaseURL ''https://a//'' = Inr ''https://a/'' \<and> NormalizePublicBaseURL ''https://a/'' = Inr ''https://a''"
proof -
  have "url_Parse ''https://a/'' = Some \<lparr>url_Scheme = ''https'', url_Opaque = [], url_User = False,
      url_Host = ''a'', url_Path = ''/'', url_RawQuery = [], url_Fragment = []\<rparr>"
    by (simp add: url_Parse_def Cut_def Index_def parse_reference_def getScheme_def is_letter_def byte_def is_ctl_def
        lower_char_def lower_byte_def split_query_def suffix_def parseAuthority_def LastIndex_def parseHost_def
        host_char_def is_alnum_def Let_def is_digit_def char_of_def bit_0)
  then show ?thesis
    by (simp add: NormalizePublicBaseURL_def TrimSpace_def TrimSuffix_def HasSuffix_def suffix_def runes_ascii
        byte_def IsSpace_def Let_def ex_url IsAbs_def)
qed

section \<open>Storage\<close>

text \<open>
  Every failing storage status is classified as exactly one of the three sentinels: not found for 404,
  unavailable for 408, 429 and 5xx, misconfigured for the rest.
\<close>

theorem classifyStatus_exactly_one:
  "(errors_Is (classifyStatus a n) ErrObjectNotFound \<longleftrightarrow> n = 404) \<and>
   (errors_Is (classifyStatus a n) ErrStorageUnavailable \<longleftrightarrow> n \<in> {408, 429} \<or> 500 \<le> n) \<and>
   (errors_Is (classifyStatus a n) ErrStorageMisconfigured \<longleftrightarrow> n \<notin> {404, 408, 429} \<and> n < 500)"
  by (auto simp: classifyStatus_sentinel)

text \<open>
  The compatibility check reads at most eight bodies whatever the size of the bucket: the first listed
  keys in key order, each of which it could read, and it counts every listed object and byte.
\<close>

theorem CheckCompatibility_bounded:
  assumes "CheckCompatibility r = Inr rep" and "\<And>key c. ReadObject r key = Inr c \<Longrightarrow> oc_Key c = key"
  shows "\<exists>ls. ListObjects r = Inr ls \<and> cr_Objects rep = length ls \<and> cr_TotalBytes rep = sum_list (map ol_Size ls) \<and>
    cr_DownloadedKeys rep = take 8 (sort (map ol_Key ls)) \<and> length (cr_DownloadedKeys rep) \<le> 8"
  by (rule CheckCompatibility_Inr [OF assms(1)]) (use assms(2) in auto)

theorem CheckCompatibility_bounded_witness:
  "\<exists>rep. CheckCompatibility ex_reader = Inr rep \<and> cr_Objects rep = 1 \<and> cr_DownloadedKeys rep = [''p'']"
proof -
  have "\<exists>rep. CheckCompatibility ex_reader = Inr rep"
    by (simp add: CheckCompatibility_def compatDownloadedBodyLimit_def Let_def) (simp add: ex_reader_def)
  then obtain rep where rep: "CheckCompatibility ex_reader = Inr rep" by blast
  have "ReadObject ex_reader key = Inr c \<Longrightarrow> oc_Key c = key" for key c
    by (auto simp: ex_reader_def ex_content_def split: if_splits)
  then show ?thesis using rep CheckCompatibility_bounded [OF rep] by auto
qed

section \<open>Encodings\<close>

text \<open>
  A timestamp that is stored and read back is the instant truncated to the second, for every instant
  of the years 0 to 9999.
\<close>

theorem timestamp_roundtrip:
  assumes "year_ok t"
  shows "parseTime (FormatRFC3339 t) = Inr (t div second * second) \<and> 0 \<le> t - t div second * second \<and>
    t - t div second * second < second"
  using timestamps.decodes [OF assms] trunc_second by (simp add: parseTime_def)

theorem timestamp_roundtrip_witness: "parseTime (FormatRFC3339 ex_time) = Inr ex_time"
  using timestamp_roundtrip [OF ex_year(1)] ex_year(2) by simp

text \<open>
  A recorded adoption result is decoded from its JSON exactly as it was, when its counts are in range and
  its texts are valid UTF-8; so distinct results have distinct records.
\<close>

theorem result_roundtrip:
  assumes "counts_ok r" and "valid_json (json_of_result r)" and "counts_ok q" and "valid_json (json_of_result q)"
  shows "Option.bind (Unmarshal (Marshal (json_of_result r))) decode_result = Some r \<and>
    (Marshal (json_of_result r) = Marshal (json_of_result q) \<longleftrightarrow> r = q)"
  using results.reads_exactly [of r] results.text_eq_iff [of r q] assms by blast

theorem result_roundtrip_witness:
  "let r = \<lparr>ar_OperationID = ''o'', ar_Status = ''committed'', ar_ObjectCount = 1, ar_AcceptedSize = 5,
      ar_Projects = [\<lparr>jr_ProjectID = ''i'', jr_ProjectPrefix = ''p'', jr_Publications =
        [\<lparr>pr_PublicationID = ''j'', pr_PublicationPath = ''p'', pr_ManifestRevisionID = ''m'', pr_ObjectCount = 1,
          pr_AcceptedSize = 5\<rparr>]\<rparr>], ar_CommittedAt = []\<rparr>
   in Option.bind (Unmarshal (Marshal (json_of_result r))) decode_result = Some r"
proof -
  let ?r = "\<lparr>ar_OperationID = ''o'', ar_Status = ''committed'', ar_ObjectCount = 1, ar_AcceptedSize = 5,
      ar_Projects = [\<lparr>jr_ProjectID = ''i'', jr_ProjectPrefix = ''p'', jr_Publications =
        [\<lparr>pr_PublicationID = ''j'', pr_PublicationPath = ''p'', pr_ManifestRevisionID = ''m'', pr_ObjectCount = 1,
          pr_AcceptedSize = 5\<rparr>]\<rparr>], ar_CommittedAt = []\<rparr>"
  have "counts_ok ?r" by (simp add: counts_ok_def int_range_def)
  moreover have "valid_json (json_of_result ?r)"
    by (simp add: json_of_result_def json_of_project_result_def json_of_publication_result_def json_array_def
        json_int64_def valid_utf8_ascii byte_def)
  ultimately show ?thesis using result_roundtrip [of ?r ?r] by (simp add: Let_def)
qed

end
