(* ===== verification/Inventory.thy ===== *)
theory Inventory
  imports Catalog_Observation "HOL-Library.Option_ord"
begin

text \<open>
  \<open>internal/catalog/inventory.go\<close>: the manager's view of the catalog. \<open>Store.Inventory\<close> reads the latest
  observation, joins Projects with their Publications, groups the rows by Project and sorts both levels by
  display name without case, paths breaking ties. The reference definition \<open>inventory_view\<close> builds the view
  of each Project and Publication directly; \<open>Inventory_view\<close> shows that the loop computes it on every
  consistent catalog. The Unicode case table behind \<open>strings.ToLower\<close> is the parameter \<open>tab\<close>: it is
  consulted for non-ASCII code points only, and no theorem depends on what it holds.
\<close>

section \<open>Data\<close>

record inventory_publication =
  ip_ID :: string
  ip_Path :: string
  ip_DisplayName :: string
  ip_Description :: string
  ip_EntryPoint :: string
  ip_RoutingMode :: string
  ip_Size :: int64
  ip_ContentChangedAt :: string
  ip_CanonicalURL :: string
  ip_Observation :: "publication_observation option"

record inventory_project =
  ij_ID :: string
  ij_Prefix :: string
  ij_DisplayName :: string
  ij_Description :: string
  ij_Publications :: "inventory_publication list"

record bucket_observation =
  bo_ObservedAt :: time
  bo_MutationLock :: string
  bo_Usage :: bucket_usage
  bo_Stale :: bool

record inventory =
  inv_Projects :: "inventory_project list"
  inv_Observation :: "bucket_observation option"

section \<open>Sorting without case\<close>

type_synonym case_table = "nat \<Rightarrow> nat"

text \<open>\<open>unicode.ToLower\<close> and \<open>strings.ToLower\<close>; an invalid byte becomes U+FFFD, as in \<open>strings.Map\<close>.\<close>
definition lower_rune :: "case_table \<Rightarrow> nat \<Rightarrow> nat" where
  "lower_rune tab r = (if r < 128 then lower_byte r else tab r)"

definition ToLower :: "case_table \<Rightarrow> string \<Rightarrow> string" where
  "ToLower tab s = concat (map (\<lambda>r. utf8_encode (lower_rune tab r)) (code_points s))"

definition publication_order :: "case_table \<Rightarrow> inventory_publication \<Rightarrow> string \<times> string" where
  "publication_order tab p = (ToLower tab (ip_DisplayName p), ip_Path p)"

definition project_order :: "case_table \<Rightarrow> inventory_project \<Rightarrow> string \<times> string" where
  "project_order tab j = (ToLower tab (ij_DisplayName j), ij_Prefix j)"

text \<open>\<open>sort.SliceStable\<close> with the two-level comparison: a stable sort by the pair.\<close>
definition sortPublications :: "case_table \<Rightarrow> inventory_publication list \<Rightarrow> inventory_publication list" where
  "sortPublications tab ps = sort_key (publication_order tab) ps"

definition sortProjects :: "case_table \<Rightarrow> inventory_project list \<Rightarrow> inventory_project list" where
  "sortProjects tab js = sort_key (project_order tab) js"

section \<open>The query\<close>

type_synonym inventory_row = "project_row \<times> publication_row option"

text \<open>\<open>projects LEFT JOIN publications ORDER BY prefix, path\<close>: a NULL path sorts first.\<close>
definition joined_publications :: "catalog \<Rightarrow> project_row \<Rightarrow> inventory_row list" where
  "joined_publications c j =
     (let qs = filter (\<lambda>q. pub_project_id q = prw_id j) (publications c)
      in if qs = [] then [(j, None)] else map (\<lambda>q. (j, Some q)) qs)"

definition inventory_rows :: "catalog \<Rightarrow> inventory_row list" where
  "inventory_rows c = sort_key (\<lambda>(j, q). (prw_prefix j, map_option pub_path q))
     (concat (map (joined_publications c) (projects c)))"

text \<open>\<open>COALESCE(SUM(size), 0)\<close> over the current manifest; \<open>SUM\<close> fails when it leaves \<open>int64\<close>.\<close>
definition manifest_bytes :: "catalog \<Rightarrow> publication_row \<Rightarrow> int" where
  "manifest_bytes c q =
     (\<Sum>r \<leftarrow> filter (\<lambda>r. Some (obj_manifest_id r) = pub_current_manifest_id q) (manifest_objects c). sint (obj_size r))"

definition sums_fit :: "catalog \<Rightarrow> bool" where
  "sums_fit c \<longleftrightarrow> list_all (\<lambda>q. manifest_bytes c q \<le> 9223372036854775807) (publications c)"

definition query_inventory :: "env \<Rightarrow> catalog \<Rightarrow> inventory_row list res" where
  "query_inventory e c =
     bind_res (query_db e 2 (inventory_rows c)) (\<lambda>rows.
       if sums_fit c then Inr rows else Inl (Errorf ''integer overflow'' []))"

section \<open>Grouping the rows\<close>

text \<open>One scanned Publication, with its entry in the latest observation, if there is one.\<close>
definition inventory_publication_of ::
    "catalog \<Rightarrow> observation_result option \<Rightarrow> publication_row \<Rightarrow> inventory_publication" where
  "inventory_publication_of c latest q =
     \<lparr>ip_ID = pub_id q, ip_Path = pub_path q, ip_DisplayName = pub_display_name q,
      ip_Description = pub_description q, ip_EntryPoint = pub_entry_point q, ip_RoutingMode = pub_routing_mode q,
      ip_Size = word_of_int (manifest_bytes c q), ip_ContentChangedAt = pub_content_changed_at q,
      ip_CanonicalURL = [],
      ip_Observation = (case latest of None \<Rightarrow> None | Some l \<Rightarrow> ors_Publications l (pub_id q))\<rparr>"

definition new_project :: "project_row \<Rightarrow> inventory_publication list \<Rightarrow> inventory_project" where
  "new_project j ps = \<lparr>ij_ID = prw_id j, ij_Prefix = prw_prefix j, ij_DisplayName = prw_display_name j,
      ij_Description = prw_description j, ij_Publications = ps\<rparr>"

definition row_publications :: "(publication_row \<Rightarrow> inventory_publication) \<Rightarrow> publication_row option \<Rightarrow>
    inventory_publication list" where
  "row_publications view q = (case q of None \<Rightarrow> [] | Some q \<Rightarrow> [view q])"

text \<open>The map of Projects with the order of first appearance, as one list.\<close>
fun add_row :: "(publication_row \<Rightarrow> inventory_publication) \<Rightarrow> inventory_row \<Rightarrow> inventory_project list \<Rightarrow>
    inventory_project list" where
  "add_row view (j, q) [] = [new_project j (row_publications view q)]"
| "add_row view (j, q) (m # ms) =
     (if ij_ID m = prw_id j then m\<lparr>ij_Publications := ij_Publications m @ row_publications view q\<rparr> # ms
      else m # add_row view (j, q) ms)"

definition group_rows :: "(publication_row \<Rightarrow> inventory_publication) \<Rightarrow> inventory_row list \<Rightarrow>
    inventory_project list" where
  "group_rows view rows = foldl (\<lambda>acc r. add_row view r acc) [] rows"

definition sorted_project :: "case_table \<Rightarrow> inventory_project \<Rightarrow> inventory_project" where
  "sorted_project tab j = j\<lparr>ij_Publications := sortPublications tab (ij_Publications j)\<rparr>"

definition bucket_observation_of :: "observation_result \<Rightarrow> bucket_observation" where
  "bucket_observation_of l = \<lparr>bo_ObservedAt = ors_ObservedAt l, bo_MutationLock = ors_MutationLock l,
      bo_Usage = ors_Usage l, bo_Stale = False\<rparr>"

definition Inventory :: "case_table \<Rightarrow> env \<Rightarrow> catalog \<Rightarrow> inventory res" where
  "Inventory tab e c =
     bind_res (LatestObservation e c) (\<lambda>latest.
     bind_res (wrap_res ''query inventory: %w'' [] (query_inventory e c)) (\<lambda>rows.
       Inr \<lparr>inv_Projects = sortProjects tab (map (sorted_project tab)
              (group_rows (inventory_publication_of c latest) rows)),
            inv_Observation = map_option bucket_observation_of latest\<rparr>))"

section \<open>The view it computes\<close>

definition publications_of :: "catalog \<Rightarrow> project_row \<Rightarrow> publication_row list" where
  "publications_of c j = filter (\<lambda>q. pub_project_id q = prw_id j) (publications c)"

definition project_view :: "case_table \<Rightarrow> catalog \<Rightarrow> observation_result option \<Rightarrow> project_row \<Rightarrow> inventory_project" where
  "project_view tab c latest j =
     new_project j (sortPublications tab (map (inventory_publication_of c latest) (publications_of c j)))"

definition inventory_view :: "case_table \<Rightarrow> catalog \<Rightarrow> observation_result option \<Rightarrow> inventory" where
  "inventory_view tab c latest =
     \<lparr>inv_Projects = sortProjects tab (map (project_view tab c latest) (projects c)),
      inv_Observation = map_option bucket_observation_of latest\<rparr>"

text \<open>Grouping: the Projects in order of first appearance, each with the Publications of its rows.\<close>

definition first_seen :: "'a list \<Rightarrow> 'a list" where
  "first_seen xs = rev (remdups (rev xs))"

definition grouped :: "(publication_row \<Rightarrow> inventory_publication) \<Rightarrow> inventory_row list \<Rightarrow> project_row \<Rightarrow> inventory_project" where
  "grouped view rows j =
     new_project j (concat (map (row_publications view \<circ> snd) (filter (\<lambda>r. fst r = j) rows)))"

lemma first_seen_snoc:
  "first_seen (xs @ [x]) = (if x \<in> set xs then first_seen xs else first_seen xs @ [x])"
  by (induction xs rule: rev_induct) (auto simp: first_seen_def)

lemma first_seen_set [simp]: "set (first_seen xs) = set xs" "distinct (first_seen xs)"
  by (simp_all add: first_seen_def)

lemma new_project_simps [simp]:
  "ij_ID (new_project j ps) = prw_id j" "ij_Prefix (new_project j ps) = prw_prefix j"
  "ij_DisplayName (new_project j ps) = prw_display_name j" "ij_Publications (new_project j ps) = ps"
  "new_project j ps\<lparr>ij_Publications := ps'\<rparr> = new_project j ps'"
  by (simp_all add: new_project_def)

lemma add_row_map:
  assumes "\<And>i. i \<in> set js \<Longrightarrow> prw_id i = prw_id j \<longleftrightarrow> i = j" and "distinct js"
  shows "add_row view (j, q) (map (\<lambda>i. new_project i (f i)) js) =
    (if j \<in> set js
     then map (\<lambda>i. new_project i (if i = j then f i @ row_publications view q else f i)) js
     else map (\<lambda>i. new_project i (f i)) js @ [new_project j (row_publications view q)])"
  using assms
proof (induction js)
  case (Cons i js)
  have same: "map (\<lambda>k. new_project k (if k = j then f k @ row_publications view q else f k)) js
      = map (\<lambda>k. new_project k (f k)) js" if "j \<notin> set js"
    using that by (auto intro!: map_cong)
  show ?case
  proof (cases "i = j")
    case True
    then show ?thesis using Cons.prems(2) same by simp
  next
    case False
    then have "prw_id i \<noteq> prw_id j" using Cons.prems(1) [of i] by simp
    then show ?thesis using Cons.IH Cons.prems False by simp
  qed
qed simp

lemma group_rows_grouped:
  assumes "\<And>i j. i \<in> fst ` set rows \<Longrightarrow> j \<in> fst ` set rows \<Longrightarrow> prw_id i = prw_id j \<Longrightarrow> i = j"
  shows "group_rows view rows = map (grouped view rows) (first_seen (map fst rows))"
  using assms
proof (induction rows rule: rev_induct)
  case Nil
  then show ?case by (simp add: group_rows_def first_seen_def)
next
  case (snoc r rows)
  obtain j q where r: "r = (j, q)" by force
  let ?js = "first_seen (map fst rows)"
  have ids: "prw_id i = prw_id j \<longleftrightarrow> i = j" if "i \<in> set ?js" for i
    using snoc.prems [of i j] that r by auto
  have "group_rows view rows = map (grouped view rows) ?js"
  proof (rule snoc.IH)
    fix i k
    assume "i \<in> fst ` set rows" "k \<in> fst ` set rows" "prw_id i = prw_id k"
    then show "i = k" by (intro snoc.prems) simp_all
  qed
  then have step: "group_rows view (rows @ [r]) = add_row view (j, q) (map (grouped view rows) ?js)"
    by (simp add: group_rows_def r)
  let ?f = "\<lambda>i. concat (map (row_publications view \<circ> snd) (filter (\<lambda>r. fst r = i) rows))"
  have g: "grouped view rows = (\<lambda>i. new_project i (?f i))" by (auto simp: grouped_def)
  have g': "grouped view (rows @ [r]) i = new_project i (if i = j then ?f i @ row_publications view q else ?f i)" for i
    by (simp add: grouped_def r)
  have added: "add_row view (j, q) (map (grouped view rows) ?js) =
    (if j \<in> set ?js
     then map (\<lambda>i. new_project i (if i = j then ?f i @ row_publications view q else ?f i)) ?js
     else map (grouped view rows) ?js @ [new_project j (row_publications view q)])"
    unfolding g by (rule add_row_map [OF _ first_seen_set(2)]) (rule ids)
  show ?case
  proof (cases "j \<in> fst ` set rows")
    case True
    then have "group_rows view (rows @ [r]) = map (grouped view (rows @ [r])) ?js"
      unfolding step added by (simp add: g')
    then show ?thesis using True by (simp add: r first_seen_snoc)
  next
    case False
    have "map (grouped view (rows @ [r])) ?js = map (grouped view rows) ?js"
      using False by (auto intro!: map_cong simp: g' g)
    moreover have "grouped view (rows @ [r]) j = new_project j (row_publications view q)"
    proof -
      have "filter (\<lambda>r. fst r = j) rows = []" using False by (auto simp: filter_empty_conv)
      then show ?thesis by (simp add: g')
    qed
    moreover have "add_row view (j, q) (map (grouped view rows) ?js)
        = map (grouped view rows) ?js @ [new_project j (row_publications view q)]"
      unfolding added using False by simp
    ultimately show ?thesis using False step by (simp add: r first_seen_snoc)
  qed
qed

text \<open>The rows of one Project are its Publications.\<close>

lemma joined_publications_fst: "r \<in> set (joined_publications c j) \<Longrightarrow> fst r = j"
  by (auto simp: joined_publications_def Let_def split: if_splits)

lemma joined_publications_ne: "joined_publications c j \<noteq> []"
  by (simp add: joined_publications_def Let_def)

lemma inventory_rows_projects: "fst ` set (inventory_rows c) = set (projects c)"
proof -
  have all: "fst ` set (joined_publications c j) = {j}" for j
  proof -
    obtain r where "r \<in> set (joined_publications c j)"
      using joined_publications_ne [of c j] by (cases "joined_publications c j") auto
    then show ?thesis using joined_publications_fst [of _ c j] by (auto intro: rev_image_eqI)
  qed
  have "fst ` set (inventory_rows c) = (\<Union>j \<in> set (projects c). fst ` set (joined_publications c j))"
    by (simp add: inventory_rows_def image_UN)
  then show ?thesis by (simp add: all)
qed


lemma filter_blocks:
  assumes "distinct js" and "j \<in> set js" and "\<And>i r. r \<in> set (f i) \<Longrightarrow> fst r = i"
  shows "filter (\<lambda>r. fst r = j) (concat (map f js)) = f j"
  using assms
proof (induction js)
  case (Cons i js)
  have none: "filter (\<lambda>r. fst r = j) (concat (map f js)) = []" if "j \<notin> set js"
    using that Cons.prems(3) by (auto simp: filter_empty_conv)
  have own: "filter (\<lambda>r. fst r = j) (f i) = (if i = j then f j else [])"
    using Cons.prems(3) by (auto simp: filter_empty_conv intro: filter_True)
  show ?case using Cons own none by (cases "i = j") auto
qed simp

lemma joined_publications_views:
  "concat (map (row_publications view \<circ> snd) (joined_publications c j)) = map view (publications_of c j)"
proof -
  have "concat (map (\<lambda>q. [view q]) qs) = map view qs" for qs :: "publication_row list" by (induction qs) auto
  then show ?thesis
    by (simp add: joined_publications_def Let_def publications_of_def row_publications_def comp_def)
qed

lemma mset_concat_map: "mset xs = mset ys \<Longrightarrow> mset (concat (map f xs)) = mset (concat (map f ys))"
  by (simp add: mset_concat sum_mset_sum_list [symmetric])

lemma grouped_publications:
  assumes "distinct (projects c)" and "j \<in> set (projects c)"
  shows "mset (ij_Publications (grouped view (inventory_rows c) j)) = mset (map view (publications_of c j))"
proof -
  let ?rows = "concat (map (joined_publications c) (projects c))"
  have "mset (filter (\<lambda>r. fst r = j) (inventory_rows c)) = mset (filter (\<lambda>r. fst r = j) ?rows)"
    by (simp add: inventory_rows_def)
  also have "\<dots> = mset (joined_publications c j)"
    using filter_blocks [where f = "joined_publications c", OF assms joined_publications_fst] by simp
  finally have "mset (concat (map (row_publications view \<circ> snd) (filter (\<lambda>r. fst r = j) (inventory_rows c))))
      = mset (map view (publications_of c j))"
    unfolding joined_publications_views [symmetric] by (rule mset_concat_map)
  then show ?thesis by (simp add: grouped_def)
qed

section \<open>The loop computes the view\<close>

lemma sort_key_unique:
  assumes "mset xs = mset ys" and "inj_on k (set xs)"
  shows "sort_key k xs = sort_key k ys"
  by (rule sort_key_inj_key_eq) (use assms in simp_all)

lemma publication_order_inj:
  assumes "catalog_ok c"
  shows "inj_on (publication_order tab) (inventory_publication_of c latest ` set (publications c))"
proof -
  have "inj_on pub_path (set (publications c))" using assms by (simp add: catalog_ok_def distinct_map)
  then show ?thesis
    by (auto simp: inj_on_def publication_order_def inventory_publication_of_def)
qed

lemma sorted_grouped:
  assumes "catalog_ok c" and "j \<in> set (projects c)"
  shows "sorted_project tab (grouped (inventory_publication_of c latest) (inventory_rows c) j) = project_view tab c latest j"
proof -
  let ?view = "inventory_publication_of c latest"
  have "distinct (projects c)" using assms(1) by (auto simp: catalog_ok_def distinct_map)
  then have m: "mset (ij_Publications (grouped ?view (inventory_rows c) j)) = mset (map ?view (publications_of c j))"
    using assms(2) by (rule grouped_publications)
  have "set (ij_Publications (grouped ?view (inventory_rows c) j)) \<subseteq> ?view ` set (publications c)"
    unfolding mset_eq_setD [OF m] by (auto simp: publications_of_def)
  then have "inj_on (publication_order tab) (set (ij_Publications (grouped ?view (inventory_rows c) j)))"
    using publication_order_inj [OF assms(1)] by (rule inj_on_subset [rotated])
  then have "sortPublications tab (ij_Publications (grouped ?view (inventory_rows c) j))
      = sortPublications tab (map ?view (publications_of c j))"
    unfolding sortPublications_def using m by (intro sort_key_unique)
  then show ?thesis by (simp add: sorted_project_def project_view_def grouped_def)
qed

lemma project_order_inj:
  assumes "catalog_ok c"
  shows "inj_on (project_order tab) (project_view tab c latest ` set (projects c))"
proof -
  have "inj_on prw_prefix (set (projects c))" using assms by (simp add: catalog_ok_def distinct_map)
  then show ?thesis by (auto simp: inj_on_def project_order_def project_view_def)
qed

lemma grouped_projects:
  assumes "catalog_ok c"
  shows "map (sorted_project tab) (group_rows (inventory_publication_of c latest) (inventory_rows c))
       = map (project_view tab c latest) (first_seen (map fst (inventory_rows c)))"
proof -
  have ids: "inj_on prw_id (set (projects c))" using assms by (simp add: catalog_ok_def distinct_map)
  have g: "group_rows (inventory_publication_of c latest) (inventory_rows c)
      = map (grouped (inventory_publication_of c latest) (inventory_rows c)) (first_seen (map fst (inventory_rows c)))"
    by (rule group_rows_grouped) (use ids in \<open>simp add: inventory_rows_projects inj_on_def\<close>)
  show ?thesis
    unfolding g map_map comp_def
    by (rule map_cong [OF refl]) (use inventory_rows_projects [of c] in \<open>auto intro: sorted_grouped [OF assms]\<close>)
qed

lemma sorted_views:
  assumes "catalog_ok c"
  shows "sortProjects tab (map (sorted_project tab) (group_rows (inventory_publication_of c latest) (inventory_rows c)))
       = inv_Projects (inventory_view tab c latest)"
proof -
  have "distinct (projects c)" using assms by (auto simp: catalog_ok_def distinct_map)
  then have "mset (first_seen (map fst (inventory_rows c))) = mset (projects c)"
    using inventory_rows_projects [of c] by (intro set_eq_iff_mset_eq_distinct [THEN iffD1]) auto
  then have m: "mset (map (project_view tab c latest) (first_seen (map fst (inventory_rows c))))
      = mset (map (project_view tab c latest) (projects c))" by simp
  have s: "set (map (project_view tab c latest) (first_seen (map fst (inventory_rows c))))
      = project_view tab c latest ` set (projects c)" using inventory_rows_projects [of c] by simp
  show ?thesis
    unfolding sortProjects_def grouped_projects [OF assms] inventory_view_def inventory.simps
    by (rule sort_key_unique [OF m]) (unfold s, rule project_order_inj [OF assms])
qed

lemma Inventory_view:
  assumes "catalog_ok c" and "LatestObservation e c = Inr latest" and "\<not> env_fault e 2" and "sums_fit c"
  shows "Inventory tab e c = Inr (inventory_view tab c latest)"
  using assms(2-4) sorted_views [OF assms(1), of tab latest]
  by (simp add: Inventory_def query_inventory_def query_db_def inventory_view_def)

text \<open>A failing query, an observation that cannot be read or a sum out of range is an error, never a partial view.\<close>
lemma Inventory_Inr:
  assumes "Inventory tab e c = Inr view" and "catalog_ok c"
  obtains latest where "LatestObservation e c = Inr latest" "\<not> env_fault e 2" "sums_fit c"
    "view = inventory_view tab c latest"
proof -
  obtain latest where l: "LatestObservation e c = Inr latest" and f: "\<not> env_fault e 2" "sums_fit c"
    using assms(1) by (auto simp: Inventory_def query_inventory_def query_db_def res_iff split: if_splits)
  then show ?thesis using that Inventory_view [OF assms(2) l f, of tab] assms(1) by simp
qed

section \<open>Every Publication once\<close>

lemma mset_by_project:
  assumes "distinct (map prw_id js)"
  shows "mset (concat (map (\<lambda>j. filter (\<lambda>q. pub_project_id q = prw_id j) qs) js))
    = filter_mset (\<lambda>q. pub_project_id q \<in> prw_id ` set js) (mset qs)"
  using assms
proof (induction js)
  case (Cons j js)
  have "filter_mset (\<lambda>q. pub_project_id q \<in> prw_id ` set (j # js)) (mset qs)
      = filter_mset (\<lambda>q. pub_project_id q = prw_id j) (mset qs) + filter_mset (\<lambda>q. pub_project_id q \<in> prw_id ` set js) (mset qs)"
    using Cons.prems by (induction qs) auto
  then show ?case using Cons by simp
qed simp

lemma mset_concat_perm: "mset xs = mset ys \<Longrightarrow> (\<And>x. mset (f x) = mset (g x)) \<Longrightarrow> mset (concat (map f xs)) = mset (concat (map g ys))"
proof -
  assume xs: "mset xs = mset ys" and fg: "\<And>x. mset (f x) = mset (g x)"
  have "mset (concat (map f ys)) = mset (concat (map g ys))" using fg by (induction ys) simp_all
  then show ?thesis using mset_concat_map [OF xs, of f] by simp
qed

lemma view_publications:
  assumes "catalog_ok c"
  shows "mset (concat (map ij_Publications (inv_Projects (inventory_view tab c latest))))
    = mset (map (inventory_publication_of c latest) (publications c))"
proof -
  let ?view = "inventory_publication_of c latest"
  have ids: "distinct (map prw_id (projects c))" and fk: "pub_project_id ` set (publications c) \<subseteq> prw_id ` set (projects c)"
    using assms by (simp_all add: catalog_ok_def)
  have "mset (concat (map ij_Publications (inv_Projects (inventory_view tab c latest))))
      = mset (concat (map ij_Publications (map (project_view tab c latest) (projects c))))"
    unfolding inventory_view_def inventory.simps sortProjects_def by (rule mset_concat_map) simp
  also have "\<dots> = mset (concat (map (\<lambda>j. map ?view (publications_of c j)) (projects c)))"
    unfolding map_map by (rule mset_concat_perm) (simp_all add: project_view_def sortPublications_def)
  also have "\<dots> = image_mset ?view (mset (concat (map (publications_of c) (projects c))))"
    by (simp add: map_concat comp_def flip: mset_map)
  also have "mset (concat (map (publications_of c) (projects c))) = mset (publications c)"
  proof -
    have "filter (\<lambda>q. pub_project_id q \<in> prw_id ` set (projects c)) (publications c) = publications c"
      using fk by (intro filter_True) auto
    then have "filter_mset (\<lambda>q. pub_project_id q \<in> prw_id ` set (projects c)) (mset (publications c)) = mset (publications c)"
      by (simp flip: mset_filter)
    then show ?thesis using mset_by_project [OF ids, of "publications c"] by (simp add: publications_of_def [abs_def])
  qed
  finally show ?thesis by simp
qed

lemma view_projects:
  "mset (map ij_ID (inv_Projects (inventory_view tab c latest))) = mset (map prw_id (projects c))"
proof -
  have "mset (map ij_ID (inv_Projects (inventory_view tab c latest)))
      = image_mset ij_ID (mset (map (project_view tab c latest) (projects c)))"
    by (simp add: inventory_view_def sortProjects_def)
  also have "\<dots> = mset (map (\<lambda>j. ij_ID (project_view tab c latest j)) (projects c))"
    by (simp add: multiset.map_comp comp_def)
  also have "\<dots> = mset (map prw_id (projects c))" by (simp add: project_view_def)
  finally show ?thesis .
qed

lemma view_sorted:
  "sorted (map (project_order tab) (inv_Projects (inventory_view tab c latest)))"
  "j \<in> set (inv_Projects (inventory_view tab c latest)) \<Longrightarrow> sorted (map (publication_order tab) (ij_Publications j))"
  by (auto simp: inventory_view_def sortProjects_def project_view_def sortPublications_def)

end
