(* ===== verification/Inventory_Properties.thy ===== *)
theory Inventory_Properties
  imports Catalog_Properties Inventory
begin

text \<open>
  The properties of \<open>internal/catalog/inventory.go\<close>: the manager's view of the catalog is complete, sorted and
  carries the newest observation.
\<close>

text \<open>
  C15. \<open>Store.Inventory\<close> equals the view built directly from the tables, on every catalog that satisfies the
  schema: each Project with its Publications, both levels sorted by lower-cased display name and then path or
  prefix, with the observations of the newest complete scan. A failing query or a sum of sizes beyond
  \<open>int64\<close> is an error and never a partial inventory.
\<close>

theorem Inventory_exact:
  assumes "catalog_ok c"
  shows "Inventory tab e c =
    (case LatestObservation e c of
       Inl err \<Rightarrow> Inl err
     | Inr latest \<Rightarrow>
         if env_fault e 2 then Inl (Wrapf ''query inventory: %w'' [] driver_error)
         else if \<not> sums_fit c then Inl (Wrapf ''query inventory: %w'' [] (Errorf ''integer overflow'' []))
         else Inr (inventory_view tab c latest))"
proof (cases "LatestObservation e c")
  case (Inr latest)
  then show ?thesis
    using Inventory_view [OF assms Inr, of tab] by (simp add: Inventory_def query_inventory_def query_db_def)
qed (simp add: Inventory_def)

lemma ex_inventory_query: "LatestObservation ex_env ex_catalog = Inr None" "sums_fit ex_catalog"
  by (simp_all add: LatestObservation_def query_db_def ex_env_def ex_catalog_def newest_def sums_fit_def
      ex_publication_row_def manifest_bytes_def ex_object_row_def)

theorem Inventory_exact_witness:
  "Inventory id ex_env ex_catalog = Inr (inventory_view id ex_catalog None) \<and>
   map ij_Prefix (inv_Projects (inventory_view id ex_catalog None)) = [''p''] \<and>
   map (\<lambda>j. map ip_Path (ij_Publications j)) (inv_Projects (inventory_view id ex_catalog None)) = [[''p'']]"
proof -
  have "catalog_ok ex_catalog" using ex_consistent by (simp add: consistent_def)
  from Inventory_exact [OF this, of id ex_env]
  have "Inventory id ex_env ex_catalog = Inr (inventory_view id ex_catalog None)"
    by (simp add: ex_inventory_query) (simp add: ex_env_def)
  then show ?thesis
    by (simp add: inventory_view_def sortProjects_def project_view_def publications_of_def sortPublications_def
        inventory_publication_of_def ex_catalog_def ex_publication_row_def)
qed

text \<open>
  An inventory that is returned lists every Project and every Publication of the catalog exactly once,
  Projects and the Publications of each Project in order of lower-cased display name and path.
\<close>

theorem Inventory_lists_everything:
  assumes "Inventory tab e c = Inr i" and "catalog_ok c"
  shows "mset (map ij_ID (inv_Projects i)) = mset (map prw_id (projects c)) \<and>
    mset (map ip_ID (concat (map ij_Publications (inv_Projects i)))) = mset (map pub_id (publications c)) \<and>
    sorted (map (\<lambda>j. (ToLower tab (ij_DisplayName j), ij_Prefix j)) (inv_Projects i)) \<and>
    list_all (\<lambda>j. sorted (map (\<lambda>p. (ToLower tab (ip_DisplayName p), ip_Path p)) (ij_Publications j))) (inv_Projects i)"
proof -
  obtain latest where i: "i = inventory_view tab c latest" using Inventory_Inr [OF assms] .
  have "mset (map ip_ID (concat (map ij_Publications (inv_Projects i)))) = image_mset ip_ID (mset (concat (map ij_Publications (inv_Projects i))))"
    by simp
  also have "\<dots> = mset (map pub_id (publications c))"
    unfolding i view_publications [OF assms(2)] by (simp add: multiset.map_comp comp_def inventory_publication_of_def)
  finally have pubs: "mset (map ip_ID (concat (map ij_Publications (inv_Projects i)))) = mset (map pub_id (publications c))" .
  have "project_order tab = (\<lambda>j. (ToLower tab (ij_DisplayName j), ij_Prefix j))"
    "publication_order tab = (\<lambda>p. (ToLower tab (ip_DisplayName p), ip_Path p))"
    by (simp_all add: fun_eq_iff project_order_def publication_order_def)
  then show ?thesis
    using pubs view_projects [of tab c latest] view_sorted(1) [of tab c latest] view_sorted(2) [of _ tab c latest]
    by (simp add: i list_all_iff)
qed

theorem Inventory_lists_everything_witness:
  "\<exists>i. Inventory id ex_env ex_catalog = Inr i \<and> mset (map ip_ID (concat (map ij_Publications (inv_Projects i)))) = {#ex_id (CHR ''b'')#}"
proof -
  have ok: "catalog_ok ex_catalog" using ex_consistent by (simp add: consistent_def)
  have "Inventory id ex_env ex_catalog = Inr (inventory_view id ex_catalog None)"
    using Inventory_view [OF ok ex_inventory_query(1) _ ex_inventory_query(2)] by (simp add: ex_env_def)
  from this Inventory_lists_everything [OF this ok] show ?thesis
    by (simp add: ex_catalog_def ex_publication_row_def)
qed

text \<open>
  C23. The observation the manager shows is the one that was recorded last: after a successful
  \<open>RecordObservation\<close> the next inventory carries its time (to the second), lock and usage, and each Publication
  shows exactly the state recorded for it.
\<close>

theorem recorded_observation_is_shown:
  assumes "RecordObservation e rec c = (Inr u, c')" and "consistent c"
    and "\<And>q. q \<in> set (observations c) \<Longrightarrow> obs_status q = observationComplete \<Longrightarrow> obs_observed_at q \<le> FormatRFC3339 (oor_ObservedAt rec)"
    and "year_ok (oor_ObservedAt rec)" and "list_all valid_utf8 (oor_UnclaimedKeys rec)"
    and "\<not> env_fault e' 0" and "\<not> env_fault e' 1" and "\<not> env_fault e' 2" and "sums_fit c'"
  shows "\<exists>i b. Inventory tab e' c' = Inr i \<and> inv_Observation i = Some b \<and>
    bo_ObservedAt b = oor_ObservedAt rec div second * second \<and> bo_MutationLock b = oor_MutationLock rec \<and>
    bu_TotalBytes (bo_Usage b) = oor_TotalBytes rec \<and> bu_AcceptedBytes (bo_Usage b) = oor_AcceptedBytes rec \<and>
    bu_UnclaimedBytes (bo_Usage b) = oor_UnclaimedBytes rec \<and>
    mset (map (\<lambda>p. (ip_ID p, ip_Observation p)) (concat (map ij_Publications (inv_Projects i)))) =
      mset (map (\<lambda>q. (pub_id q, map_option recorded_publication (index_by por_PublicationID (oor_Publications rec) (pub_id q))))
        (publications c))"
proof -
  note latest = LatestObservation_recorded [OF assms(1-7)]
  have c': "catalog_ok c'" and pubs: "publications c' = publications c"
    using RecordObservation_Inr [OF assms(1,2)] RecordObservation_accepted [OF assms(1,2)] by (auto simp: consistent_def)
  let ?l = "\<lparr>ors_ObservationID = draw e 0, ors_ObservedAt = oor_ObservedAt rec div second * second,
     ors_MutationLock = oor_MutationLock rec, ors_Usage = \<lparr>bu_QuotaBytes = 0, bu_TotalBytes = oor_TotalBytes rec,
       bu_AcceptedBytes = oor_AcceptedBytes rec, bu_UnclaimedBytes = oor_UnclaimedBytes rec\<rparr>,
     ors_UnclaimedKeys = oor_UnclaimedKeys rec,
     ors_Publications = (\<lambda>pid. map_option recorded_publication (index_by por_PublicationID (oor_Publications rec) pid))\<rparr>"
  let ?i = "inventory_view tab c' (Some ?l)"
  have i: "Inventory tab e' c' = Inr ?i" using Inventory_view [OF c' latest assms(8,9)] .
  have "mset (map (\<lambda>p. (ip_ID p, ip_Observation p)) (concat (map ij_Publications (inv_Projects ?i))))
      = image_mset (\<lambda>p. (ip_ID p, ip_Observation p)) (mset (concat (map ij_Publications (inv_Projects ?i))))" by simp
  also have "\<dots> = mset (map (\<lambda>q. (pub_id q, map_option recorded_publication (index_by por_PublicationID (oor_Publications rec) (pub_id q))))
        (publications c))"
    unfolding view_publications [OF c'] by (simp add: multiset.map_comp comp_def inventory_publication_of_def pubs)
  finally show ?thesis
    using i by (intro exI [of _ ?i] exI [of _ "bucket_observation_of ?l"]) (simp add: inventory_view_def bucket_observation_of_def)
qed

theorem recorded_observation_is_shown_witness:
  "\<exists>c' i b. RecordObservation ex_env ex_record ex_catalog = (Inr (), c') \<and> Inventory id ex_env c' = Inr i \<and>
     inv_Observation i = Some b \<and> bo_MutationLock b = LockGlobal \<and> bu_UnclaimedBytes (bo_Usage b) = 6 \<and>
     mset (map (\<lambda>p. map_option po_State (ip_Observation p)) (concat (map ij_Publications (inv_Projects i)))) = {#Some StateDrifted#}"
proof -
  obtain c' where c: "RecordObservation ex_env ex_record ex_catalog = (Inr (), c')" using ex_records by blast
  have facts: "year_ok (oor_ObservedAt ex_record)" "list_all valid_utf8 (oor_UnclaimedKeys ex_record)" "observations ex_catalog = []"
    "\<not> env_fault ex_env n" for n
    by (simp_all add: ex_record_def ex_year valid_utf8_ascii byte_def ex_catalog_def ex_env_def)
  have same: "publications c' = publications ex_catalog" "manifest_objects c' = manifest_objects ex_catalog"
    using RecordObservation_accepted [OF c ex_consistent] by simp_all
  have fit: "sums_fit c'" using ex_inventory_query(2) by (simp add: sums_fit_def manifest_bytes_def same)
  have old: "obs_observed_at q \<le> FormatRFC3339 (oor_ObservedAt ex_record)" if "q \<in> set (observations ex_catalog)" for q
    using that facts(3) by simp
  obtain i b where i: "Inventory id ex_env c' = Inr i" "inv_Observation i = Some b" "bo_MutationLock b = oor_MutationLock ex_record"
    "bu_UnclaimedBytes (bo_Usage b) = oor_UnclaimedBytes ex_record"
    "mset (map (\<lambda>p. (ip_ID p, ip_Observation p)) (concat (map ij_Publications (inv_Projects i)))) =
      mset (map (\<lambda>q. (pub_id q, map_option recorded_publication (index_by por_PublicationID (oor_Publications ex_record) (pub_id q))))
        (publications ex_catalog))"
    using recorded_observation_is_shown [where tab = id, OF c ex_consistent old facts(1,2) facts(4) facts(4) facts(4) fit]
    by blast
  have "mset (map (\<lambda>p. map_option po_State (ip_Observation p)) (concat (map ij_Publications (inv_Projects i))))
      = image_mset (\<lambda>x. map_option po_State (snd x)) (mset (map (\<lambda>p. (ip_ID p, ip_Observation p)) (concat (map ij_Publications (inv_Projects i)))))"
    by (simp add: multiset.map_comp comp_def)
  also have "\<dots> = {#Some StateDrifted#}"
    unfolding i(5) by (simp add: ex_catalog_def ex_publication_row_def ex_record_def index_by_def recorded_publication_def)
  finally show ?thesis using c i(1-4) by (intro exI [of _ c'] exI [of _ i] exI [of _ b]) (simp add: ex_record_def)
qed

end
