(* ===== verification/Http.thy ===== *)
theory Http
  imports Go_Url
begin

text \<open>
  The parts of \<open>net/http\<close>, \<open>net/textproto\<close> and \<open>path\<close> that \<open>internal/server\<close> uses: header maps with
  canonical keys, \<open>path.Clean\<close> and \<open>path.Join\<close>, and \<open>http.Redirect\<close>. A header is a function from
  canonical keys to values, with no values where the key is absent. What the server adds to every response
  on its own (\<open>Date\<close>, \<open>Content-Length\<close>) is not represented.
\<close>

section \<open>Headers\<close>

type_synonym header = "string \<Rightarrow> string list"

definition no_header :: header where
  "no_header = (\<lambda>key. [])"

text \<open>The bytes of a token (\<open>validHeaderFieldByte\<close>).\<close>
definition token_byte :: "char \<Rightarrow> bool" where
  "token_byte c \<longleftrightarrow> is_alnum c \<or> byte c \<in> {33, 35, 36, 37, 38, 39, 42, 43, 45, 46, 94, 95, 96, 124, 126}"

definition upper_char :: "char \<Rightarrow> char" where
  "upper_char c = (if 97 \<le> byte c \<and> byte c \<le> 122 then char_of (byte c - 32) else c)"

fun canonical_bytes :: "bool \<Rightarrow> string \<Rightarrow> string" where
  "canonical_bytes up [] = []"
| "canonical_bytes up (c # cs) = (if up then upper_char c else lower_char c) # canonical_bytes (c = CHR ''-'') cs"

definition CanonicalHeaderKey :: "string \<Rightarrow> string" where
  "CanonicalHeaderKey s = (if list_all token_byte s then canonical_bytes True s else s)"

definition header_Values :: "header \<Rightarrow> string \<Rightarrow> string list" where
  "header_Values h key = h (CanonicalHeaderKey key)"

definition header_Get :: "header \<Rightarrow> string \<Rightarrow> string" where
  "header_Get h key = (case header_Values h key of [] \<Rightarrow> [] | v # _ \<Rightarrow> v)"

definition header_Set :: "string \<Rightarrow> string \<Rightarrow> header \<Rightarrow> header" where
  "header_Set key v h = h(CanonicalHeaderKey key := [v])"

definition header_Del :: "string \<Rightarrow> header \<Rightarrow> header" where
  "header_Del key h = h(CanonicalHeaderKey key := [])"

section \<open>Requests and responses\<close>

record request =
  rq_Method :: string
  rq_Path :: string
  rq_Header :: header

record response =
  rs_Status :: nat
  rs_Header :: header
  rs_Body :: string

section \<open>Paths\<close>

text \<open>\<open>path.Clean\<close>, segment by segment; the kept segments are stacked, last first.\<close>
fun clean_step :: "bool \<Rightarrow> string list \<Rightarrow> string \<Rightarrow> string list" where
  "clean_step rooted kept seg =
     (if seg = [] \<or> seg = ''.'' then kept
      else if seg = ''..'' then
        (case kept of
           [] \<Rightarrow> (if rooted then [] else [''..''])
         | k # ks \<Rightarrow> (if k = ''..'' then ''..'' # k # ks else ks))
      else seg # kept)"

declare clean_step.simps [simp del]

definition kept_segments :: "bool \<Rightarrow> string list \<Rightarrow> string list" where
  "kept_segments rooted segs = rev (foldl (clean_step rooted) [] segs)"

definition path_Clean :: "string \<Rightarrow> string" where
  "path_Clean s =
     (let rooted = HasPrefix s ''/'';
          out = (if rooted then ''/'' else []) @ Join (kept_segments rooted (Split s (CHR ''/''))) ''/''
      in if out = [] then ''.'' else out)"

text \<open>\<open>path.Join\<close> of two elements that are not empty.\<close>
definition path_Join :: "string \<Rightarrow> string \<Rightarrow> string" where
  "path_Join a b = path_Clean (a @ ''/'' @ b)"

definition path_Base :: "string \<Rightarrow> string" where
  "path_Base s =
     (if s = [] then ''.''
      else let t = AfterLast (TrimRightByte s (CHR ''/'')) (CHR ''/'') in if t = [] then ''/'' else t)"

text \<open>The directory part of \<open>path.Split\<close>: everything up to the last slash.\<close>
definition path_dir :: "string \<Rightarrow> string" where
  "path_dir s = take (length s - length (AfterLast s (CHR ''/''))) s"

text \<open>Segments that \<open>Clean\<close> keeps as they are.\<close>
definition plain_segment :: "string \<Rightarrow> bool" where
  "plain_segment s \<longleftrightarrow> s \<noteq> [] \<and> s \<noteq> ''.'' \<and> s \<noteq> ''..''"

lemma clean_plain: "list_all plain_segment segs \<Longrightarrow> foldl (clean_step rooted) kept segs = rev segs @ kept"
  by (induction segs arbitrary: kept) (auto simp: plain_segment_def clean_step.simps)

lemma Clean_plain:
  assumes "list_all plain_segment (Split s (CHR ''/''))"
  shows "path_Clean s = s"
proof -
  obtain seg segs where split: "Split s (CHR ''/'') = seg # segs" using Split_hd_tl by blast
  have "seg \<noteq> []" using assms by (simp add: split plain_segment_def)
  then have "\<not> HasPrefix s ''/''"
    using split by (cases s) (auto simp: HasPrefix_def split: if_splits)
  moreover have "kept_segments r (Split s (CHR ''/'')) = Split s (CHR ''/'')" for r
    using clean_plain [OF assms, of r "[]"] by (simp add: kept_segments_def)
  moreover have "s \<noteq> []" using \<open>seg \<noteq> []\<close> split by auto
  ultimately show ?thesis by (simp add: path_Clean_def Join_Split)
qed

text \<open>In what \<open>Clean\<close> keeps, parent segments come first only, and never after a slash at the root.\<close>

definition parents_first :: "bool \<Rightarrow> string list \<Rightarrow> bool" where
  "parents_first rooted kept \<longleftrightarrow>
     (\<exists>n plain. kept = plain @ replicate n ''..'' \<and> list_all plain_segment plain \<and> (rooted \<longrightarrow> n = 0))"

lemma clean_step_parents:
  assumes "parents_first rooted kept"
  shows "parents_first rooted (clean_step rooted kept seg)"
proof -
  obtain n plain where k: "kept = plain @ replicate n ''..''" "list_all plain_segment plain" "rooted \<longrightarrow> n = 0"
    using assms by (auto simp: parents_first_def)
  consider "seg = [] \<or> seg = ''.''" | "seg = ''..''" "plain = []" | p ps where "seg = ''..''" "plain = p # ps"
    | "plain_segment seg"
    by (cases plain) (auto simp: plain_segment_def)
  then show ?thesis
  proof cases
    case 1
    then show ?thesis using assms by (simp add: clean_step.simps)
  next
    case 2
    then have "clean_step rooted kept seg = [] @ replicate (if rooted then 0 else Suc n) ''..''"
      using k by (cases n) (auto simp: clean_step.simps)
    then show ?thesis unfolding parents_first_def
      by (intro exI [of _ "if rooted then 0 else Suc n"] exI [of _ "[]"]) simp
  next
    case 3
    then have "clean_step rooted kept seg = ps @ replicate n ''..''" "list_all plain_segment ps"
      using k by (auto simp: clean_step.simps plain_segment_def)
    then show ?thesis unfolding parents_first_def using k(3) by blast
  next
    case 4
    then have "clean_step rooted kept seg = (seg # plain) @ replicate n ''..''" "list_all plain_segment (seg # plain)"
      using k by (auto simp: clean_step.simps plain_segment_def)
    then show ?thesis unfolding parents_first_def using k(3) by blast
  qed
qed

lemma clean_parents: "parents_first rooted kept \<Longrightarrow> parents_first rooted (foldl (clean_step rooted) kept segs)"
  by (induction segs arbitrary: kept) (simp_all add: clean_step_parents)

lemma kept_segments_shape:
  obtains n plain where "kept_segments rooted segs = replicate n ''..'' @ plain" "list_all plain_segment plain"
    "rooted \<Longrightarrow> n = 0"
proof -
  have "parents_first rooted []" unfolding parents_first_def
    by (intro exI [of _ 0] exI [of _ "[]"]) simp
  then have "parents_first rooted (foldl (clean_step rooted) [] segs)" by (rule clean_parents)
  then obtain n plain where "foldl (clean_step rooted) [] segs = plain @ replicate n ''..''"
    "list_all plain_segment plain" "rooted \<longrightarrow> n = 0"
    unfolding parents_first_def by blast
  then show ?thesis
    by (intro that [of n "rev plain"]) (simp_all add: kept_segments_def list_all_rev)
qed

text \<open>A path that is its own \<open>Clean\<close> and does not start with a parent segment has none.\<close>

lemma Split_Join:
  assumes "segs \<noteq> []" and "\<And>s. s \<in> set segs \<Longrightarrow> c \<notin> set s"
  shows "Split (Join segs [c]) c = segs"
  using assms
proof (induction segs)
  case (Cons s segs)
  have s: "c \<notin> set s" using Cons.prems(2) by simp
  show ?case
  proof (cases "segs = []")
    case True
    then show ?thesis using s by (simp add: Split_single)
  next
    case False
    then have "Split (Join segs [c]) c = segs" using Cons by simp
    then show ?thesis using False s Split_append_sep [of s c "Join segs [c]"] Split_single [OF s]
      by (simp add: Join_Cons)
  qed
qed simp

lemma clean_step_subset: "set (clean_step rooted kept seg) \<subseteq> set kept \<union> {seg}"
  by (auto simp: clean_step.simps split: list.splits)

lemma clean_subset: "set (foldl (clean_step rooted) kept segs) \<subseteq> set kept \<union> set segs"
proof (induction segs arbitrary: kept)
  case (Cons s segs)
  then show ?case using clean_step_subset [of rooted kept s] Cons.IH [of "clean_step rooted kept s"] by auto
qed simp

lemma kept_segments_no_slash:
  "seg \<in> set (kept_segments rooted (Split s c)) \<Longrightarrow> c \<notin> set seg"
  using clean_subset [of rooted "[]" "Split s c"] Split_no_sep by (auto simp: kept_segments_def)

lemma Clean_no_parent:
  assumes clean: "path_Clean s = s" and "s \<noteq> ''..''" and "\<not> HasPrefix s ''../''"
  shows "''..'' \<notin> set (Split s (CHR ''/''))"
proof -
  let ?r = "HasPrefix s ''/''"
  let ?segs = "kept_segments ?r (Split s (CHR ''/''))"
  obtain n plain where shape: "?segs = replicate n ''..'' @ plain" "list_all plain_segment plain" "?r \<Longrightarrow> n = 0"
    using kept_segments_shape by blast
  have noslash: "CHR ''/'' \<notin> set seg" if "seg \<in> set ?segs" for seg using that by (rule kept_segments_no_slash)
  have plain: "''..'' \<notin> set plain" using shape(2) by (auto simp: list_all_iff plain_segment_def)
  consider "?segs = []" | "?segs \<noteq> []" by blast
  then show ?thesis
  proof cases
    case 1
    then have "s = ''/'' \<or> s = ''.''" using clean by (auto simp: path_Clean_def Let_def split: if_splits)
    then show ?thesis by auto
  next
    case 2
    have dot: "kept_segments False [''.''] = []" by code_simp
    have out: "s = (if ?r then ''/'' else []) @ Join ?segs ''/''"
      using clean 2 dot by (auto simp: path_Clean_def Let_def split: if_splits)
    have split: "Split (Join ?segs ''/'') (CHR ''/'') = ?segs" using 2 noslash by (rule Split_Join)
    show ?thesis
    proof (cases ?r)
      case True
      have "Split s (CHR ''/'') = Split ((if ?r then ''/'' else []) @ Join ?segs ''/'') (CHR ''/'')"
        by (rule arg_cong [OF out])
      also have "\<dots> = [] # ?segs" unfolding if_P [OF True] using split by simp
      finally have "Split s (CHR ''/'') = [] # ?segs" .
      then show ?thesis using plain shape True by auto
    next
      case False
      then have s: "s = Join ?segs ''/''" using out by simp
      have "n = 0"
      proof (cases n)
        case (Suc m)
        then have "?segs = ''..'' # (replicate m ''..'' @ plain)" using shape by simp
        then have "s = ''..'' \<or> HasPrefix s ''../''" using s by (auto simp: Join_Cons HasPrefix_def split: if_splits)
        then show ?thesis using assms by simp
      qed simp
      then show ?thesis using split s plain shape by simp
    qed
  qed
qed

section \<open>Redirects\<close>

definition html_escape :: "string \<Rightarrow> string" where
  "html_escape s = concat (map (\<lambda>c.
     if c = CHR ''&'' then ''&amp;'' else if c = CHR ''<'' then ''&lt;'' else if c = CHR ''>'' then ''&gt;''
     else if c = CHR 0x22 then ''&#34;'' else if c = CHR 0x27 then ''&#39;'' else [c]) s)"

definition hexEscapeNonASCII :: "string \<Rightarrow> string" where
  "hexEscapeNonASCII s = concat (map (\<lambda>c.
     if 128 \<le> byte c then [CHR ''%'', hex_digit (byte c div 16), hex_digit (byte c mod 16)] else [c]) s)"

text \<open>A location without scheme and host: made absolute, cleaned, its query and trailing slash kept.\<close>
definition local_location :: "request \<Rightarrow> string \<Rightarrow> string" where
  "local_location r url =
     (let url = (if HasPrefix url ''/'' then url
          else path_dir (if rq_Path r = [] then ''/'' else rq_Path r) @ url);
          p = takeWhile (\<lambda>c. c \<noteq> CHR ''?'') url; query = dropWhile (\<lambda>c. c \<noteq> CHR ''?'') url;
          cleaned = path_Clean p
      in (if HasSuffix p ''/'' \<and> \<not> HasSuffix cleaned ''/'' then cleaned @ ''/'' else cleaned) @ query)"

definition redirect_location :: "request \<Rightarrow> string \<Rightarrow> string" where
  "redirect_location r url = (case url_Parse url of
       Some u \<Rightarrow> if url_Scheme u = [] \<and> url_Host u = [] then local_location r url else url
     | None \<Rightarrow> url)"

definition StatusText :: "nat \<Rightarrow> string" where
  "StatusText code = (if code = 302 then ''Found'' else if code = 308 then ''Permanent Redirect'' else [])"

text \<open>\<open>http.Redirect\<close>, called before any \<open>Content-Type\<close> is set.\<close>
definition Redirect :: "header \<Rightarrow> request \<Rightarrow> string \<Rightarrow> nat \<Rightarrow> response" where
  "Redirect h r url code =
     (let location = redirect_location r url;
          h = header_Set ''Location'' (hexEscapeNonASCII location) h
      in \<lparr>rs_Status = code,
          rs_Header = (if rq_Method r = ''GET'' \<or> rq_Method r = ''HEAD''
            then header_Set ''Content-Type'' ''text/html; charset=utf-8'' h else h),
          rs_Body = (if rq_Method r = ''GET''
            then ''<a href='' @ [CHR 0x22] @ html_escape location @ [CHR 0x22] @ ''>'' @ StatusText code @ ''</a>.''
              @ [CHR 0x0A, CHR 0x0A] else [])\<rparr>)"

lemma CanonicalHeaderKey_names [simp]:
  "CanonicalHeaderKey ''Location'' = ''Location''" "CanonicalHeaderKey ''Content-Type'' = ''Content-Type''"
  "CanonicalHeaderKey ''Cache-Control'' = ''Cache-Control''" "CanonicalHeaderKey ''Allow'' = ''Allow''"
  "CanonicalHeaderKey ''X-Content-Type-Options'' = ''X-Content-Type-Options''"
  "CanonicalHeaderKey ''X-Page-Hub-Assertion'' = ''X-Page-Hub-Assertion''"
  "CanonicalHeaderKey ''X-Page-Hub-Identity'' = ''X-Page-Hub-Identity''"
  "CanonicalHeaderKey ''Authorization'' = ''Authorization''" "CanonicalHeaderKey ''Cookie'' = ''Cookie''"
  by code_simp+

end
