(* ===== verification/S3_Sign.thy ===== *)
theory S3_Sign
  imports Http Config Sha256
begin

unbundle bit_operations_syntax

text \<open>
  \<open>internal/storage/s3.go\<close>: the bucket address, AWS Signature Version 4 and the connectivity check. The
  HTTP transport is the parameter \<open>client\<close>: the answer to the n-th request a call sends. The map that
  \<open>canonicalHeaders\<close> iterates over has no order, so its iteration order is the parameter \<open>order\<close>;
  \<open>signRequest_order\<close> shows that the signed request does not depend on it. Escaping and parsing of queries
  are those of \<open>net/url\<close>, and \<open>parse_encoded\<close> shows that the query that is signed is the one that is sent.
\<close>

section \<open>Escaping\<close>

definition upper_hex :: "nat \<Rightarrow> char" where
  "upper_hex d = (if d < 10 then char_of (48 + d) else char_of (55 + d))"

definition pct :: "char \<Rightarrow> string" where
  "pct c = [CHR ''%'', upper_hex (byte c div 16), upper_hex (byte c mod 16)]"

definition unreserved :: "char \<Rightarrow> bool" where
  "unreserved c \<longleftrightarrow> is_alnum c \<or> c \<in> set ''-_.~''"

definition escape_path :: "string \<Rightarrow> string" where
  "escape_path s = concat (map (\<lambda>c. if unreserved c \<or> c \<in> set ''$&+,/:;=@'' then [c] else pct c) s)"

definition escape_host :: "string \<Rightarrow> string" where
  "escape_host s = concat (map (\<lambda>c. if host_char c then [c] else pct c) s)"

definition EscapedPath :: "string \<Rightarrow> string" where
  "EscapedPath p = (if p = ''*'' then p else escape_path p)"

definition QueryEscape :: "string \<Rightarrow> string" where
  "QueryEscape s = concat (map (\<lambda>c. if unreserved c then [c] else if c = CHR '' '' then ''+'' else pct c) s)"

text \<open>\<open>String()\<close> of a URL with a scheme and a host and without user info and fragment.\<close>
definition url_String :: "go_url \<Rightarrow> string" where
  "url_String u = url_Scheme u @ ''://'' @ escape_host (url_Host u) @
     (let p = EscapedPath (url_Path u) in if p \<noteq> [] \<and> \<not> HasPrefix p ''/'' then ''/'' @ p else p) @
     (if url_RawQuery u = [] then [] else ''?'' @ url_RawQuery u)"

section \<open>Queries\<close>

text \<open>\<open>url.Values\<close> as a list of entries; \<open>Encode\<close> sorts the keys.\<close>
type_synonym url_values = "(string \<times> string list) list"

definition value_pairs :: "url_values \<Rightarrow> (string \<times> string) list" where
  "value_pairs q = concat (map (\<lambda>(k, vs). map (Pair k) vs) q)"

definition encode_pair :: "string \<times> string \<Rightarrow> string" where
  "encode_pair p = QueryEscape (fst p) @ ''='' @ QueryEscape (snd p)"

definition Values_Encode :: "url_values \<Rightarrow> string" where
  "Values_Encode q = Join (map encode_pair (value_pairs (sort_key fst q))) ''&''"

fun QueryUnescape :: "string \<Rightarrow> string option" where
  "QueryUnescape [] = Some []"
| "QueryUnescape (c # s) =
     (if c = CHR ''%'' then
        (case s of a # b # rest \<Rightarrow>
           (case (hex_val a, hex_val b) of
              (Some x, Some y) \<Rightarrow> map_option ((#) (char_of (x * 16 + y))) (QueryUnescape rest)
            | _ \<Rightarrow> None)
         | _ \<Rightarrow> None)
      else map_option ((#) (if c = CHR ''+'' then CHR '' '' else c)) (QueryUnescape s))"

fun add_value :: "string \<Rightarrow> string \<Rightarrow> url_values \<Rightarrow> url_values" where
  "add_value k v [] = [(k, [v])]"
| "add_value k v ((k', vs) # q) = (if k' = k then (k', vs @ [v]) # q else (k', vs) # add_value k v q)"

text \<open>\<open>url.ParseQuery\<close>: malformed parts are skipped.\<close>
definition parse_part :: "url_values \<Rightarrow> string \<Rightarrow> url_values" where
  "parse_part q part =
     (if part = [] \<or> CHR '';'' \<in> set part then q
      else (case Cut part (CHR ''='') of (k, v, _) \<Rightarrow>
        (case (QueryUnescape k, QueryUnescape v) of
           (Some k, Some v) \<Rightarrow> add_value k v q | _ \<Rightarrow> q)))"

definition ParseQuery :: "string \<Rightarrow> url_values" where
  "ParseQuery s = foldl parse_part [] (Split s (CHR ''&''))"

definition canonicalQuery :: "url_values \<Rightarrow> string" where
  "canonicalQuery q = (if q = [] then [] else Values_Encode q)"

section \<open>Requests\<close>

record s3_request =
  s3_Method :: string
  s3_URL :: go_url
  s3_Host :: string
  s3_Header :: header

record s3_response =
  s3r_StatusCode :: int
  s3r_Header :: "(string \<times> string list) list"
  s3r_Body :: string
  s3r_BodyError :: "error option"
  s3r_ContentLength :: int64

type_synonym s3_client = "nat \<Rightarrow> s3_request \<Rightarrow> s3_response res"

definition storage_blank :: "string \<Rightarrow> bool" where
  "storage_blank bucket \<longleftrightarrow> ContainsAny bucket [CHR ''/'', CHR 0x5C, CHR 0x0D, CHR 0x0A, CHR 0x09] \<or>
     list_ex (\<lambda>r. IsSpace r \<or> IsControl r) (code_points bucket)"

definition bucketURL :: "string \<Rightarrow> string \<Rightarrow> go_url res" where
  "bucketURL endpoint bucket =
     (if TrimSpace endpoint = [] \<or> TrimSpace bucket = [] \<or> storage_blank bucket
      then Inl (Errorf ''invalid storage settings'' [])
      else (case url_Parse (TrimRightByte endpoint (CHR ''/'')) of
          None \<Rightarrow> Inl (Errorf ''invalid storage endpoint'' [])
        | Some u \<Rightarrow>
            if (url_Scheme u \<noteq> ''http'' \<and> url_Scheme u \<noteq> ''https'') \<or> url_Host u = [] \<or> url_User u
               \<or> url_RawQuery u \<noteq> [] \<or> url_Fragment u \<noteq> []
            then Inl (Errorf ''invalid storage endpoint'' [])
            else Inr (u\<lparr>url_Path := TrimRightByte (url_Path u) (CHR ''/'') @ ''/'' @ bucket\<rparr>)))"

text \<open>\<open>http.NewRequest\<close> parses the address it is given and drops an empty port.\<close>
definition NewRequest :: "string \<Rightarrow> string \<Rightarrow> s3_request res" where
  "NewRequest meth address = (case url_Parse address of
       None \<Rightarrow> Inl (Errorf ''parse %q'' [address])
     | Some u \<Rightarrow>
         let host = TrimSuffix (url_Host u) '':'' in
         Inr \<lparr>s3_Method = meth, s3_URL = u\<lparr>url_Host := host\<rparr>, s3_Host = host, s3_Header = no_header\<rparr>)"

section \<open>Hashes\<close>

definition emptyPayloadHash :: string where
  "emptyPayloadHash = ''e3b0c44298fc1c149afbf4c8996fb92427ae41e4649b934ca495991b7852b855''"

definition digestHex :: "string \<Rightarrow> string" where
  "digestHex s = sha256_hex s"

text \<open>HMAC with SHA-256 (RFC 2104): a key longer than a block is hashed first.\<close>
definition hmacSHA256 :: "byte8 list \<Rightarrow> byte8 list \<Rightarrow> byte8 list" where
  "hmacSHA256 key msg =
     (let k = (if 64 < length key then Sum256 key else key);
          k = k @ replicate (64 - length k) 0
      in Sum256 (map (\<lambda>b. b XOR 0x5c) k @ Sum256 (map (\<lambda>b. b XOR 0x36) k @ msg)))"

section \<open>Canonical headers\<close>

text \<open>The inner loop of the exchange sort: the name at \<open>i\<close> and those after it.\<close>
fun exchange :: "string \<Rightarrow> string list \<Rightarrow> string \<times> string list" where
  "exchange x [] = (x, [])"
| "exchange x (y # ys) =
     (if y < x then (case exchange y ys of (m, rest) \<Rightarrow> (m, x # rest))
      else (case exchange x ys of (m, rest) \<Rightarrow> (m, y # rest)))"

lemma exchange_length: "length (snd (exchange x ys)) = length ys"
  by (induction x ys rule: exchange.induct) (auto split: prod.splits)

function sort_names :: "string list \<Rightarrow> string list" where
  "sort_names [] = []"
| "sort_names (x # xs) = (case exchange x xs of (m, rest) \<Rightarrow> m # sort_names rest)"
  by pat_completeness auto
termination
proof (relation "measure length")
  fix x :: string and xs m rest
  assume "(m, rest) = exchange x xs"
  then show "(rest, x # xs) \<in> measure length"
    using exchange_length [of x xs] by (metis in_measure length_Cons lessI snd_conv)
qed simp

text \<open>\<open>strings.Fields\<close>: the runs of runes that are not white space.\<close>
fun fields_loop :: "(nat \<times> string) list \<Rightarrow> string \<Rightarrow> string list" where
  "fields_loop [] cur = (if cur = [] then [] else [cur])"
| "fields_loop ((r, bs) # rs) cur =
     (if IsSpace r then (if cur = [] then [] else [cur]) @ fields_loop rs [] else fields_loop rs (cur @ bs))"

definition Fields :: "string \<Rightarrow> string list" where
  "Fields s = fields_loop (runes s) []"

type_synonym map_order = "(string \<times> string) list \<Rightarrow> (string \<times> string) list"

definition signed_values :: "s3_request \<Rightarrow> (string \<times> string) list" where
  "signed_values r =
     [(''host'', s3_Host r),
      (''x-amz-content-sha256'', header_Get (s3_Header r) ''X-Amz-Content-Sha256''),
      (''x-amz-date'', header_Get (s3_Header r) ''X-Amz-Date'')] @
     (let token = header_Get (s3_Header r) ''X-Amz-Security-Token'' in
      if token = [] then [] else [(''x-amz-security-token'', TrimSpace token)])"

definition header_line :: "s3_request \<Rightarrow> string \<Rightarrow> string" where
  "header_line r name = name @ '':'' @ Join (Fields (the (map_of (signed_values r) name))) '' '' @ [CHR 0x0A]"

definition canonicalHeaders :: "map_order \<Rightarrow> s3_request \<Rightarrow> string \<times> string" where
  "canonicalHeaders order r =
     (let names = sort_names (map fst (order (signed_values r)))
      in (concat (map (header_line r) names), Join names '';''))"

section \<open>Signing\<close>

definition FormatAmz :: "time \<Rightarrow> string" where
  "FormatAmz t =
     (let s = t div second; n = s div 86400; r = s mod 86400; (y, m, d) = civil_of_day n
      in year_digits y @ two_digits m @ two_digits d @ ''T'' @
         two_digits (r div 3600) @ two_digits (r div 60 mod 60) @ two_digits (r mod 60) @ ''Z'')"

definition stamped :: "storage_config \<Rightarrow> time \<Rightarrow> s3_request \<Rightarrow> s3_request" where
  "stamped config now r = r\<lparr>s3_Host := (if s3_Host r = [] then url_Host (s3_URL r) else s3_Host r),
     s3_Header := (let h = header_Set ''X-Amz-Date'' (FormatAmz now)
                     (header_Set ''X-Amz-Content-Sha256'' emptyPayloadHash (s3_Header r))
                   in if sc_SessionToken config = [] then h
                      else header_Set ''X-Amz-Security-Token'' (sc_SessionToken config) h)\<rparr>"

definition canonicalRequest :: "map_order \<Rightarrow> s3_request \<Rightarrow> string" where
  "canonicalRequest order r =
     (case canonicalHeaders order r of (headers, signedHeaders) \<Rightarrow>
        Join [s3_Method r, EscapedPath (url_Path (s3_URL r)), canonicalQuery (ParseQuery (url_RawQuery (s3_URL r))),
              headers, signedHeaders, emptyPayloadHash] [CHR 0x0A])"

definition signingKey :: "storage_config \<Rightarrow> string \<Rightarrow> byte8 list" where
  "signingKey config shortDate =
     hmacSHA256 (hmacSHA256 (hmacSHA256 (hmacSHA256 (str_bytes (''AWS4'' @ sc_SecretAccessKey config))
       (str_bytes shortDate)) (str_bytes (sc_Region config))) (str_bytes ''s3'')) (str_bytes ''aws4_request'')"

definition authorization :: "map_order \<Rightarrow> storage_config \<Rightarrow> s3_request \<Rightarrow> string" where
  "authorization order config r =
     (let amzDate = header_Get (s3_Header r) ''X-Amz-Date'';
          shortDate = take 8 amzDate;
          scope = shortDate @ ''/'' @ sc_Region config @ ''/s3/aws4_request'';
          stringToSign = Join [''AWS4-HMAC-SHA256'', amzDate, scope, digestHex (canonicalRequest order r)] [CHR 0x0A];
          signature = hex_bytes (hmacSHA256 (signingKey config shortDate) (str_bytes stringToSign))
      in ''AWS4-HMAC-SHA256 Credential='' @ sc_AccessKeyID config @ ''/'' @ scope @ '', SignedHeaders='' @
         snd (canonicalHeaders order r) @ '', Signature='' @ signature)"

definition signRequest :: "map_order \<Rightarrow> storage_config \<Rightarrow> time \<Rightarrow> s3_request \<Rightarrow> s3_request res" where
  "signRequest order config now r =
     (if sc_AccessKeyID config = [] \<or> sc_SecretAccessKey config = [] then Inl (Errorf ''missing credentials'' [])
      else let r = stamped config now r in
        Inr (r\<lparr>s3_Header := header_Set ''Authorization'' (authorization order config r) (s3_Header r)\<rparr>))"

section \<open>The connectivity check\<close>

definition StatusReachable :: string where "StatusReachable = ''reachable''"
definition StatusUnavailable :: string where "StatusUnavailable = ''unavailable''"
definition StatusMisconfigured :: string where "StatusMisconfigured = ''misconfigured''"

text \<open>\<open>NewS3Checker\<close> and \<open>NewS3Reader\<close> fill in the default region.\<close>
definition with_region :: "storage_config \<Rightarrow> storage_config" where
  "with_region config = (if sc_Region config = [] then config\<lparr>sc_Region := ''us-east-1''\<rparr> else config)"

definition check_status :: "int \<Rightarrow> string" where
  "check_status status =
     (if 200 \<le> status \<and> status < 300 then StatusReachable
      else if status = 408 \<or> status = 429 \<or> 500 \<le> status then StatusUnavailable
      else StatusMisconfigured)"

definition Check :: "map_order \<Rightarrow> storage_config \<Rightarrow> s3_client \<Rightarrow> time \<Rightarrow> string" where
  "Check order config client now =
     (case bucketURL (sc_Endpoint config) (sc_Bucket config) of
        Inl e \<Rightarrow> StatusMisconfigured
      | Inr u \<Rightarrow>
          if sc_AccessKeyID config = [] \<or> sc_SecretAccessKey config = [] then StatusMisconfigured
          else (case NewRequest ''HEAD'' (url_String u) of
              Inl e \<Rightarrow> StatusMisconfigured
            | Inr r \<Rightarrow>
                (case signRequest order config now r of
                   Inl e \<Rightarrow> StatusMisconfigured
                 | Inr r \<Rightarrow>
                     (case client 0 r of
                        Inl e \<Rightarrow> StatusUnavailable
                      | Inr response \<Rightarrow> check_status (s3r_StatusCode response)))))"

section \<open>The manual sort sorts\<close>

lemma exchange_min:
  "exchange x ys = (m, rest) \<Longrightarrow> mset (m # rest) = mset (x # ys) \<and> (\<forall>z \<in> set (x # ys). m \<le> z)"
proof (induction x ys arbitrary: m rest rule: exchange.induct)
  case (2 x y ys)
  obtain m' rest' where step: "exchange (if y < x then y else x) ys = (m', rest')" by force
  show ?case
  proof (cases "y < x")
    case True
    then have "m = m'" "rest = x # rest'" using 2(3) step by auto
    moreover have "mset (m' # rest') = mset (y # ys)" "\<forall>z \<in> set (y # ys). m' \<le> z"
      using 2(1) [OF True] step True by auto
    ultimately show ?thesis using True by (auto intro: order.trans [OF _ less_imp_le])
  next
    case False
    then have "m = m'" "rest = y # rest'" using 2(3) step by auto
    moreover have "mset (m' # rest') = mset (x # ys)" "\<forall>z \<in> set (x # ys). m' \<le> z"
      using 2(2) [OF False] step False by auto
    ultimately show ?thesis using False by (auto intro: order.trans simp: not_less)
  qed
qed simp

lemma sort_names_sorts: "mset (sort_names xs) = mset xs \<and> sorted (sort_names xs)"
proof (induction xs rule: sort_names.induct)
  case (2 x xs)
  obtain m rest where step: "exchange x xs = (m, rest)" by force
  note least = exchange_min [OF step] and rest = 2 [OF step [symmetric]]
  have "set (sort_names rest) = set rest" using rest mset_eq_setD by blast
  moreover have "set rest \<subseteq> set (x # xs)" using least mset_eq_setD [of "m # rest" "x # xs"] by auto
  ultimately show ?case using rest least step by auto
qed simp

lemma sort_names_sort: "sort_names xs = sort xs"
  using sort_names_sorts [of xs] by (intro properties_for_sort [symmetric]) auto

text \<open>The iteration order of the map does not reach the signature.\<close>

lemma canonicalHeaders_order:
  assumes "\<And>es. mset (order es) = mset es"
  shows "canonicalHeaders order r = canonicalHeaders (\<lambda>es. es) r"
proof -
  have "mset (map fst (order (signed_values r))) = mset (map fst (signed_values r))" using assms by simp
  then have "sort (map fst (order (signed_values r))) = sort (map fst (signed_values r))" by (metis sorted_list_of_multiset_mset)
  then show ?thesis by (simp add: canonicalHeaders_def sort_names_sort)
qed

lemma signRequest_order:
  assumes "\<And>es. mset (order es) = mset es"
  shows "signRequest order config now r = signRequest (\<lambda>es. es) config now r"
  by (simp add: signRequest_def authorization_def canonicalRequest_def canonicalHeaders_order [OF assms])

lemma Check_order:
  assumes "\<And>es. mset (order es) = mset es"
  shows "Check order config client now = Check (\<lambda>es. es) config client now"
  unfolding Check_def signRequest_order [OF assms] ..

section \<open>Queries read back\<close>

lemma hex_val_upper_hex: "d < 16 \<Longrightarrow> hex_val (upper_hex d) = Some d"
  by (auto simp: hex_val_def upper_hex_def byte_def)

lemma pct_unescape: "QueryUnescape (pct c @ s) = map_option ((#) c) (QueryUnescape s)"
proof -
  have "byte c div 16 < 16" "byte c mod 16 < 16" using byte_bound [of c] by (simp_all add: less_mult_imp_div_less)
  then show ?thesis by (simp add: pct_def hex_val_upper_hex char_of_byte)
qed

lemma unreserved_plain: "unreserved c \<Longrightarrow> c \<noteq> CHR ''%'' \<and> c \<noteq> CHR ''+'' \<and> c \<noteq> CHR ''&'' \<and> c \<noteq> CHR ''='' \<and> c \<noteq> CHR '';''"
  by (auto simp: unreserved_def is_alnum_def is_letter_def is_digit_def byte_def)

lemma QueryUnescape_Escape: "QueryUnescape (QueryEscape s) = Some s"
proof (induction s)
  case (Cons c s)
  have "QueryEscape (c # s) = (if unreserved c then [c] else if c = CHR '' '' then ''+'' else pct c) @ QueryEscape s"
    by (simp add: QueryEscape_def)
  then show ?case using Cons unreserved_plain [of c] by (auto simp: pct_unescape)
qed (simp add: QueryEscape_def)

definition query_safe :: "char \<Rightarrow> bool" where
  "query_safe c \<longleftrightarrow> c \<noteq> CHR ''&'' \<and> c \<noteq> CHR ''='' \<and> c \<noteq> CHR '';''"

lemma byte_upper_hex: "d < 16 \<Longrightarrow> byte (upper_hex d) = (if d < 10 then 48 + d else 55 + d)"
  by (simp add: upper_hex_def byte_def)

lemma upper_hex_safe:
  assumes "d < 16"
  shows "query_safe (upper_hex d)"
proof -
  have "byte (upper_hex d) \<noteq> byte (CHR ''&'')" "byte (upper_hex d) \<noteq> byte (CHR ''='')" "byte (upper_hex d) \<noteq> byte (CHR '';'')"
    using assms by (auto simp: byte_upper_hex) (simp_all add: byte_def)
  then show ?thesis unfolding query_safe_def by metis
qed

lemma list_all_concat_map: "(\<And>x. list_all P (f x)) \<Longrightarrow> list_all P (concat (map f xs))"
  by (induction xs) simp_all

lemma QueryEscape_safe: "list_all query_safe (QueryEscape s)"
proof -
  have "list_all query_safe (if unreserved c then [c] else if c = CHR '' '' then ''+'' else pct c)" for c
  proof -
    have "byte c div 16 < 16" "byte c mod 16 < 16" using byte_bound [of c] by (simp_all add: less_mult_imp_div_less)
    then show ?thesis
      using unreserved_plain [of c] upper_hex_safe by (auto simp: pct_def query_safe_def)
  qed
  then show ?thesis unfolding QueryEscape_def by (rule list_all_concat_map)
qed

lemma Cut_first: "c \<notin> set s \<Longrightarrow> Cut (s @ c # t) c = (s, t, True)"
proof -
  assume "c \<notin> set s"
  then have "takeWhile (\<lambda>x. x \<noteq> c) (s @ c # t) = s" by (induction s) auto
  then show ?thesis by (simp add: Cut_def Index_def)
qed

lemma parse_pair: "parse_part q (encode_pair (k, v)) = add_value k v q"
proof -
  have k: "CHR ''='' \<notin> set (QueryEscape k)" and semi: "CHR '';'' \<notin> set (QueryEscape k)" "CHR '';'' \<notin> set (QueryEscape v)"
    using QueryEscape_safe [of k] QueryEscape_safe [of v] by (auto simp: list_all_iff query_safe_def)
  show ?thesis
    using Cut_first [OF k, of "QueryEscape v"] semi
    by (simp add: parse_part_def encode_pair_def QueryUnescape_Escape)
qed

lemma Split_Join_pairs:
  assumes "ps \<noteq> []"
  shows "Split (Join (map encode_pair ps) ''&'') (CHR ''&'') = map encode_pair ps"
proof (rule Split_Join)
  fix s
  assume "s \<in> set (map encode_pair ps)"
  then obtain k v where "s = encode_pair (k, v)" by auto
  then show "CHR ''&'' \<notin> set s"
    using QueryEscape_safe [of k] QueryEscape_safe [of v] by (auto simp: encode_pair_def list_all_iff query_safe_def)
qed (use assms in simp)

lemma add_value_same: "k \<notin> fst ` set q \<Longrightarrow> add_value k v (q @ [(k, vs)]) = q @ [(k, vs @ [v])]"
  by (induction q) auto

lemma add_value_new: "k \<notin> fst ` set q \<Longrightarrow> add_value k v q = q @ [(k, [v])]"
  by (induction q) auto

lemma add_values:
  "k \<notin> fst ` set q \<Longrightarrow> foldl (\<lambda>q p. add_value (fst p) (snd p) q) (q @ [(k, us)]) (map (Pair k) vs) = q @ [(k, us @ vs)]"
  by (induction vs arbitrary: us) (simp_all add: add_value_same)

lemma add_all_values:
  "distinct (map fst (acc @ q)) \<Longrightarrow> list_all (\<lambda>(k, vs). vs \<noteq> []) q \<Longrightarrow>
    foldl (\<lambda>q p. add_value (fst p) (snd p) q) acc (value_pairs q) = acc @ q"
proof (induction q arbitrary: acc)
  case (Cons e q)
  obtain k v vs where e: "e = (k, v # vs)" using Cons.prems(2) by (cases e; cases "snd e") auto
  have new: "k \<notin> fst ` set acc" using Cons.prems(1) e by auto
  have "foldl (\<lambda>q p. add_value (fst p) (snd p) q) acc (map (Pair k) (v # vs)) = acc @ [e]"
    using add_values [OF new, of "[v]" vs] by (simp add: add_value_new [OF new] e)
  moreover have "foldl (\<lambda>q p. add_value (fst p) (snd p) q) (acc @ [e]) (value_pairs q) = (acc @ [e]) @ q"
    using Cons.prems by (intro Cons.IH) auto
  ultimately show ?case by (simp add: value_pairs_def e)
qed (simp add: value_pairs_def)

text \<open>Parsing what \<open>Encode\<close> wrote gives the same query, so signing parses and encodes it unchanged.\<close>

lemma parse_encoded:
  assumes "distinct (map fst q)" and "list_all (\<lambda>(k, vs). vs \<noteq> []) q" and "q \<noteq> []"
  shows "ParseQuery (Values_Encode q) = sort_key fst q"
proof -
  let ?q = "sort_key fst q"
  have q: "distinct (map fst ([] @ ?q))" "list_all (\<lambda>(k, vs). vs \<noteq> []) ?q"
    using assms by (simp_all add: list_all_iff)
  have "?q \<noteq> []" using assms(3) by (metis length_0_conv length_sort)
  then obtain k v vs rest where "?q = (k, v # vs) # rest"
    using q(2) by (cases ?q; cases "snd (hd ?q)") auto
  then have ne: "value_pairs ?q \<noteq> []" by (simp add: value_pairs_def)
  have "foldl parse_part acc (map encode_pair ps) = foldl (\<lambda>q p. add_value (fst p) (snd p) q) acc ps" for acc ps
    by (induction ps arbitrary: acc) (auto simp: parse_pair)
  then have "ParseQuery (Values_Encode q) = foldl (\<lambda>q p. add_value (fst p) (snd p) q) [] (value_pairs ?q)"
    by (simp add: ParseQuery_def Values_Encode_def Split_Join_pairs [OF ne])
  then show ?thesis using add_all_values [OF q] by simp
qed

lemma canonicalQuery_sent:
  assumes "distinct (map fst q)" and "list_all (\<lambda>(k, vs). vs \<noteq> []) q" and "q \<noteq> []"
  shows "canonicalQuery (ParseQuery (Values_Encode q)) = Values_Encode q"
proof -
  have "sort_key fst q \<noteq> []" using assms(3) by (metis length_0_conv length_sort)
  moreover have "sort_key fst (sort_key fst q) = sort_key fst q" by (intro sort_key_id_if_sorted) simp
  ultimately show ?thesis
    unfolding canonicalQuery_def parse_encoded [OF assms] by (simp add: Values_Encode_def)
qed

end
