(* ===== verification/Manager.thy ===== *)
theory Manager
  imports Inventory Http Config Service S3_Sign Declaration
begin

text \<open>
  The state and the shared steps of \<open>internal/server\<close>: the manager's configuration and what it talks to, its
  answers as values, and the JSON it sends. A \<open>server\<close> record holds what the dependencies answer while one
  request is served: the storage checker's status, the inventory the catalog returns (\<open>None\<close> for a server
  built without one), the refresher's state before and after a refresh, the embedded assets, the public
  handler and the clock. \<open>http.ServeContent\<close>, which chooses types and ranges from tables of the host, is the
  parameter \<open>hs_content\<close>. A handler returns its response, or \<open>None\<close> if it panics, with the calls it made.
\<close>

section \<open>State\<close>

record refresher =
  rf_Before :: "bool \<times> outcome"
  rf_After :: "bool \<times> outcome"

record server =
  hs_config :: config
  hs_check :: string
  hs_inventory :: "inventory res option"
  hs_refresher :: "refresher option"
  hs_assets :: "string \<Rightarrow> string option"
  hs_content :: "header \<Rightarrow> request \<Rightarrow> string \<Rightarrow> string \<Rightarrow> response"
  hs_public :: "(request \<Rightarrow> response) option"
  hs_now :: time

datatype action = CheckStorage | ReadInventory | RequestRefresh | ServePublic request

type_synonym reply = "response option \<times> action list"

definition managerPrefix :: string where "managerPrefix = ''/_page-hub/''"
definition managerRoot :: string where "managerRoot = ''/_page-hub''"

definition previewPrefix :: string where
  "previewPrefix = managerPrefix @ ''preview/''"

definition observationStaleAfter :: duration where
  "observationStaleAfter = 5 * 60 * second"

text \<open>\<open>time.Since\<close> of a time read from the catalog.\<close>
definition observationStale :: "server \<Rightarrow> time \<Rightarrow> bool" where
  "observationStale s observedAt \<longleftrightarrow> observationStaleAfter < Sub (hs_now s) observedAt"

text \<open>\<open>New\<close>: an invalid configuration is refused; the default checker and the assets are parts of \<open>server\<close>.\<close>
definition New :: "server \<Rightarrow> server res" where
  "New s = require (Config_Validate (hs_config s)) (Inr s)"

section \<open>Answers\<close>

definition http_ok :: nat where "http_ok = 200"

definition setPrivateHeaders :: "header \<Rightarrow> header" where
  "setPrivateHeaders h = header_Set ''X-Content-Type-Options'' ''nosniff'' (header_Set ''Cache-Control'' ''no-store'' h)"

text \<open>An encoder error leaves the body empty; the status is already written.\<close>
definition writeJSON :: "header \<Rightarrow> request \<Rightarrow> nat \<Rightarrow> json option \<Rightarrow> response" where
  "writeJSON h r status v =
     \<lparr>rs_Status = status, rs_Header = header_Set ''Content-Type'' ''application/json; charset=utf-8'' h,
      rs_Body = (if rq_Method r = ''HEAD'' then []
        else case v of None \<Rightarrow> [] | Some j \<Rightarrow> Marshal j @ [CHR 0x0A])\<rparr>"

definition writeNotFound :: "header \<Rightarrow> response" where
  "writeNotFound h = \<lparr>rs_Status = 404, rs_Header = h, rs_Body = []\<rparr>"

definition writeMethodNotAllowed :: "header \<Rightarrow> string list \<Rightarrow> response" where
  "writeMethodNotAllowed h methods =
     \<lparr>rs_Status = 405, rs_Header = header_Set ''Allow'' (Join methods '', '') h, rs_Body = []\<rparr>"

text \<open>A handler for some methods: any other method is refused before anything is called.\<close>
definition allowMethods :: "header \<Rightarrow> request \<Rightarrow> string list \<Rightarrow> reply \<Rightarrow> reply" where
  "allowMethods h r methods reply =
     (if rq_Method r \<in> set methods then reply else (Some (writeMethodNotAllowed h methods), []))"

definition get_or_head :: "string list" where
  "get_or_head = [''GET'', ''HEAD'']"

definition json_error :: "string \<Rightarrow> json option" where
  "json_error what = Some (JObj [(''error'', JStr what)])"

definition canonicalURL :: "server \<Rightarrow> inventory_publication \<Rightarrow> string" where
  "canonicalURL s p =
     (if cf_PublicBaseURL (hs_config s) = [] then []
      else CanonicalURL (cf_PublicBaseURL (hs_config s)) (ip_Path p) (ip_EntryPoint p) (ip_RoutingMode p))"

definition authorized :: "server \<Rightarrow> request \<Rightarrow> bool" where
  "authorized s r \<longleftrightarrow>
     (if cf_DevAuthBypass (hs_config s) then True
      else let values = header_Values (rq_Header r) (cf_AuthAssertionHeader (hs_config s)) in
        if length values \<noteq> 1 \<or> values ! 0 = [] then False
        else values ! 0 = cf_AuthAssertionValue (hs_config s))"

definition isReservedPath :: "string \<Rightarrow> bool" where
  "isReservedPath p \<longleftrightarrow> p = ''/'' \<or> p = managerRoot \<or> HasPrefix p managerPrefix"

definition writeUnauthorized :: "server \<Rightarrow> request \<Rightarrow> response" where
  "writeUnauthorized s r =
     (let h = setPrivateHeaders no_header; login = cf_AuthLoginURL (hs_config s) in
      if rq_Path r = ''/'' \<and> login \<noteq> [] \<and> (rq_Method r = ''GET'' \<or> rq_Method r = ''HEAD'')
      then Redirect h r login 302
      else writeJSON h r 401 (json_error ''unauthorized''))"

section \<open>The inventory as JSON\<close>

definition fraction :: "int \<Rightarrow> string" where
  "fraction ns =
     (let ds = digits_of (nat ns); padded = replicate (9 - length ds) (CHR ''0'') @ ds
      in if ns = 0 then [] else CHR ''.'' # rev (dropWhile (\<lambda>c. c = CHR ''0'') (rev padded)))"

text \<open>\<open>MarshalJSON\<close> of a time in UTC: RFC 3339 with the fraction it has; years beyond 9999 are an error.\<close>
definition json_of_time :: "time \<Rightarrow> json option" where
  "json_of_time t =
     (if year_ok t then Some (JStr (butlast (FormatRFC3339 t) @ fraction (t mod second) @ ''Z'')) else None)"

definition json_of_observation :: "publication_observation option \<Rightarrow> json" where
  "json_of_observation obs = (case obs of None \<Rightarrow> JNull
     | Some p \<Rightarrow> JObj [(''state'', JStr (po_State p)),
         (''observedSize'', case po_ObservedSize p of None \<Rightarrow> JNull | Some n \<Rightarrow> json_int64 n),
         (''statusDetail'', JStr (po_StatusDetail p))])"

definition json_of_inventory_publication :: "inventory_publication \<Rightarrow> json" where
  "json_of_inventory_publication p = JObj
     [(''id'', JStr (ip_ID p)), (''path'', JStr (ip_Path p)), (''displayName'', JStr (ip_DisplayName p)),
      (''description'', JStr (ip_Description p)), (''entryPoint'', JStr (ip_EntryPoint p)),
      (''routingMode'', JStr (ip_RoutingMode p)), (''size'', json_int64 (ip_Size p)),
      (''contentChangedAt'', JStr (ip_ContentChangedAt p)), (''canonicalUrl'', JStr (ip_CanonicalURL p)),
      (''observation'', json_of_observation (ip_Observation p))]"

definition json_of_inventory_project :: "inventory_project \<Rightarrow> json" where
  "json_of_inventory_project j = JObj
     [(''id'', JStr (ij_ID j)), (''prefix'', JStr (ij_Prefix j)), (''displayName'', JStr (ij_DisplayName j)),
      (''description'', JStr (ij_Description j)),
      (''publications'', json_array json_of_inventory_publication (ij_Publications j))]"

definition json_of_usage :: "bucket_usage \<Rightarrow> json" where
  "json_of_usage u = JObj
     [(''quotaBytes'', json_int64 (bu_QuotaBytes u)), (''totalBytes'', json_int64 (bu_TotalBytes u)),
      (''acceptedBytes'', json_int64 (bu_AcceptedBytes u)), (''unclaimedBytes'', json_int64 (bu_UnclaimedBytes u))]"

definition json_of_bucket_observation :: "bucket_observation option \<Rightarrow> json option" where
  "json_of_bucket_observation obs = (case obs of None \<Rightarrow> Some JNull
     | Some b \<Rightarrow> map_option (\<lambda>t. JObj [(''observedAt'', t), (''mutationLock'', JStr (bo_MutationLock b)),
         (''usage'', json_of_usage (bo_Usage b)), (''stale'', JBool (bo_Stale b))]) (json_of_time (bo_ObservedAt b)))"

definition outcome_text :: "outcome \<Rightarrow> string" where
  "outcome_text out = (case out of OutcomeNever \<Rightarrow> ''never'' | OutcomeSucceeded \<Rightarrow> ''succeeded''
     | OutcomeUnavailable \<Rightarrow> ''unavailable'' | OutcomeMisconfigured \<Rightarrow> ''misconfigured'' | OutcomeFailed \<Rightarrow> ''failed'')"

definition json_of_refresh :: "bool \<times> outcome \<Rightarrow> json" where
  "json_of_refresh st = JObj [(''running'', JBool (fst st)), (''lastOutcome'', JStr (outcome_text (snd st)))]"

definition refreshState :: "server \<Rightarrow> bool \<times> outcome" where
  "refreshState s = (case hs_refresher s of None \<Rightarrow> (False, OutcomeNever) | Some rf \<Rightarrow> rf_Before rf)"

section \<open>Handlers of the manager API\<close>

definition with_url :: "server \<Rightarrow> inventory_publication \<Rightarrow> inventory_publication" where
  "with_url s p = p\<lparr>ip_CanonicalURL := canonicalURL s p\<rparr>"

definition with_urls :: "server \<Rightarrow> inventory_project \<Rightarrow> inventory_project" where
  "with_urls s j = j\<lparr>ij_Publications := map (with_url s) (ij_Publications j)\<rparr>"

definition with_quota :: "server \<Rightarrow> bucket_observation \<Rightarrow> bucket_observation" where
  "with_quota s b = b\<lparr>bo_Usage := (bo_Usage b)\<lparr>bu_QuotaBytes := cf_StorageQuotaBytes (hs_config s)\<rparr>,
     bo_Stale := observationStale s (bo_ObservedAt b)\<rparr>"

definition inventory_payload :: "server \<Rightarrow> inventory \<Rightarrow> json option" where
  "inventory_payload s i = map_option (\<lambda>obs. JObj
     [(''projects'', json_array json_of_inventory_project (map (with_urls s) (inv_Projects i))),
      (''observation'', obs), (''refresh'', json_of_refresh (refreshState s))])
     (json_of_bucket_observation (map_option (with_quota s) (inv_Observation i)))"

definition serveInventory :: "server \<Rightarrow> header \<Rightarrow> request \<Rightarrow> reply" where
  "serveInventory s h r = allowMethods h r get_or_head
     (case hs_inventory s of
        None \<Rightarrow> (Some (writeJSON h r 503 (json_error ''inventory unavailable'')), [])
      | Some (Inl e) \<Rightarrow> (Some (writeJSON h r 503 (json_error ''inventory unavailable'')), [ReadInventory])
      | Some (Inr i) \<Rightarrow> (Some (writeJSON h r http_ok (inventory_payload s i)), [ReadInventory]))"

definition serveRefresh :: "server \<Rightarrow> header \<Rightarrow> request \<Rightarrow> reply" where
  "serveRefresh s h r = allowMethods h r [''POST'']
     (case hs_refresher s of
        None \<Rightarrow> (Some (writeJSON h r 503 (json_error ''refresh unavailable'')), [])
      | Some rf \<Rightarrow> (Some (writeJSON h r http_ok (Some (json_of_refresh (rf_After rf)))), [RequestRefresh]))"

text \<open>Keys of a Go map are encoded in order.\<close>
definition serveStatus :: "server \<Rightarrow> header \<Rightarrow> request \<Rightarrow> reply" where
  "serveStatus s h r = allowMethods h r get_or_head
     (Some (writeJSON h r http_ok (Some (JObj [(''storage'', JObj [(''status'', JStr (hs_check s))]),
        (''version'', JStr (cf_Version (hs_config s)))]))), [CheckStorage])"

definition serveHealth :: "server \<Rightarrow> header \<Rightarrow> request \<Rightarrow> reply" where
  "serveHealth s h r = allowMethods h r get_or_head
     (Some (writeJSON h r http_ok (Some (JObj [(''status'', JStr ''ok''), (''version'', JStr (cf_Version (hs_config s)))]))), [])"

definition catalog_available :: "server \<Rightarrow> bool" where
  "catalog_available s \<longleftrightarrow> (case hs_inventory s of Some (Inr i) \<Rightarrow> True | _ \<Rightarrow> False)"

definition serveReady :: "server \<Rightarrow> header \<Rightarrow> request \<Rightarrow> reply" where
  "serveReady s h r = allowMethods h r get_or_head
     (let catalogStatus = (if catalog_available s then ''available'' else ''unavailable'');
          degraded = (hs_check s \<noteq> StatusReachable \<or> catalogStatus = ''unavailable'')
      in (Some (writeJSON h r (if degraded then 503 else http_ok) (Some (JObj [(''catalog'', JStr catalogStatus),
            (''status'', JStr (if degraded then ''degraded'' else ''ready'')), (''storage'', JStr (hs_check s))]))),
          CheckStorage # (if hs_inventory s = None then [] else [ReadInventory])))"

section \<open>Assets\<close>

definition serveEmbedded :: "server \<Rightarrow> header \<Rightarrow> request \<Rightarrow> string \<Rightarrow> response" where
  "serveEmbedded s h r name = (case hs_assets s name of
       None \<Rightarrow> writeNotFound h | Some contents \<Rightarrow> hs_content s h r (path_Base name) contents)"

definition serveShell :: "server \<Rightarrow> header \<Rightarrow> request \<Rightarrow> reply" where
  "serveShell s h r = allowMethods h r get_or_head (Some (serveEmbedded s h r ''index.html''), [])"

text \<open>The file a request for an asset may read; \<open>None\<close> is not found.\<close>
definition asset_name :: "string \<Rightarrow> string option" where
  "asset_name path =
     (let name = TrimPrefix path (managerPrefix @ ''assets/'') in
      if name = [] \<or> name \<noteq> path_Clean name \<or> HasPrefix name ''../'' \<or> name = ''..'' then None
      else Some (path_Join ''assets'' name))"

definition serveAsset :: "server \<Rightarrow> header \<Rightarrow> request \<Rightarrow> reply" where
  "serveAsset s h r = allowMethods h r get_or_head
     (Some (case asset_name (rq_Path r) of None \<Rightarrow> writeNotFound h | Some name \<Rightarrow> serveEmbedded s h r name), [])"

section \<open>Facts the properties share\<close>

lemma allowMethods_other:
  "rq_Method r \<notin> set methods \<Longrightarrow> allowMethods h r methods reply = (Some (writeMethodNotAllowed h methods), [])"
  by (simp add: allowMethods_def)

lemma allowMethods_listed: "rq_Method r \<in> set methods \<Longrightarrow> allowMethods h r methods reply = reply"
  by (simp add: allowMethods_def)

text \<open>No asset request reads a file outside \<open>assets\<close>.\<close>

lemma Join_assets: "path_Join ''assets'' name = Join (''assets'' # filter plain_segment (Split name (CHR ''/''))) ''/''"
  if "''..'' \<notin> set (Split name (CHR ''/''))" for name
proof -
  have fold: "foldl (clean_step False) kept segs = rev (filter plain_segment segs) @ kept" if "''..'' \<notin> set segs" for kept segs
    using that by (induction segs arbitrary: kept) (auto simp: clean_step.simps plain_segment_def)
  have split: "Split (''assets'' @ ''/'' @ name) (CHR ''/'') = ''assets'' # Split name (CHR ''/'')"
    using Split_append_sep [of "''assets''" "CHR ''/''" name] by (simp add: Split_single)
  have "''..'' \<notin> set (''assets'' # Split name (CHR ''/''))" using that by simp
  from fold [OF this, of "[]"] have "kept_segments False (Split (''assets'' @ ''/'' @ name) (CHR ''/''))
      = ''assets'' # filter plain_segment (Split name (CHR ''/''))"
    unfolding split by (simp add: kept_segments_def plain_segment_def)
  then show ?thesis
    unfolding path_Join_def path_Clean_def by (simp add: HasPrefix_def Let_def Join_Cons)
qed

lemma asset_name_inside:
  assumes "asset_name path = Some name"
  obtains segs where "name = Join (''assets'' # segs) ''/''" "list_all plain_segment segs"
proof -
  let ?n = "TrimPrefix path (managerPrefix @ ''assets/'')"
  have n: "path_Clean ?n = ?n" "?n \<noteq> ''..''" "\<not> HasPrefix ?n ''../''" "name = path_Join ''assets'' ?n"
    using assms by (auto simp: asset_name_def Let_def split: if_splits)
  have "''..'' \<notin> set (Split ?n (CHR ''/''))" using n(1-3) by (rule Clean_no_parent)
  then show ?thesis
    using that [of "filter plain_segment (Split ?n (CHR ''/''))"] n(4) Join_assets by (simp add: list_all_iff)
qed

end
