(* ===== verification/Preview.thy ===== *)
theory Preview
  imports Manager
begin

text \<open>
  \<open>internal/server/preview.go\<close>: the authenticated preview of a Publication path. It redirects to the canonical
  public URL of a Publication that the latest observation found in sync, and answers everything else with a
  warning page. The page is rendered by \<open>text/template\<close>, which inserts values as they are:
  \<open>warning_page\<close> is that rendering. A server built without an inventory reader panics here.
\<close>

section \<open>The warning page\<close>

record preview_warning =
  pw_Status :: nat
  pw_DisplayName :: string
  pw_Path :: string
  pw_Reason :: string
  pw_StatusDetail :: string
  pw_ObservedAt :: string
  pw_Stale :: bool
  pw_PublicURL :: string

definition nl :: string where "nl = [CHR 0x0A]"
definition dq :: string where "dq = [CHR 0x22]"

text \<open>U+2014 in UTF-8.\<close>
definition em_dash :: string where "em_dash = [CHR 0xE2, CHR 0x80, CHR 0x94]"

definition page_head :: string where
  "page_head =
     ''<!doctype html>'' @ nl @ ''<html lang='' @ dq @ ''en'' @ dq @ ''>'' @ nl @ ''<head>'' @ nl @ ''<meta charset=''
     @ dq @ ''utf-8'' @ dq @ ''>'' @ nl @ ''<meta name='' @ dq @ ''viewport'' @ dq @ '' content='' @ dq
     @ ''width=device-width, initial-scale=1'' @ dq @ ''>'' @ nl @ ''<title>Preview unavailable '' @ em_dash @ '' Page Hub</title>'' @ nl @ ''<style>'' @ nl
     @ ''  body { margin: 0; min-height: 100vh; display: grid; place-items: center; background: #f7f8f5; color: #17201d; font-family: system-ui, -apple-system, ''
     @ dq @ ''Segoe UI'' @ dq @ '', sans-serif; }'' @ nl
     @ ''  main { max-width: 34rem; margin: 2rem 1rem; padding: 2rem; border: 1px solid #dce1dd; border-radius: 14px; background: #fff; }''
     @ nl @ ''  h1 { margin: 0 0 .5rem; font-size: 1.4rem; }'' @ nl @ ''  p { margin: .5rem 0; line-height: 1.5; }''
     @ nl @ ''  code { font-family: ui-monospace, Consolas, monospace; font-size: .9em; }'' @ nl
     @ ''  .detail { color: #915b14; }'' @ nl
     @ ''  .actions { margin-top: 1.5rem; display: flex; gap: .75rem; flex-wrap: wrap; }'' @ nl
     @ ''  a { color: #126448; }'' @ nl @ ''</style>'' @ nl @ ''</head>'' @ nl @ ''<body>'' @ nl @ ''<main>'' @ nl
     @ ''  <h1>Preview unavailable</h1>''"

text \<open>The template's actions, in order; \<open>{{-\<close> removes the white space before it.\<close>

definition page_title :: "preview_warning \<Rightarrow> string" where
  "page_title w =
     (if pw_DisplayName w \<noteq> []
      then nl @ ''  <p><strong>'' @ pw_DisplayName w @ ''</strong>'' @
        (if pw_Path w \<noteq> [] then '' '' @ em_dash @ '' '' @ ''<code>/'' @ pw_Path w @ ''</code>'' else []) @ ''</p>''
      else if pw_Path w \<noteq> [] then nl @ ''  <p>'' @ ''<code>/'' @ pw_Path w @ ''</code>'' @ ''</p>'' else [])"

definition page_detail :: "preview_warning \<Rightarrow> string" where
  "page_detail w =
     (if pw_StatusDetail w \<noteq> []
      then nl @ ''  <p class='' @ dq @ ''detail'' @ dq @ ''>'' @ pw_StatusDetail w @ ''</p>'' else []) @
     (if pw_ObservedAt w \<noteq> []
      then nl @ ''  <p>Last observed '' @ pw_ObservedAt w @ ''.'' @
        (if pw_Stale w then '' This observation is stale.'' else []) @ ''</p>'' else [])"

definition page_actions :: "preview_warning \<Rightarrow> string" where
  "page_actions w = nl @ ''  <div class='' @ dq @ ''actions'' @ dq @ ''>'' @ nl @
     ''    <a href='' @ dq @ ''/'' @ dq @ ''>Back to the manager</a>'' @
     (if pw_PublicURL w \<noteq> []
      then nl @ ''    <a href='' @ dq @ pw_PublicURL w @ dq @ '' target='' @ dq @ ''_blank'' @ dq @ '' rel='' @ dq @
        ''noopener noreferrer'' @ dq @ ''>Open the public page anyway</a>'' else []) @
     nl @ ''  </div>'' @ nl @ ''</main>'' @ nl @ ''</body>'' @ nl @ ''</html>'' @ nl"

definition warning_page :: "preview_warning \<Rightarrow> string" where
  "warning_page w = page_head @ page_title w @ nl @ ''  <p>'' @ pw_Reason w @ ''</p>'' @ page_detail w @ page_actions w"

definition writePreviewWarning :: "header \<Rightarrow> request \<Rightarrow> preview_warning \<Rightarrow> response" where
  "writePreviewWarning h r w =
     \<lparr>rs_Status = pw_Status w, rs_Header = header_Set ''Content-Type'' ''text/html; charset=utf-8'' h,
      rs_Body = (if rq_Method r = ''HEAD'' then [] else warning_page w)\<rparr>"

definition bare_warning :: "nat \<Rightarrow> string \<Rightarrow> string \<Rightarrow> string \<Rightarrow> preview_warning" where
  "bare_warning status display path reason = \<lparr>pw_Status = status, pw_DisplayName = display, pw_Path = path,
     pw_Reason = reason, pw_StatusDetail = [], pw_ObservedAt = [], pw_Stale = False, pw_PublicURL = []\<rparr>"

section \<open>Choosing the answer\<close>

definition validPublicationPath :: "string \<Rightarrow> bool" where
  "validPublicationPath p \<longleftrightarrow> p \<noteq> [] \<and>
     \<not> list_ex (\<lambda>seg. seg = [] \<or> seg = ''.'' \<or> seg = ''..'') (Split p (CHR ''/'')) \<and> p = path_Clean p"

definition findPublication :: "inventory \<Rightarrow> string \<Rightarrow> inventory_publication option" where
  "findPublication i p = find (\<lambda>q. ip_Path q = p) (concat (map ij_Publications (inv_Projects i)))"

text \<open>\<open>Format("2006-01-02 15:04")\<close> in UTC.\<close>
definition FormatMinute :: "time \<Rightarrow> string" where
  "FormatMinute t =
     (let s = t div second; n = s div 86400; r = s mod 86400; (y, m, d) = civil_of_day n
      in year_digits y @ ''-'' @ two_digits m @ ''-'' @ two_digits d @ '' '' @ two_digits (r div 3600) @ '':'' @
         two_digits (r div 60 mod 60))"

definition drift_reason :: "string \<Rightarrow> string" where
  "drift_reason state =
     (if state = StateDrifted
      then ''This Publication drifted from its accepted manifest. Preview opens only an in-sync Publication.''
      else if state = StateMissing
      then ''This Publication is missing from storage. Preview opens only an in-sync Publication.''
      else ''This Publication is not in sync, so Page Hub refuses to preview it.'')"

definition previewWarningFor :: "server \<Rightarrow> inventory_publication \<Rightarrow> inventory \<Rightarrow> string \<Rightarrow> preview_warning" where
  "previewWarningFor s p i publicURL =
     (let w = (bare_warning 409 (ip_DisplayName p) (ip_Path p) [])\<lparr>pw_PublicURL := publicURL\<rparr> in
      case inv_Observation i of
        None \<Rightarrow> w\<lparr>pw_Reason := ''Page Hub has not completed a storage observation yet, so the state of this Publication is unknown.''\<rparr>
      | Some b \<Rightarrow>
          (case ip_Observation p of
             None \<Rightarrow> w\<lparr>pw_Reason := ''The latest observation did not classify this Publication, so its state is unknown.''\<rparr>
           | Some ob \<Rightarrow> w\<lparr>pw_Reason := drift_reason (po_State ob), pw_StatusDetail := po_StatusDetail ob\<rparr>)
          \<lparr>pw_ObservedAt := FormatMinute (bo_ObservedAt b) @ '' UTC'', pw_Stale := observationStale s (bo_ObservedAt b)\<rparr>)"

definition preview_path :: "request \<Rightarrow> string" where
  "preview_path r = TrimPrefix (rq_Path r) previewPrefix"

definition in_sync :: "inventory_publication \<Rightarrow> bool" where
  "in_sync p \<longleftrightarrow> (case ip_Observation p of None \<Rightarrow> False | Some ob \<Rightarrow> po_State ob = StateInSync)"

text \<open>What a readable inventory answers for a path of valid shape.\<close>
definition preview_found :: "server \<Rightarrow> header \<Rightarrow> request \<Rightarrow> inventory \<Rightarrow> response" where
  "preview_found s h r i =
     (case findPublication i (preview_path r) of
        None \<Rightarrow> writePreviewWarning h r
          (bare_warning 404 [] (preview_path r) ''No managed Publication exists at this path.'')
      | Some p \<Rightarrow>
          let publicURL = canonicalURL s p in
          if \<not> in_sync p then writePreviewWarning h r (previewWarningFor s p i publicURL)
          else if publicURL = []
          then writePreviewWarning h r (bare_warning 503 (ip_DisplayName p) (ip_Path p)
            ''Page Hub is not configured with a public base URL, so it cannot redirect to the canonical public URL.'')
          else Redirect h r publicURL 302)"

definition servePreview :: "server \<Rightarrow> header \<Rightarrow> request \<Rightarrow> reply" where
  "servePreview s h r = allowMethods h r get_or_head
     (if \<not> validPublicationPath (preview_path r)
      then (Some (writePreviewWarning h r (bare_warning 404 [] [] ''No managed Publication exists at this path.'')), [])
      else (case hs_inventory s of
          None \<Rightarrow> (None, [])
        | Some (Inl e) \<Rightarrow> (Some (writePreviewWarning h r (bare_warning 503 [] (preview_path r)
            ''The catalog is unavailable, so the observed state of this Publication is unknown.'')), [ReadInventory])
        | Some (Inr i) \<Rightarrow> (Some (preview_found s h r i), [ReadInventory])))"

section \<open>Which paths, which answers\<close>

text \<open>The comparison with \<open>path.Clean\<close> adds nothing to the check of the segments.\<close>

lemma validPublicationPath_iff:
  "validPublicationPath p \<longleftrightarrow> list_all plain_segment (Split p (CHR ''/''))"
proof
  assume "validPublicationPath p"
  then show "list_all plain_segment (Split p (CHR ''/''))"
    by (auto simp: validPublicationPath_def list_all_iff list_ex_iff plain_segment_def)
next
  assume plain: "list_all plain_segment (Split p (CHR ''/''))"
  then have "p \<noteq> []" by (auto simp: plain_segment_def)
  then show "validPublicationPath p"
    using plain Clean_plain [OF plain]
    by (auto simp: validPublicationPath_def list_all_iff list_ex_iff plain_segment_def)
qed

lemma Redirect_status [simp]: "rs_Status (Redirect h r url code) = code"
  by (simp add: Redirect_def Let_def)

lemma preview_found_redirects:
  "rs_Status (preview_found s h r i) = 302 \<longleftrightarrow>
     (\<exists>p. findPublication i (preview_path r) = Some p \<and> in_sync p \<and> canonicalURL s p \<noteq> [])"
proof (cases "findPublication i (preview_path r)")
  case (Some p)
  have "rs_Status (writePreviewWarning h r (previewWarningFor s p i u)) = 409" for u
    by (simp add: writePreviewWarning_def previewWarningFor_def bare_warning_def Let_def split: option.split)
  then show ?thesis
    using Some by (simp add: preview_found_def Let_def writePreviewWarning_def bare_warning_def)
qed (simp add: preview_found_def writePreviewWarning_def bare_warning_def)

lemma preview_found_location:
  assumes "findPublication i (preview_path r) = Some p" and "in_sync p" and "canonicalURL s p \<noteq> []"
  shows "preview_found s h r i = Redirect h r (canonicalURL s p) 302"
  using assms by (simp add: preview_found_def Let_def)

text \<open>The path of the request is part of the page, byte for byte.\<close>

lemma warning_page_path:
  assumes "pw_Path w \<noteq> []"
  shows "\<exists>before after. warning_page w = before @ ''<code>/'' @ pw_Path w @ ''</code>'' @ after"
proof -
  have "\<exists>b a. page_title w = b @ ''<code>/'' @ pw_Path w @ ''</code>'' @ a"
  proof (cases "pw_DisplayName w = []")
    case True
    then show ?thesis using assms by (intro exI [of _ "nl @ ''  <p>''"] exI [of _ "''</p>''"]) (simp add: page_title_def)
  next
    case False
    then show ?thesis using assms
      by (intro exI [of _ "nl @ ''  <p><strong>'' @ pw_DisplayName w @ ''</strong> '' @ em_dash @ '' ''"] exI [of _ "''</p>''"])
        (simp add: page_title_def)
  qed
  then obtain b a where "page_title w = b @ ''<code>/'' @ pw_Path w @ ''</code>'' @ a" by blast
  then have "warning_page w = (page_head @ b) @ ''<code>/'' @ pw_Path w @ ''</code>'' @
      (a @ nl @ ''  <p>'' @ pw_Reason w @ ''</p>'' @ page_detail w @ page_actions w)"
    unfolding warning_page_def by (simp only: append_assoc)
  then show ?thesis by blast
qed

end
