(* ===== verification/Server.thy ===== *)
theory Server
  imports Preview
begin

text \<open>
  \<open>internal/server/server.go\<close>: the boundary between the manager's reserved paths and the public reader, the
  routes of the manager, and the listener. Every reserved path is answered by the manager alone and only for
  an authorized request; a request for any other path reaches the public handler without the credentials.
\<close>

section \<open>Routing\<close>

definition serveManager :: "server \<Rightarrow> request \<Rightarrow> reply" where
  "serveManager s r =
     (if \<not> authorized s r then (Some (writeUnauthorized s r), [])
      else let h = setPrivateHeaders no_header; p = rq_Path r in
        if p = ''/'' then serveShell s h r
        else if p = managerRoot then (Some (Redirect h r managerPrefix 308), [])
        else if HasPrefix p (managerPrefix @ ''assets/'') then serveAsset s h r
        else if p = managerPrefix @ ''api/v1/status'' then serveStatus s h r
        else if p = managerPrefix @ ''api/v1/inventory'' then serveInventory s h r
        else if p = managerPrefix @ ''api/v1/refresh'' then serveRefresh s h r
        else if HasPrefix p previewPrefix then servePreview s h r
        else if p = managerPrefix @ ''healthz'' then serveHealth s h r
        else if p = managerPrefix @ ''readyz'' then serveReady s h r
        else (Some (writeNotFound h), []))"

definition public_header :: "server \<Rightarrow> header \<Rightarrow> header" where
  "public_header s h = header_Del ''Cookie'' (header_Del ''Authorization'' (header_Del ''X-Page-Hub-Identity''
     (header_Del ''X-Page-Hub-Assertion'' (header_Del (cf_AuthAssertionHeader (hs_config s)) h))))"

definition servePublic :: "server \<Rightarrow> request \<Rightarrow> reply" where
  "servePublic s r = (case hs_public s of
       None \<Rightarrow> (Some (writeNotFound no_header), [])
     | Some public \<Rightarrow>
         let r' = r\<lparr>rq_Header := public_header s (rq_Header r)\<rparr> in (Some (public r'), [ServePublic r']))"

definition serveHTTP :: "server \<Rightarrow> request \<Rightarrow> reply" where
  "serveHTTP s r = (if isReservedPath (rq_Path r) then serveManager s r else servePublic s r)"

section \<open>Listening\<close>

text \<open>What the operating system answers: the file at a path, and whether the calls succeed.\<close>
datatype file_kind = SocketFile | OtherFile

record listen_env =
  lse_Stat :: "string \<Rightarrow> file_kind option"
  lse_Remove :: "string \<Rightarrow> bool"
  lse_Listen :: "string \<Rightarrow> string \<Rightarrow> bool"
  lse_Chmod :: "string \<Rightarrow> bool"

definition os_error :: "string \<Rightarrow> error" where
  "os_error what = Errorf what []"

text \<open>The network and address listened on, with the path that the cleanup function removes, if any.\<close>
definition Listen :: "listen_env \<Rightarrow> string \<Rightarrow> ((string \<times> string) \<times> string option) res" where
  "Listen e address =
     (if \<not> HasPrefix address ''unix:''
      then (if lse_Listen e ''tcp'' address then Inr ((''tcp'', address), None) else Inl (os_error ''listen''))
      else let pathName = TrimPrefix address ''unix:'' in
        if pathName = [] then Inl (os_error ''invalid argument'')
        else if lse_Stat e pathName = Some OtherFile then Inl (os_error ''file already exists'')
        else if lse_Stat e pathName = Some SocketFile \<and> \<not> lse_Remove e pathName then Inl (os_error ''remove'')
        else if \<not> lse_Listen e ''unix'' pathName then Inl (os_error ''listen'')
        else if \<not> lse_Chmod e pathName then Inl (os_error ''chmod'')
        else Inr ((''unix'', pathName), Some pathName))"

section \<open>The boundary\<close>

lemma isReservedPath_prefix: "isReservedPath (managerPrefix @ p)"
  by (simp add: isReservedPath_def HasPrefix_def)

text \<open>An unauthorized request for a reserved path: one answer, no call, whatever the server holds.\<close>

lemma unauthorized_reply:
  assumes "isReservedPath (rq_Path r)" and "\<not> authorized s r"
  shows "serveHTTP s r = (Some (writeUnauthorized s r), [])"
  using assms by (simp add: serveHTTP_def serveManager_def)

lemma writeUnauthorized_depends:
  assumes "cf_AuthLoginURL (hs_config s') = cf_AuthLoginURL (hs_config s)"
  shows "writeUnauthorized s' r = writeUnauthorized s r"
  using assms by (simp add: writeUnauthorized_def)

text \<open>The calls each handler makes.\<close>

lemma handler_actions:
  "set (snd (serveShell s h r)) = {}" "set (snd (serveAsset s h r)) = {}" "set (snd (serveHealth s h r)) = {}"
  "set (snd (serveStatus s h r)) \<subseteq> {CheckStorage}" "set (snd (serveInventory s h r)) \<subseteq> {ReadInventory}"
  "set (snd (serveRefresh s h r)) \<subseteq> {RequestRefresh}" "set (snd (servePreview s h r)) \<subseteq> {ReadInventory}"
  "set (snd (serveReady s h r)) \<subseteq> {CheckStorage, ReadInventory}"
  by (auto simp: serveShell_def serveAsset_def serveHealth_def serveStatus_def serveInventory_def serveRefresh_def
      servePreview_def serveReady_def allowMethods_def Let_def split: option.splits sum.splits)

lemma manager_actions: "set (snd (serveManager s r)) \<subseteq> {CheckStorage, ReadInventory, RequestRefresh}"
  using handler_actions [of s "setPrivateHeaders no_header" r]
  by (auto simp: serveManager_def Let_def)

lemma public_header_deletes:
  assumes "key \<in> {cf_AuthAssertionHeader (hs_config s), ''X-Page-Hub-Assertion'', ''X-Page-Hub-Identity'', ''Authorization'', ''Cookie''}"
  shows "header_Values (public_header s h) key = []"
  using assms by (auto simp: public_header_def header_Del_def header_Values_def)

lemma public_header_keeps:
  assumes "key \<notin> CanonicalHeaderKey ` {cf_AuthAssertionHeader (hs_config s), ''X-Page-Hub-Assertion'', ''X-Page-Hub-Identity'', ''Authorization'', ''Cookie''}"
  shows "public_header s h key = h key"
  using assms by (auto simp: public_header_def header_Del_def)

lemma authorized_iff:
  assumes "\<not> cf_DevAuthBypass (hs_config s)" and "cf_AuthAssertionValue (hs_config s) \<noteq> []"
  shows "authorized s r \<longleftrightarrow> header_Values (rq_Header r) (cf_AuthAssertionHeader (hs_config s)) = [cf_AuthAssertionValue (hs_config s)]"
  using assms by (cases "header_Values (rq_Header r) (cf_AuthAssertionHeader (hs_config s))") (auto simp: authorized_def Let_def)

text \<open>The address the manager's root redirects to is not a route.\<close>

lemma root_redirect:
  assumes "authorized s r" and "rq_Path r = managerRoot"
  shows "serveHTTP s r = (Some (Redirect (setPrivateHeaders no_header) r managerPrefix 308), [])"
    and "header_Values (rs_Header (Redirect (setPrivateHeaders no_header) r managerPrefix 308)) ''Location'' = [managerPrefix]"
    and "authorized s r' \<Longrightarrow> rq_Path r' = managerPrefix \<Longrightarrow> serveHTTP s r' = (Some (writeNotFound (setPrivateHeaders no_header)), [])"
proof -
  have "isReservedPath managerRoot" "managerRoot \<noteq> ''/''" by (simp_all add: isReservedPath_def managerRoot_def)
  then show "serveHTTP s r = (Some (Redirect (setPrivateHeaders no_header) r managerPrefix 308), [])"
    using assms by (simp add: serveHTTP_def serveManager_def Let_def)
  have "hexEscapeNonASCII (redirect_location r managerPrefix) = managerPrefix"
  proof -
    have "url_Parse managerPrefix = Some \<lparr>url_Scheme = [], url_Opaque = [], url_User = False, url_Host = [],
        url_Path = managerPrefix, url_RawQuery = [], url_Fragment = []\<rparr>" by code_simp
    moreover have "local_location r managerPrefix = managerPrefix"
    proof -
      have facts: "HasPrefix managerPrefix ''/''" "HasSuffix managerPrefix ''/''" "path_Clean managerPrefix = managerRoot"
        "\<not> HasSuffix managerRoot ''/''" "takeWhile (\<lambda>c. c \<noteq> CHR ''?'') managerPrefix = managerPrefix"
        "dropWhile (\<lambda>c. c \<noteq> CHR ''?'') managerPrefix = []" "managerRoot @ ''/'' = managerPrefix"
        by code_simp+
      show ?thesis unfolding local_location_def Let_def if_P [OF facts(1)] facts(3,5,6)
        using facts(2,4,7) by simp
    qed
    moreover have "hexEscapeNonASCII managerPrefix = managerPrefix" by code_simp
    ultimately show ?thesis by (simp add: redirect_location_def)
  qed
  then show "header_Values (rs_Header (Redirect (setPrivateHeaders no_header) r managerPrefix 308)) ''Location'' = [managerPrefix]"
    by (simp add: Redirect_def Let_def header_Values_def header_Set_def)
  assume r': "authorized s r'" "rq_Path r' = managerPrefix"
  have "isReservedPath managerPrefix" "managerPrefix \<noteq> ''/''" "managerPrefix \<noteq> managerRoot"
    "\<not> HasPrefix managerPrefix (managerPrefix @ ''assets/'')" "\<not> HasPrefix managerPrefix previewPrefix"
    by code_simp+
  then show "serveHTTP s r' = (Some (writeNotFound (setPrivateHeaders no_header)), [])"
    using r' by (simp add: serveHTTP_def serveManager_def Let_def)
qed

text \<open>The route of a preview request.\<close>

lemma preview_route:
  assumes "authorized s r" and "rq_Path r = previewPrefix @ p"
  shows "serveHTTP s r = servePreview s (setPrivateHeaders no_header) r"
  using assms
  by (simp add: serveHTTP_def serveManager_def isReservedPath_def Let_def previewPrefix_def managerPrefix_def
      managerRoot_def HasPrefix_def)

end
