(* ===== verification/Server_Properties.thy ===== *)
theory Server_Properties
  imports Inventory_Properties Server
begin

text \<open>
  The properties of \<open>internal/server\<close>: who the manager answers, what reaches the public reader, what a preview
  does and when the manager reports itself ready.
\<close>

section \<open>A manager\<close>

definition ex_config :: config where
  "ex_config = \<lparr>cf_ListenAddr = ''127.0.0.1:8080'', cf_Version = ''v'', cf_AuthAssertionHeader = ''x-auth'',
     cf_AuthAssertionValue = ''secret'', cf_AuthLoginURL = [], cf_DevAuthBypass = False, cf_CatalogPath = ''c'',
     cf_PublicBaseURL = ex_base, cf_StorageQuotaBytes = 10,
     cf_Storage = \<lparr>sc_Endpoint = [], sc_Region = [], sc_Bucket = [], sc_AccessKeyID = [], sc_SecretAccessKey = [],
       sc_SessionToken = []\<rparr>\<rparr>"

lemma ex_config_valid: "Config_Validate ex_config = None"
  by (simp add: Config_Validate_def ex_config_def ex_base_normal TrimSpace_def runes_ascii byte_def IsSpace_def
      validHeaderName_def code_points_def)

definition ex_server :: "inventory res option \<Rightarrow> server" where
  "ex_server inventory = \<lparr>hs_config = ex_config, hs_check = StatusReachable, hs_inventory = inventory, hs_refresher = None,
     hs_assets = (\<lambda>name. None), hs_content = (\<lambda>h r name contents. writeNotFound h),
     hs_public = Some (\<lambda>r. \<lparr>rs_Status = 200, rs_Header = rq_Header r, rs_Body = []\<rparr>), hs_now = ex_time\<rparr>"

definition ex_request :: "string \<Rightarrow> string list \<Rightarrow> request" where
  "ex_request path auth = \<lparr>rq_Method = ''GET'', rq_Path = path, rq_Header = no_header(''X-Auth'' := auth)\<rparr>"

lemma ex_server_simps [simp]:
  "hs_config (ex_server i) = ex_config" "hs_inventory (ex_server i) = i" "hs_check (ex_server i) = StatusReachable"
  "hs_public (ex_server i) = Some (\<lambda>r. \<lparr>rs_Status = 200, rs_Header = rq_Header r, rs_Body = []\<rparr>)"
  "rq_Method (ex_request p a) = ''GET''" "rq_Path (ex_request p a) = p" "rq_Header (ex_request p a) = no_header(''X-Auth'' := a)"
  "cf_AuthAssertionHeader ex_config = ''x-auth''" "cf_AuthAssertionValue ex_config = ''secret''"
  "\<not> cf_DevAuthBypass ex_config" "cf_AuthLoginURL ex_config = []" "cf_PublicBaseURL ex_config = ex_base"
  by (simp_all add: ex_server_def ex_request_def ex_config_def)

lemma ex_canonical: "CanonicalHeaderKey ''x-auth'' = ''X-Auth''"
  by code_simp

lemma ex_authorized: "authorized (ex_server i) (ex_request p [''secret''])"
  by (simp add: authorized_def header_Values_def ex_canonical)

section \<open>Authorization\<close>

text \<open>
  C7. With a validated configuration and without the development bypass, a request for a reserved path that
  does not carry the assertion header exactly once with the configured value gets nothing: no catalog read, no
  storage check, no refresh and no public handler runs, the answer depends on the configuration alone, it is
  not cached, and it is 401 or, for \<open>/\<close> with a login URL, the redirect to the login.
\<close>

theorem unauthenticated_gets_nothing:
  assumes "Config_Validate (hs_config s) = None" and "\<not> cf_DevAuthBypass (hs_config s)"
    and "header_Values (rq_Header r) (cf_AuthAssertionHeader (hs_config s)) \<noteq> [cf_AuthAssertionValue (hs_config s)]"
    and "isReservedPath (rq_Path r)"
  shows "\<exists>resp. serveHTTP s r = (Some resp, []) \<and>
    (rs_Status resp = 401 \<or> (rs_Status resp = 302 \<and> rq_Path r = ''/'' \<and> cf_AuthLoginURL (hs_config s) \<noteq> [])) \<and>
    header_Values (rs_Header resp) ''Cache-Control'' = [''no-store''] \<and>
    (\<forall>s'. hs_config s' = hs_config s \<longrightarrow> serveHTTP s' r = serveHTTP s r)"
proof -
  have "cf_AuthAssertionValue (hs_config s) \<noteq> []"
    using Config_Validate_None [OF assms(1)] assms(2) by (simp add: boundary_safe_def)
  then have denied: "\<not> authorized s' r" if "hs_config s' = hs_config s" for s'
    using authorized_iff [of s' r] assms(2,3) that by simp
  have reply: "serveHTTP s' r = (Some (writeUnauthorized s r), [])" if "hs_config s' = hs_config s" for s'
    using unauthorized_reply [OF assms(4) denied [OF that]] writeUnauthorized_depends [of s' s r] that by simp
  have "header_Values (rs_Header (writeUnauthorized s r)) ''Cache-Control'' = [''no-store'']"
    by (simp add: writeUnauthorized_def Let_def Redirect_def writeJSON_def setPrivateHeaders_def header_Values_def header_Set_def)
  moreover have "rs_Status (writeUnauthorized s r) = 401 \<or>
      (rs_Status (writeUnauthorized s r) = 302 \<and> rq_Path r = ''/'' \<and> cf_AuthLoginURL (hs_config s) \<noteq> [])"
    by (simp add: writeUnauthorized_def Let_def writeJSON_def)
  ultimately show ?thesis
    using reply by (intro exI [of _ "writeUnauthorized s r"]) simp
qed

theorem unauthenticated_gets_nothing_witness:
  "\<exists>resp. serveHTTP (ex_server None) (ex_request ''/_page-hub/api/v1/inventory'' [''wrong'']) = (Some resp, []) \<and> rs_Status resp = 401"
proof -
  have "header_Values (rq_Header (ex_request p [''wrong''])) (cf_AuthAssertionHeader (hs_config (ex_server None)))
      \<noteq> [cf_AuthAssertionValue (hs_config (ex_server None))]" for p
    by (simp add: header_Values_def ex_canonical)
  moreover have "isReservedPath (rq_Path (ex_request ''/_page-hub/api/v1/inventory'' [''wrong'']))"
    by (simp add: isReservedPath_def managerPrefix_def HasPrefix_def)
  ultimately obtain resp where "serveHTTP (ex_server None) (ex_request ''/_page-hub/api/v1/inventory'' [''wrong'']) = (Some resp, [])"
    "rs_Status resp = 401 \<or> (rs_Status resp = 302 \<and> cf_AuthLoginURL (hs_config (ex_server None)) \<noteq> [])"
    using unauthenticated_gets_nothing [of "ex_server None" "ex_request ''/_page-hub/api/v1/inventory'' [''wrong'']"] ex_config_valid
    by auto
  then show ?thesis by simp
qed

section \<open>The public reader\<close>

text \<open>
  C20. The public handler is called for non-reserved paths only, and the request it receives has lost the
  configured assertion header, the two identity headers, \<open>Authorization\<close> and \<open>Cookie\<close>, whatever their
  spelling; method, path and every other header are those of the client.
\<close>

theorem public_reader_without_credentials:
  assumes "serveHTTP s r = (resp, actions)" and "ServePublic r' \<in> set actions"
  shows "\<not> isReservedPath (rq_Path r) \<and> rq_Path r' = rq_Path r \<and> rq_Method r' = rq_Method r \<and>
    list_all (\<lambda>key. header_Values (rq_Header r') key = [])
      [cf_AuthAssertionHeader (hs_config s), ''X-Page-Hub-Assertion'', ''X-Page-Hub-Identity'', ''Authorization'', ''Cookie''] \<and>
    (\<forall>key. rq_Header r' key = rq_Header r key \<or>
       key \<in> CanonicalHeaderKey ` {cf_AuthAssertionHeader (hs_config s), ''X-Page-Hub-Assertion'', ''X-Page-Hub-Identity'',
         ''Authorization'', ''Cookie''})"
proof -
  have free: "\<not> isReservedPath (rq_Path r)"
  proof
    assume "isReservedPath (rq_Path r)"
    then have "ServePublic r' \<in> set (snd (serveManager s r))" using assms by (simp add: serveHTTP_def)
    then show False using manager_actions [of s r] by auto
  qed
  then have r': "r' = r\<lparr>rq_Header := public_header s (rq_Header r)\<rparr>"
    using assms by (auto simp: serveHTTP_def servePublic_def Let_def split: option.splits)
  show ?thesis
    using free public_header_deletes [of _ s "rq_Header r"] public_header_keeps [of _ s "rq_Header r"]
    unfolding r' by (auto simp: image_iff)
qed

theorem public_reader_without_credentials_witness:
  "\<exists>resp r'. serveHTTP (ex_server None) (ex_request ''/notes'' [''secret'']) = (resp, [ServePublic r']) \<and>
     header_Values (rq_Header r') ''x-auth'' = [] \<and> rq_Path r' = ''/notes''"
proof -
  let ?r = "ex_request ''/notes'' [''secret'']"
  have "\<not> isReservedPath ''/notes''" by (simp add: isReservedPath_def managerRoot_def managerPrefix_def HasPrefix_def)
  then obtain resp r' where s: "serveHTTP (ex_server None) ?r = (resp, [ServePublic r'])"
    by (simp add: serveHTTP_def servePublic_def Let_def)
  have "ServePublic r' \<in> set [ServePublic r']" by simp
  note cleaned = public_reader_without_credentials [OF s this]
  have "header_Values (rq_Header r') (cf_AuthAssertionHeader (hs_config (ex_server None))) = []"
    using cleaned by simp
  moreover have "rq_Path r' = rq_Path ?r" using cleaned by (elim conjE)
  ultimately show ?thesis using s by (intro exI [of _ resp] exI [of _ r']) simp
qed

section \<open>Previews\<close>

lemma find_in: "find P xs = Some v \<Longrightarrow> v \<in> set xs \<and> P v"
  by (induction xs) (auto split: if_splits)

lemma findPublication_in:
  "findPublication i p = Some v \<Longrightarrow> v \<in> set (concat (map ij_Publications (inv_Projects i)))"
  "findPublication i p = Some v \<Longrightarrow> ip_Path v = p"
  unfolding findPublication_def by (drule find_in, simp)+

text \<open>
  C11. From the catalog to the browser: for an authorized GET or HEAD of a preview path of valid shape, with the
  catalog readable and a public base URL configured, the manager redirects exactly when the latest observation
  found the Publication with that path in sync, and then to its canonical public URL.
\<close>

theorem preview_redirects_in_sync_only:
  assumes "catalog_ok c" and "hs_inventory s = Some (Inventory tab e c)" and "LatestObservation e c = Inr latest"
    and "\<not> env_fault e 2" and "sums_fit c" and "cf_PublicBaseURL (hs_config s) \<noteq> []"
    and "authorized s r" and "rq_Path r = previewPrefix @ p" and "validPublicationPath p" and "rq_Method r \<in> set get_or_head"
  shows "\<exists>resp. serveHTTP s r = (Some resp, [ReadInventory]) \<and>
    (rs_Status resp = 302 \<longleftrightarrow>
      (\<exists>q \<in> set (publications c). pub_path q = p \<and>
        (\<exists>l ob. latest = Some l \<and> ors_Publications l (pub_id q) = Some ob \<and> po_State ob = StateInSync))) \<and>
    (rs_Status resp = 302 \<longrightarrow>
      (\<exists>q \<in> set (publications c). pub_path q = p \<and> resp = Redirect (setPrivateHeaders no_header) r
        (CanonicalURL (cf_PublicBaseURL (hs_config s)) p (pub_entry_point q) (pub_routing_mode q)) 302))"
proof -
  let ?h = "setPrivateHeaders no_header" and ?i = "inventory_view tab c latest" and ?view = "inventory_publication_of c latest"
  have inventory: "hs_inventory s = Some (Inr ?i)" using assms(2) Inventory_view [OF assms(1,3-5)] by simp
  have path: "preview_path r = p" using assms(8) by (simp add: preview_path_def TrimPrefix_def HasPrefix_def)
  have reply: "serveHTTP s r = (Some (preview_found s ?h r ?i), [ReadInventory])"
    using preview_route [OF assms(7,8)] inventory assms(9,10) path by (simp add: servePreview_def allowMethods_listed)
  have shown: "set (concat (map ij_Publications (inv_Projects ?i))) = ?view ` set (publications c)"
    using mset_eq_setD [OF view_publications [OF assms(1), of tab latest]] by simp
  have paths: "ip_Path (?view q) = pub_path q" "canonicalURL s (?view q) = CanonicalURL (cf_PublicBaseURL (hs_config s)) (pub_path q) (pub_entry_point q) (pub_routing_mode q)" for q
    using assms(6) by (simp_all add: inventory_publication_of_def canonicalURL_def)
  have url: "canonicalURL s q \<noteq> []" for q using assms(6) by (simp add: canonicalURL_def CanonicalURL_def)
  have sync: "in_sync (?view q) \<longleftrightarrow> (\<exists>l ob. latest = Some l \<and> ors_Publications l (pub_id q) = Some ob \<and> po_State ob = StateInSync)" for q
    by (simp add: in_sync_def inventory_publication_of_def split: option.splits)
  have unique: "q = q'" if "q \<in> set (publications c)" "q' \<in> set (publications c)" "pub_path q = pub_path q'" for q q'
    using assms(1) that by (auto simp: catalog_ok_def distinct_map inj_on_def)
  have found: "findPublication ?i p = Some v \<longleftrightarrow> (\<exists>q \<in> set (publications c). pub_path q = p \<and> v = ?view q)" for v
  proof
    assume "findPublication ?i p = Some v"
    then have "v \<in> set (concat (map ij_Publications (inv_Projects ?i)))" "ip_Path v = p"
      using findPublication_in by blast+
    then show "\<exists>q \<in> set (publications c). pub_path q = p \<and> v = ?view q" unfolding shown using paths(1) by auto
  next
    assume "\<exists>q \<in> set (publications c). pub_path q = p \<and> v = ?view q"
    then obtain q where q: "q \<in> set (publications c)" "pub_path q = p" "v = ?view q" by blast
    then have "findPublication ?i p \<noteq> None"
      unfolding findPublication_def find_None_iff shown using paths(1) by auto
    then obtain w where w: "findPublication ?i p = Some w" by blast
    then have "w \<in> set (concat (map ij_Publications (inv_Projects ?i)))" "ip_Path w = p"
      using findPublication_in by blast+
    then obtain q' where "q' \<in> set (publications c)" "w = ?view q'" "pub_path q' = p" unfolding shown using paths(1) by auto
    then have "w = v" using q unique [of q' q] by simp
    then show "findPublication ?i p = Some v" using w by simp
  qed
  have status: "rs_Status (preview_found s ?h r ?i) = 302 \<longleftrightarrow> (\<exists>q \<in> set (publications c). pub_path q = p \<and> in_sync (?view q))"
    unfolding preview_found_redirects path found using url by auto
  have "preview_found s ?h r ?i = Redirect ?h r (CanonicalURL (cf_PublicBaseURL (hs_config s)) p (pub_entry_point q) (pub_routing_mode q)) 302"
    if "q \<in> set (publications c)" "pub_path q = p" "in_sync (?view q)" for q
  proof -
    have "findPublication ?i (preview_path r) = Some (?view q)" unfolding path found using that(1,2) by blast
    from preview_found_location [OF this that(3) url] show ?thesis by (simp add: paths(2) that(2))
  qed
  then show ?thesis using reply status sync by auto
qed

definition ex_quiet :: observation_record where
  "ex_quiet = ex_record\<lparr>oor_MutationLock := LockNone,
     oor_Publications := [\<lparr>por_PublicationID = ex_id (CHR ''b''), por_State = StateInSync, por_ObservedSize = Some 3,
       por_StatusDetail = []\<rparr>]\<rparr>"

lemma ex_quiet_recorded:
  obtains c' l where "catalog_ok c'" "LatestObservation ex_env c' = Inr (Some l)" "sums_fit c'"
    "publications c' = [ex_publication_row]"
    "ors_Publications l (ex_id (CHR ''b'')) = Some \<lparr>po_State = StateInSync, po_ObservedSize = Some 3, po_StatusDetail = []\<rparr>"
proof -
  have "recordable ex_env ex_quiet ex_catalog"
    by (simp add: recordable_def Let_def ex_quiet_def ex_record_def known_lock_def known_state_def IsZero_def ex_year negative_def
        ex_different observation_ids_def)
       (simp add: ex_catalog_def ex_publication_row_def)
  then obtain c' where c: "RecordObservation ex_env ex_quiet ex_catalog = (Inr (), c')"
    using RecordObservation_succeeds [OF ex_no_faults ex_consistent] by blast
  have same: "publications c' = publications ex_catalog" "manifest_objects c' = manifest_objects ex_catalog"
    using RecordObservation_accepted [OF c ex_consistent] by simp_all
  have "sums_fit c'" using ex_inventory_query(2) by (simp add: sums_fit_def manifest_bytes_def same)
  moreover have "catalog_ok c'" using RecordObservation_Inr [OF c ex_consistent] by (auto simp: consistent_def)
  moreover have "publications c' = [ex_publication_row]" by (simp add: same) (simp add: ex_catalog_def)
  moreover have "LatestObservation ex_env c' = Inr (Some
    \<lparr>ors_ObservationID = draw ex_env 0, ors_ObservedAt = oor_ObservedAt ex_quiet div second * second,
     ors_MutationLock = oor_MutationLock ex_quiet,
     ors_Usage = \<lparr>bu_QuotaBytes = 0, bu_TotalBytes = oor_TotalBytes ex_quiet,
       bu_AcceptedBytes = oor_AcceptedBytes ex_quiet, bu_UnclaimedBytes = oor_UnclaimedBytes ex_quiet\<rparr>,
     ors_UnclaimedKeys = oor_UnclaimedKeys ex_quiet,
     ors_Publications = (\<lambda>pid. map_option recorded_publication (index_by por_PublicationID (oor_Publications ex_quiet) pid))\<rparr>)"
    by (rule LatestObservation_recorded [OF c ex_consistent])
       (simp_all add: ex_quiet_def ex_record_def ex_year valid_utf8_ascii byte_def ex_catalog_def ex_env_def)
  moreover have "map_option recorded_publication (index_by por_PublicationID (oor_Publications ex_quiet) (ex_id (CHR ''b'')))
      = Some \<lparr>po_State = StateInSync, po_ObservedSize = Some 3, po_StatusDetail = []\<rparr>"
    by (simp add: ex_quiet_def index_by_def recorded_publication_def)
  ultimately show thesis by - (rule that [of c'], assumption+, simp)
qed

lemma ex_valid_path: "validPublicationPath ''p''"
  by (simp add: validPublicationPath_iff plain_segment_def)

theorem preview_redirects_in_sync_only_witness:
  "\<exists>c' resp. serveHTTP (ex_server (Some (Inventory id ex_env c'))) (ex_request (previewPrefix @ ''p'') [''secret'']) =
     (Some resp, [ReadInventory]) \<and> rs_Status resp = 302 \<and> pub_path ` set (publications c') = {''p''}"
proof -
  obtain c' l where c: "catalog_ok c'" "LatestObservation ex_env c' = Inr (Some l)" "sums_fit c'" "publications c' = [ex_publication_row]"
    "ors_Publications l (ex_id (CHR ''b'')) = Some \<lparr>po_State = StateInSync, po_ObservedSize = Some 3, po_StatusDetail = []\<rparr>"
    by (rule ex_quiet_recorded)
  let ?s = "ex_server (Some (Inventory id ex_env c'))" and ?r = "ex_request (previewPrefix @ ''p'') [''secret'']"
  have "hs_inventory ?s = Some (Inventory id ex_env c')" "\<not> env_fault ex_env 2" "cf_PublicBaseURL (hs_config ?s) \<noteq> []"
    "authorized ?s ?r" "rq_Path ?r = previewPrefix @ ''p''" "rq_Method ?r \<in> set get_or_head"
    by (simp_all add: ex_env_def ex_base_def ex_authorized get_or_head_def)
  note answer = preview_redirects_in_sync_only [OF c(1) this(1) c(2) this(2) c(3) this(3-5) ex_valid_path this(6)]
  have "pub_id ex_publication_row = ex_id (CHR ''b'')" "pub_path ex_publication_row = ''p''" by (simp_all add: ex_publication_row_def)
  then have "\<exists>q \<in> set (publications c'). pub_path q = ''p'' \<and>
      (\<exists>l' ob. Some l = Some l' \<and> ors_Publications l' (pub_id q) = Some ob \<and> po_State ob = StateInSync)"
    using c(4,5) by simp
  with answer obtain resp where "serveHTTP ?s ?r = (Some resp, [ReadInventory])" "rs_Status resp = 302" by blast
  moreover have "pub_path ` set (publications c') = {''p''}" using c(4) by (simp add: ex_publication_row_def)
  ultimately show ?thesis by (intro exI [of _ c'] exI [of _ resp] conjI)
qed

text \<open>
  C36. The warning page of a path that no Publication has contains the requested path byte for byte: a path whose
  segments form a script element is answered with a page that has this element in its body.
\<close>

theorem preview_page_unescaped:
  assumes "authorized s r" and "rq_Path r = previewPrefix @ p" and "rq_Method r = ''GET''" and "validPublicationPath p"
    and "hs_inventory s = Some (Inr i)" and "findPublication i p = None"
  shows "\<exists>resp before after. serveHTTP s r = (Some resp, [ReadInventory]) \<and> rs_Status resp = 404 \<and>
    header_Values (rs_Header resp) ''Content-Type'' = [''text/html; charset=utf-8''] \<and>
    rs_Body resp = before @ ''<code>/'' @ p @ ''</code>'' @ after"
proof -
  have path: "preview_path r = p" using assms(2) by (simp add: preview_path_def TrimPrefix_def HasPrefix_def)
  let ?w = "bare_warning 404 [] p ''No managed Publication exists at this path.''"
  have "p \<noteq> []" using assms(4) by (simp add: validPublicationPath_def)
  then obtain before after where "warning_page ?w = before @ ''<code>/'' @ p @ ''</code>'' @ after"
    using warning_page_path [of ?w] by (auto simp: bare_warning_def)
  moreover have "serveHTTP s r = (Some (writePreviewWarning (setPrivateHeaders no_header) r ?w), [ReadInventory])"
    using preview_route [OF assms(1,2)] assms(3-6)
    by (simp add: servePreview_def allowMethods_listed get_or_head_def path preview_found_def)
  ultimately show ?thesis using assms(3)
    by (intro exI [of _ "writePreviewWarning (setPrivateHeaders no_header) r ?w"] exI [of _ before] exI [of _ after])
       (simp add: writePreviewWarning_def bare_warning_def header_Values_def header_Set_def)
qed

definition empty_inventory :: inventory where
  "empty_inventory = \<lparr>inv_Projects = [], inv_Observation = None\<rparr>"

theorem preview_page_unescaped_witness:
  "\<exists>resp before after.
     serveHTTP (ex_server (Some (Inr empty_inventory))) (ex_request (previewPrefix @ ''<script>alert(1)</script>'') [''secret'']) =
       (Some resp, [ReadInventory]) \<and> rs_Body resp = before @ ''<code>/<script>alert(1)</script></code>'' @ after"
proof -
  let ?s = "ex_server (Some (Inr empty_inventory))" and ?p = "''<script>alert(1)</script>''"
  have "validPublicationPath ?p" by (simp add: validPublicationPath_iff plain_segment_def)
  moreover have "findPublication empty_inventory ?p = None" by (simp add: findPublication_def empty_inventory_def)
  moreover have "authorized ?s (ex_request (previewPrefix @ ?p) [''secret''])" by (rule ex_authorized)
  ultimately obtain resp before after where
    "serveHTTP ?s (ex_request (previewPrefix @ ?p) [''secret'']) = (Some resp, [ReadInventory])"
    "rs_Body resp = before @ ''<code>/'' @ ?p @ ''</code>'' @ after"
    using preview_page_unescaped [of ?s "ex_request (previewPrefix @ ?p) [''secret'']" ?p empty_inventory]
      ex_server_simps(2) ex_server_simps(5) ex_server_simps(6) by blast
  then show ?thesis by (intro exI [of _ resp] exI [of _ before] exI [of _ after]) simp
qed

section \<open>Assets and readiness\<close>

text \<open>
  Asset requests read nothing outside the \<open>assets\<close> directory: two servers whose embedded files agree on
  every name \<open>assets/a/b/...\<close> made of plain segments (not empty, not \<open>.\<close>, not \<open>..\<close>) give the same answer to
  every request below \<open>/_page-hub/assets/\<close>, whatever the path holds.
\<close>

theorem assets_stay_inside:
  assumes "HasPrefix (rq_Path r) (managerPrefix @ ''assets/'')"
    and "\<And>segs. list_all plain_segment segs \<Longrightarrow> files (Join (''assets'' # segs) ''/'') = hs_assets s (Join (''assets'' # segs) ''/'')"
  shows "serveHTTP (s\<lparr>hs_assets := files\<rparr>) r = serveHTTP s r"
proof -
  let ?s = "s\<lparr>hs_assets := files\<rparr>"
  have same: "authorized ?s r = authorized s r" "writeUnauthorized ?s r = writeUnauthorized s r"
    by (simp_all add: authorized_def writeUnauthorized_def)
  have asset: "serveAsset ?s h r = serveAsset s h r" for h
  proof (cases "asset_name (rq_Path r)")
    case (Some name)
    then obtain segs where "name = Join (''assets'' # segs) ''/''" "list_all plain_segment segs" by (rule asset_name_inside)
    then have "files name = hs_assets s name" using assms(2) by blast
    then show ?thesis using Some by (cases "hs_assets s name") (simp_all add: serveAsset_def serveEmbedded_def)
  qed (simp add: serveAsset_def)
  have "rq_Path r \<noteq> ''/''" "rq_Path r \<noteq> managerRoot" "isReservedPath (rq_Path r)"
    using assms(1) by (auto simp: HasPrefix_iff managerPrefix_def managerRoot_def isReservedPath_def)
  then show ?thesis using assms(1) by (simp add: serveHTTP_def serveManager_def same asset Let_def)
qed

theorem assets_stay_inside_witness:
  "serveHTTP (ex_server None\<lparr>hs_assets := (\<lambda>name. if name = ''secret'' then Some ''x'' else None)\<rparr>)
     (ex_request ''/_page-hub/assets/../secret'' [''secret'']) =
   serveHTTP (ex_server None) (ex_request ''/_page-hub/assets/../secret'' [''secret''])"
proof (rule assets_stay_inside)
  show "HasPrefix (rq_Path (ex_request ''/_page-hub/assets/../secret'' [''secret''])) (managerPrefix @ ''assets/'')"
    by (simp add: managerPrefix_def HasPrefix_def)
  show "(if Join (''assets'' # segs) ''/'' = ''secret'' then Some ''x'' else None) = hs_assets (ex_server None) (Join (''assets'' # segs) ''/'')" for segs
    by (cases segs) (simp_all add: ex_server_def)
qed

text \<open>
  \<open>readyz\<close> over the catalog: an authorized GET or HEAD answers 200 exactly when storage is reachable and the
  inventory queries succeed on the catalog (the latest observation decodes, the inventory query answers and no
  sum of sizes overflows), and 503 otherwise; it never answers anything else.
\<close>

theorem ready_exactly:
  assumes "catalog_ok c" and "hs_inventory s = Some (Inventory tab e c)"
    and "authorized s r" and "rq_Path r = managerPrefix @ ''readyz''" and "rq_Method r \<in> set get_or_head"
  shows "\<exists>resp. serveHTTP s r = (Some resp, [CheckStorage, ReadInventory]) \<and>
    rs_Status resp = (if hs_check s = StatusReachable \<and> (\<exists>latest. LatestObservation e c = Inr latest) \<and>
      \<not> env_fault e 2 \<and> sums_fit c then 200 else 503)"
proof -
  have "catalog_available s \<longleftrightarrow> (\<exists>view. Inventory tab e c = Inr view)"
    by (simp add: catalog_available_def assms(2) split: sum.splits)
  also have "\<dots> \<longleftrightarrow> (\<exists>latest. LatestObservation e c = Inr latest) \<and> \<not> env_fault e 2 \<and> sums_fit c"
    by (metis Inventory_view [OF assms(1)] Inventory_Inr [OF _ assms(1)])
  finally have "catalog_available s \<longleftrightarrow> (\<exists>latest. LatestObservation e c = Inr latest) \<and> \<not> env_fault e 2 \<and> sums_fit c" .
  moreover have "serveHTTP s r = serveReady s (setPrivateHeaders no_header) r"
    using assms(3,4) by (simp add: serveHTTP_def serveManager_def isReservedPath_def managerPrefix_def managerRoot_def
        previewPrefix_def HasPrefix_def)
  ultimately show ?thesis
    using assms(2) by (simp add: serveReady_def allowMethods_listed [OF assms(5)] Let_def writeJSON_def http_ok_def)
qed

theorem ready_exactly_witness:
  "\<exists>resp. serveHTTP (ex_server (Some (Inventory id ex_env ex_catalog))) (ex_request ''/_page-hub/readyz'' [''secret'']) =
     (Some resp, [CheckStorage, ReadInventory]) \<and> rs_Status resp = 200"
proof -
  let ?s = "ex_server (Some (Inventory id ex_env ex_catalog))" and ?r = "ex_request ''/_page-hub/readyz'' [''secret'']"
  have c: "catalog_ok ex_catalog" using ex_consistent by (simp add: consistent_def)
  have r: "rq_Path ?r = managerPrefix @ ''readyz''" "rq_Method ?r \<in> set get_or_head"
    by (simp_all add: managerPrefix_def get_or_head_def)
  have "hs_check ?s = StatusReachable" "\<not> env_fault ex_env 2" by (simp_all add: ex_env_def)
  then show ?thesis
    using ready_exactly [where tab = id and e = ex_env, OF c ex_server_simps(2) ex_authorized r] ex_inventory_query by simp
qed

section \<open>Two divergences\<close>

text \<open>\<open>/_page-hub\<close> is permanently redirected to \<open>/_page-hub/\<close>, which no route serves.\<close>

lemma manager_root_not_found:
  assumes "authorized s r" and "rq_Path r = managerRoot" and "authorized s r'" and "rq_Path r' = managerPrefix"
  shows "\<exists>resp. serveHTTP s r = (Some resp, []) \<and> rs_Status resp = 308 \<and>
    header_Values (rs_Header resp) ''Location'' = [rq_Path r'] \<and>
    (\<exists>resp'. serveHTTP s r' = (Some resp', []) \<and> rs_Status resp' = 404)"
  using root_redirect [OF assms(1,2)] root_redirect(3) [OF assms(1,2,3,4)] assms(4) by (simp add: writeNotFound_def)

text \<open>A server built without an inventory reader answers every request but a preview, which panics.\<close>

lemma preview_panics_without_inventory:
  assumes "hs_inventory s = None" and "authorized s r" and "rq_Path r = previewPrefix @ p" and "validPublicationPath p"
    and "rq_Method r \<in> set get_or_head"
  shows "fst (serveHTTP s r) = None"
proof -
  have "preview_path r = p" using assms(3) by (simp add: preview_path_def TrimPrefix_def HasPrefix_def)
  then show ?thesis
    using preview_route [OF assms(2,3)] assms by (simp add: servePreview_def allowMethods_listed)
qed

end
