(* ===== verification/Http_Time.thy ===== *)
theory Http_Time
  imports Go_Time
begin

text \<open>
  Times in HTTP headers: \<open>time.Format\<close> with \<open>http.TimeFormat\<close> and \<open>http.ParseTime\<close>. Reading back what was
  formatted gives the instant truncated to the second (\<open>ParseTime_FormatHTTP\<close>).
\<close>

definition short_days :: "string list" where
  "short_days = [''Mon'', ''Tue'', ''Wed'', ''Thu'', ''Fri'', ''Sat'', ''Sun'']"

definition short_months :: "string list" where
  "short_months = [''Jan'', ''Feb'', ''Mar'', ''Apr'', ''May'', ''Jun'', ''Jul'', ''Aug'', ''Sep'', ''Oct'', ''Nov'', ''Dec'']"

fun position :: "string list \<Rightarrow> string \<Rightarrow> int option" where
  "position [] s = None"
| "position (x # xs) s = (if x = s then Some 1 else map_option (\<lambda>i. i + 1) (position xs s))"

text \<open>\<open>Format(http.TimeFormat)\<close>: day 0 of the calendar is a Monday.\<close>
definition FormatHTTP :: "time \<Rightarrow> string" where
  "FormatHTTP t =
     (let s = t div second; n = s div 86400; r = s mod 86400; (y, m, d) = civil_of_day n
      in short_days ! nat (n mod 7) @ '', '' @ two_digits d @ '' '' @ short_months ! nat (m - 1) @ '' '' @
         year_digits y @ '' '' @ two_digits (r div 3600) @ '':'' @ two_digits (r div 60 mod 60) @ '':'' @
         two_digits (r mod 60) @ '' GMT'')"

text \<open>
  \<open>http.ParseTime\<close>: the preferred format, exactly as \<open>FormatHTTP\<close> writes it; what its two obsolete formats
  and the deviations \<open>time.Parse\<close> tolerates would give is the parameter \<open>obsolete\<close>.
\<close>
definition parse_imf :: "string \<Rightarrow> time option" where
  "parse_imf s =
     (if length s = 29 \<and> field s 0 3 \<in> set short_days \<and> field s 3 5 = '', '' \<and> char_at s 7 (CHR '' '') \<and>
         char_at s 11 (CHR '' '') \<and> char_at s 16 (CHR '' '') \<and> char_at s 19 (CHR '':'') \<and> char_at s 22 (CHR '':'') \<and>
         field s 25 29 = '' GMT''
      then (case (position short_months (field s 8 11), parse_uint (field s 12 16) 0 9999) of
          (Some m, Some y) \<Rightarrow>
            (case (parse_uint (field s 5 7) 1 (month_days y ! nat (m - 1)), parse_uint (field s 17 19) 0 23,
                   parse_uint (field s 20 22) 0 59, parse_uint (field s 23 25) 0 59) of
               (Some d, Some h, Some mi, Some ss) \<Rightarrow>
                 Some ((day_of_civil y m d * 86400 + (h * 3600 + mi * 60 + ss)) * second)
             | _ \<Rightarrow> None)
        | _ \<Rightarrow> None)
      else None)"

definition ParseTime :: "(string \<Rightarrow> time option) \<Rightarrow> string \<Rightarrow> time option" where
  "ParseTime obsolete s = (case parse_imf s of Some t \<Rightarrow> Some t | None \<Rightarrow> obsolete s)"

lemma short_names:
  "d \<in> set short_days \<Longrightarrow> \<exists>a b c. d = [a, b, c]" "m \<in> set short_months \<Longrightarrow> \<exists>a b c. m = [a, b, c]"
  by (auto simp: short_days_def short_months_def)

lemma position_nth: "distinct xs \<Longrightarrow> i < length xs \<Longrightarrow> position xs (xs ! i) = Some (int i + 1)"
proof (induction xs arbitrary: i)
  case (Cons x xs)
  show ?case
  proof (cases i)
    case (Suc j)
    then have "xs ! j \<noteq> x" using Cons.prems by (metis Suc_less_eq distinct.simps(2) length_Cons nth_mem)
    then show ?thesis using Cons Suc by simp
  qed simp
qed simp

lemma month_position:
  assumes "1 \<le> m" and "m \<le> (12 :: int)"
  shows "position short_months (short_months ! nat (m - 1)) = Some m" "short_months ! nat (m - 1) \<in> set short_months"
proof -
  have "distinct short_months" by (simp add: short_months_def)
  moreover have n: "nat (m - 1) < length short_months" using assms by (simp add: short_months_def)
  ultimately show "position short_months (short_months ! nat (m - 1)) = Some m"
    using position_nth [of short_months "nat (m - 1)"] assms by simp
  show "short_months ! nat (m - 1) \<in> set short_months" using n by (rule nth_mem)
qed

lemma parse_imf_parts:
  assumes "day \<in> set short_days" and "mon \<in> set short_months" and "position short_months mon = Some m"
    and "length ys = 4" and "parse_uint ys 0 9999 = Some y" and "length dd = 2" and "length hh = 2" and "length mm = 2"
    and "length ss = 2" and "parse_uint dd 1 (month_days y ! nat (m - 1)) = Some d" and "parse_uint hh 0 23 = Some h"
    and "parse_uint mm 0 59 = Some mi" and "parse_uint ss 0 59 = Some sec"
  shows "parse_imf (day @ '', '' @ dd @ '' '' @ mon @ '' '' @ ys @ '' '' @ hh @ '':'' @ mm @ '':'' @ ss @ '' GMT'')
    = Some ((day_of_civil y m d * 86400 + (h * 3600 + mi * 60 + sec)) * second)"
proof -
  have two: "\<exists>a b. xs = [a, b]" if "length xs = 2" for xs :: string
    using that by (auto simp: numeral_2_eq_2 length_Suc_conv)
  obtain d1 d2 d3 where day: "day = [d1, d2, d3]" using short_names(1) [OF assms(1)] by blast
  obtain m1 m2 m3 where mon: "mon = [m1, m2, m3]" using short_names(2) [OF assms(2)] by blast
  obtain y1 y2 y3 y4 where ys: "ys = [y1, y2, y3, y4]"
    using assms(4) by (auto simp: numeral_eq_Suc length_Suc_conv)
  obtain a1 a2 b1 b2 c1 c2 e1 e2 where dd: "dd = [a1, a2]" and hh: "hh = [b1, b2]" and mm: "mm = [c1, c2]" and ss: "ss = [e1, e2]"
    using two [OF assms(6)] two [OF assms(7)] two [OF assms(8)] two [OF assms(9)] by blast
  define s where "s = day @ '', '' @ dd @ '' '' @ mon @ '' '' @ ys @ '' '' @ hh @ '':'' @ mm @ '':'' @ ss @ '' GMT''"
  note parts = s_def day mon ys dd hh mm ss field_def char_at_def
  have shape: "length s = 29" "field s 3 5 = '', ''" "char_at s 7 (CHR '' '')" "char_at s 11 (CHR '' '')"
    "char_at s 16 (CHR '' '')" "char_at s 19 (CHR '':'')" "char_at s 22 (CHR '':'')" "field s 25 29 = '' GMT''"
    by (simp_all add: parts)
  have fields: "field s 0 3 = day" "field s 8 11 = mon" "field s 12 16 = ys" "field s 5 7 = dd" "field s 17 19 = hh"
    "field s 20 22 = mm" "field s 23 25 = ss"
    by (simp_all add: parts)
  have "parse_imf s = Some ((day_of_civil y m d * 86400 + (h * 3600 + mi * 60 + sec)) * second)"
    unfolding parse_imf_def fields by (simp only: shape assms simp_thms if_True option.case prod.case)
  then show ?thesis unfolding s_def .
qed

lemma hms_range:
  fixes r :: int
  assumes "0 \<le> r" and "r < 86400"
  shows "0 \<le> r div 3600" "r div 3600 \<le> 23" "0 \<le> r div 60 mod 60" "r div 60 mod 60 \<le> 59" "0 \<le> r mod 60" "r mod 60 \<le> 59"
proof -
  have "r div 3600 < 24" using assms by (simp add: div_less_iff_less_mult)
  then show "r div 3600 \<le> 23" by simp
  show "0 \<le> r div 3600" using assms by (simp add: pos_imp_zdiv_nonneg_iff)
  have "r div 60 mod 60 < 60" "r mod 60 < 60" by simp_all
  then show "r div 60 mod 60 \<le> 59" "r mod 60 \<le> 59" by linarith+
qed simp_all

lemma ParseTime_FormatHTTP:
  assumes "year_ok t"
  shows "ParseTime obsolete (FormatHTTP t) = Some (t div second * second)"
proof -
  define s n r where "s = t div second" and "n = s div 86400" and "r = s mod 86400"
  obtain y m d where civil: "civil_of_day n = (y, m, d)" by (cases "civil_of_day n")
  note c = civil_of_day_spec [OF civil]
  have y: "0 \<le> y" "y \<le> 9999"
    using assms year_of_day_ge [of 0 n] year_of_day_less [of n 10000]
    by (auto simp: c(1) year_ok_def n_def s_def)
  note ys = year_digits_spec [OF y] and mon = month_position [OF c(2,3)]
  have "0 \<le> r" "r < 86400" by (simp_all add: r_def)
  note range = hms_range [OF this]
  have "nat (n mod 7) < length short_days" by (simp add: short_days_def nat_less_iff)
  then have day: "short_days ! nat (n mod 7) \<in> set short_days" by (rule nth_mem)
  have uint: "parse_uint (two_digits d) 1 (month_days y ! nat (m - 1)) = Some d"
    "parse_uint (two_digits (r div 3600)) 0 23 = Some (r div 3600)"
    "parse_uint (two_digits (r div 60 mod 60)) 0 59 = Some (r div 60 mod 60)"
    "parse_uint (two_digits (r mod 60)) 0 59 = Some (r mod 60)"
    by (rule parse_two_digits, use c(4-6) range in linarith, use c(4-6) range in linarith,
        use c(4-6) range in linarith, use c(4-6) range in linarith)+
  have "FormatHTTP t = short_days ! nat (n mod 7) @ '', '' @ two_digits d @ '' '' @ short_months ! nat (m - 1) @ '' '' @
      year_digits y @ '' '' @ two_digits (r div 3600) @ '':'' @ two_digits (r div 60 mod 60) @ '':'' @ two_digits (r mod 60) @ '' GMT''"
    by (simp add: FormatHTTP_def Let_def s_def [symmetric] n_def [symmetric] r_def [symmetric] civil)
  then have "parse_imf (FormatHTTP t) = Some ((day_of_civil y m d * 86400 + (r div 3600 * 3600 + r div 60 mod 60 * 60 + r mod 60)) * second)"
    using parse_imf_parts [OF day mon(2,1) ys length_two_digits length_two_digits length_two_digits length_two_digits uint]
    by simp
  also have "\<dots> = Some (s * second)" unfolding hms c(7) by (simp add: n_def r_def)
  finally show ?thesis by (simp add: ParseTime_def s_def)
qed

interpretation header_times: codec FormatHTTP "ParseTime obsolete" year_ok "\<lambda>t. t div second * second" for obsolete
  by unfold_locales (rule ParseTime_FormatHTTP)

end
