(* ===== verification/S3_Reader.thy ===== *)
theory S3_Reader
  imports S3_Sign Http_Time
begin

text \<open>
  \<open>internal/storage/reader.go\<close>: the paginated listing, reading one object and reading its metadata. The
  HTTP transport is the parameter \<open>client\<close> (the answer to the n-th request of a call), the clock is \<open>now\<close>,
  and \<open>decode\<close> is \<open>xml.Unmarshal\<close> into \<open>listBucketResult\<close>. The pagination loop runs for as long as the
  provider names another token, so it is a partial function whose value \<open>None\<close> is not returning; the locale
  \<open>pager\<close> states what a provider promises under which it returns the complete listing, and
  \<open>repeating_token_diverges\<close> that it does not return when a provider names the same token forever.
\<close>

section \<open>Listing\<close>

record list_entry =
  le_Key :: string
  le_LastModified :: time
  le_ETag :: string
  le_Size :: int64

record list_result =
  lr_IsTruncated :: bool
  lr_NextContinuationToken :: string
  lr_Contents :: "list_entry list"

definition listing_of :: "list_entry \<Rightarrow> object_listing" where
  "listing_of entry = \<lparr>ol_Key = le_Key entry, ol_Size = le_Size entry, ol_ETag = le_ETag entry,
      ol_LastModified = le_LastModified entry\<rparr>"

text \<open>Entries without a key are skipped.\<close>
definition page_listings :: "list_entry list \<Rightarrow> object_listing list" where
  "page_listings es = map listing_of (filter (\<lambda>entry. le_Key entry \<noteq> []) es)"

definition listBodyLimit :: nat where
  "listBodyLimit = 33554432"

definition list_query :: "string \<Rightarrow> url_values" where
  "list_query token = (''list-type'', [''2'']) # (if token = [] then [] else [(''continuation-token'', [token])])"

definition misconfigured :: "string \<Rightarrow> error" where
  "misconfigured what = Wrapf (''%w: '' @ what) [] ErrStorageMisconfigured"

definition unavailable :: "string \<Rightarrow> error" where
  "unavailable what = Wrapf (''%w: '' @ what) [] ErrStorageUnavailable"

text \<open>A request of a method to an address, with extra headers, signed and sent.\<close>
definition send :: "map_order \<Rightarrow> storage_config \<Rightarrow> s3_client \<Rightarrow> nat \<Rightarrow> time \<Rightarrow> string \<Rightarrow> string \<Rightarrow> (header \<Rightarrow> header) \<Rightarrow>
    string \<Rightarrow> string \<Rightarrow> s3_response res" where
  "send order config client n now meth address extra prepare failed =
     bind_res (wrap_res (''prepare '' @ prepare @ '': %w'') [] (NewRequest meth address)) (\<lambda>r.
     case signRequest order config now (r\<lparr>s3_Header := extra (s3_Header r)\<rparr>) of
       Inl e \<Rightarrow> Inl (misconfigured ''missing credentials'')
     | Inr r \<Rightarrow>
         (case client n r of Inl e \<Rightarrow> Inl (unavailable failed) | Inr response \<Rightarrow> Inr response))"

text \<open>What \<open>io.ReadAll\<close> of a limited reader returns: the bytes, and the error that ended the body early.\<close>
definition read_limited :: "nat \<Rightarrow> s3_response \<Rightarrow> string \<times> error option" where
  "read_limited limit response =
     (let body = take limit (s3r_Body response)
      in (body, if length body = limit then None else s3r_BodyError response))"

text \<open>One iteration of the loop, up to the parsed page.\<close>
definition list_page :: "map_order \<Rightarrow> storage_config \<Rightarrow> s3_client \<Rightarrow> (string \<Rightarrow> list_result option) \<Rightarrow> (nat \<Rightarrow> time) \<Rightarrow> go_url \<Rightarrow>
    nat \<Rightarrow> string \<Rightarrow> list_result res" where
  "list_page order config client decode now base n token =
     bind_res (send order config client n (now n) ''GET''
       (url_String (base\<lparr>url_RawQuery := Values_Encode (list_query token)\<rparr>)) id
       ''listing request'' ''listing request failed'') (\<lambda>response.
     case read_limited listBodyLimit response of (body, err) \<Rightarrow>
       if err \<noteq> None \<or> s3r_StatusCode response \<noteq> 200
       then Inl (classifyStatus ''list objects'' (s3r_StatusCode response))
       else (case decode body of
           None \<Rightarrow> Inl (Errorf ''parse listing response: %w'' []) | Some r \<Rightarrow> Inr r))"

partial_function (option) list_loop ::
    "(nat \<Rightarrow> string \<Rightarrow> list_result res) \<Rightarrow> nat \<Rightarrow> string \<Rightarrow> object_listing list \<Rightarrow> object_listing list res option" where
  [code]: "list_loop page n token listings =
     (case page n token of
        Inl e \<Rightarrow> Some (Inl e)
      | Inr r \<Rightarrow>
          (let listings = listings @ page_listings (lr_Contents r) in
           if \<not> lr_IsTruncated r \<or> lr_NextContinuationToken r = [] then Some (Inr listings)
           else list_loop page (Suc n) (lr_NextContinuationToken r) listings))"

definition S3Reader_ListObjects :: "map_order \<Rightarrow> storage_config \<Rightarrow> s3_client \<Rightarrow> (string \<Rightarrow> list_result option) \<Rightarrow>
    (nat \<Rightarrow> time) \<Rightarrow> object_listing list res option" where
  "S3Reader_ListObjects order config client decode now =
     (case bucketURL (sc_Endpoint config) (sc_Bucket config) of
        Inl e \<Rightarrow> Some (Inl (misconfigured ''invalid storage configuration''))
      | Inr base \<Rightarrow> list_loop (list_page order config client decode now base) 0 [] [])"

section \<open>Objects\<close>

type_synonym header_list = "(string \<times> string list) list"

text \<open>\<open>header.Get\<close> on a response, whose keys are canonical.\<close>
definition get_header :: "header_list \<Rightarrow> string \<Rightarrow> string" where
  "get_header h key = (case map_of h (CanonicalHeaderKey key) of Some (v # _) \<Rightarrow> v | _ \<Rightarrow> [])"

definition meta_prefix :: string where
  "meta_prefix = ''x-amz-meta-''"

text \<open>One iteration of the loop over the header; its keys are ASCII, so lower case is bytewise.\<close>
definition add_metadata :: "(string \<times> string) list \<Rightarrow> string \<times> string list \<Rightarrow> (string \<times> string) list" where
  "add_metadata es h = (case h of (name, values) \<Rightarrow>
     (case values of [] \<Rightarrow> es
      | v # _ \<Rightarrow>
          if HasPrefix (map lower_char name) meta_prefix
          then AList.update (TrimPrefix (map lower_char name) meta_prefix) v es else es))"

definition metadataFromHeaders :: "(string \<Rightarrow> time option) \<Rightarrow> string \<Rightarrow> header_list \<Rightarrow> object_meta" where
  "metadataFromHeaders obsolete key h =
     \<lparr>om_Key = key, om_Size = 0, om_ETag = get_header h ''ETag'',
      om_LastModified = (let raw = get_header h ''Last-Modified'' in
        if raw = [] then 0 else (case ParseTime obsolete raw of None \<Rightarrow> 0 | Some t \<Rightarrow> t)),
      om_ContentType = get_header h ''Content-Type'', om_ContentEncoding = get_header h ''Content-Encoding'',
      om_CacheControl = get_header h ''Cache-Control'',
      om_UserMetadata = Some (foldl add_metadata [] h)\<rparr>"

definition objectBodyLimit :: nat where
  "objectBodyLimit = 1073741824"

definition object_address :: "go_url \<Rightarrow> string \<Rightarrow> string" where
  "object_address base key = url_String (base\<lparr>url_Path := url_Path base @ ''/'' @ key\<rparr>)"

definition identity_encoding :: "header \<Rightarrow> header" where
  "identity_encoding h = header_Set ''Accept-Encoding'' ''identity'' h"

definition S3Reader_ReadObject :: "map_order \<Rightarrow> storage_config \<Rightarrow> s3_client \<Rightarrow> (string \<Rightarrow> time option) \<Rightarrow> time \<Rightarrow>
    string \<Rightarrow> object_content res" where
  "S3Reader_ReadObject order config client obsolete now key =
     (case bucketURL (sc_Endpoint config) (sc_Bucket config) of
        Inl e \<Rightarrow> Inl (misconfigured ''invalid storage configuration'')
      | Inr base \<Rightarrow>
          bind_res (send order config client 0 now ''GET'' (object_address base key) identity_encoding
            ''object request'' ''object request failed'') (\<lambda>response.
          if s3r_StatusCode response \<noteq> 200
          then Inl (classifyStatus (''read object '' @ key) (s3r_StatusCode response))
          else (case read_limited objectBodyLimit response of (body, err) \<Rightarrow>
            if err \<noteq> None then Inl (unavailable ''reading object body failed'')
            else let meta = metadataFromHeaders obsolete key (s3r_Header response) in
              Inr \<lparr>oc_Key = om_Key meta, oc_Size = word_of_nat (length body), oc_ETag = om_ETag meta,
                   oc_LastModified = om_LastModified meta, oc_ContentType = om_ContentType meta,
                   oc_ContentEncoding = om_ContentEncoding meta, oc_CacheControl = om_CacheControl meta,
                   oc_UserMetadata = om_UserMetadata meta, oc_SHA256 = sha256_hex body\<rparr>)))"

definition S3Reader_StatObject :: "map_order \<Rightarrow> storage_config \<Rightarrow> s3_client \<Rightarrow> (string \<Rightarrow> time option) \<Rightarrow> time \<Rightarrow>
    string \<Rightarrow> object_meta res" where
  "S3Reader_StatObject order config client obsolete now key =
     (case bucketURL (sc_Endpoint config) (sc_Bucket config) of
        Inl e \<Rightarrow> Inl (misconfigured ''invalid storage configuration'')
      | Inr base \<Rightarrow>
          bind_res (send order config client 0 now ''HEAD'' (object_address base key) identity_encoding
            ''object metadata request'' ''object metadata request failed'') (\<lambda>response.
          if s3r_StatusCode response \<noteq> 200
          then Inl (classifyStatus (''read metadata '' @ key) (s3r_StatusCode response))
          else Inr ((metadataFromHeaders obsolete key (s3r_Header response))\<lparr>om_Size := s3r_ContentLength response\<rparr>)))"

section \<open>Complete listings\<close>

text \<open>
  What a provider of a paginated listing promises: \<open>at\<close> gives for each of its tokens how many entries come
  before it, a page is the next \<open>size\<close> entries, and a truncated page names a token further on.
\<close>
locale pager =
  fixes page :: "nat \<Rightarrow> string \<Rightarrow> list_result res" and all :: "list_entry list"
    and valid :: "string \<Rightarrow> bool" and at :: "string \<Rightarrow> nat" and page_size :: nat
  assumes first_token: "valid [] \<and> at [] = 0"
    and positive: "0 < page_size"
    and answers: "valid t \<Longrightarrow> \<exists>r. page n t = Inr r \<and> lr_Contents r = take page_size (drop (at t) all) \<and>
      (lr_IsTruncated r \<longleftrightarrow> at t + page_size < length all) \<and>
      (lr_IsTruncated r \<longrightarrow> lr_NextContinuationToken r \<noteq> [] \<and> valid (lr_NextContinuationToken r) \<and>
        at (lr_NextContinuationToken r) = at t + page_size)"
begin

lemma page_listings_append: "page_listings (xs @ ys) = page_listings xs @ page_listings ys"
  by (simp add: page_listings_def)

lemma rest_is_listed:
  "valid t \<Longrightarrow> list_loop page n t acc = Some (Inr (acc @ page_listings (drop (at t) all)))"
proof (induction "length all - at t" arbitrary: t n acc rule: less_induct)
  case less
  obtain r where r: "page n t = Inr r" "lr_Contents r = take page_size (drop (at t) all)"
    "lr_IsTruncated r \<longleftrightarrow> at t + page_size < length all"
    "lr_IsTruncated r \<Longrightarrow> lr_NextContinuationToken r \<noteq> [] \<and> valid (lr_NextContinuationToken r) \<and>
        at (lr_NextContinuationToken r) = at t + page_size"
    using answers [OF less.prems] by blast
  have split: "drop (at t) all = take page_size (drop (at t) all) @ drop (at t + page_size) all"
    by (metis add.commute append_take_drop_id drop_drop)
  show ?case
  proof (cases "lr_IsTruncated r")
    case True
    let ?t = "lr_NextContinuationToken r"
    have next_token: "?t \<noteq> []" "valid ?t" "at ?t = at t + page_size" using r(4) True by blast+
    have "length all - at ?t < length all - at t" using True r(3) next_token(3) positive by simp
    then have "list_loop page (Suc n) ?t (acc @ page_listings (lr_Contents r))
        = Some (Inr ((acc @ page_listings (lr_Contents r)) @ page_listings (drop (at ?t) all)))"
      by (rule less.hyps) (rule next_token(2))
    then have "list_loop page n t acc
        = Some (Inr (acc @ page_listings (take page_size (drop (at t) all)) @ page_listings (drop (at t + page_size) all)))"
      using r(1,2) True next_token by (simp add: list_loop.simps [of page n])
    then show ?thesis by (subst split) (simp add: page_listings_append)
  next
    case False
    then have "drop (at t + page_size) all = []" using r(3) by simp
    then have "drop (at t) all = lr_Contents r" using split r(2) by simp
    then show ?thesis using r(1) False by (simp add: list_loop.simps [of page n])
  qed
qed

lemma lists_everything: "list_loop page n [] [] = Some (Inr (page_listings all))"
  using rest_is_listed [of "[]" n "[]"] first_token by simp

end

text \<open>A provider that names the same token forever: the loop is the least fixed point, so it has no value.\<close>

lemma repeating_token_diverges:
  assumes "\<And>n t. page n t = Inr r" and "lr_IsTruncated r" and "lr_NextContinuationToken r \<noteq> []"
  shows "list_loop page n t acc = None"
proof -
  have "(\<forall>n t. page n t = Inr r) \<longrightarrow> False" if "list_loop page n t acc = Some y" for y
    using that
  proof (rule list_loop.raw_induct [where P = "\<lambda>pg n t acc y. (\<forall>n t. pg n t = Inr r) \<longrightarrow> False", rotated])
    fix f pg n t acc y
    assume hyp: "\<And>pg n t acc y. f pg n t acc = Some y \<Longrightarrow> (\<forall>n t. pg n t = Inr r) \<longrightarrow> False"
      and body: "(case pg n t of Inl e \<Rightarrow> Some (Inl e)
        | Inr r \<Rightarrow> let listings = acc @ page_listings (lr_Contents r)
            in if \<not> lr_IsTruncated r \<or> lr_NextContinuationToken r = [] then Some (Inr listings)
               else f pg (Suc n) (lr_NextContinuationToken r) listings) = Some y"
    show "(\<forall>n t. pg n t = Inr r) \<longrightarrow> False"
    proof
      assume same: "\<forall>n t. pg n t = Inr r"
      then have "f pg (Suc n) (lr_NextContinuationToken r) (acc @ page_listings (lr_Contents r)) = Some y"
        using body assms(2,3) by (simp add: Let_def)
      then show False using hyp same by blast
    qed
  qed
  then show ?thesis using assms(1) by (cases "list_loop page n t acc") auto
qed

section \<open>The adapter as a storage reader\<close>

text \<open>
  What the code that depends on \<open>Reader\<close> sees of the adapter while storage stays as it is; \<open>None\<close> is a listing
  that does not return. A call starts its requests anew.
\<close>

definition NewS3Reader :: "map_order \<Rightarrow> storage_config \<Rightarrow> s3_client \<Rightarrow> (string \<Rightarrow> list_result option) \<Rightarrow>
    (string \<Rightarrow> time option) \<Rightarrow> (nat \<Rightarrow> time) \<Rightarrow> reader option" where
  "NewS3Reader order config client decode obsolete now =
     (let config = with_region config in
      map_option (\<lambda>listing. \<lparr>ListObjects = listing,
        ReadObject = S3Reader_ReadObject order config client obsolete (now 0),
        StatObject = S3Reader_StatObject order config client obsolete (now 0)\<rparr>)
      (S3Reader_ListObjects order config client decode now))"

end
