(* ===== verification/S3_Address.thy ===== *)
theory S3_Address
  imports S3_Sign
begin

text \<open>
  Addresses survive the trip through \<open>url.String\<close> and \<open>url.Parse\<close> that \<open>http.NewRequest\<close> sends them on: the
  request goes to exactly the host, path and query the code built, whatever bytes an object key contains.
  The host is a plain name or IPv4 address with an optional port.
\<close>

definition name_char :: "char \<Rightarrow> bool" where
  "name_char c \<longleftrightarrow> is_alnum c \<or> c = CHR ''-'' \<or> c = CHR ''.''"

definition plain_host :: "string \<Rightarrow> bool" where
  "plain_host h \<longleftrightarrow> (case Cut h (CHR '':'') of (name, port, found) \<Rightarrow>
     name \<noteq> [] \<and> list_all name_char name \<and> (found \<longrightarrow> port \<noteq> [] \<and> list_all is_digit port))"

definition query_char :: "char \<Rightarrow> bool" where
  "query_char c \<longleftrightarrow> unreserved c \<or> c \<in> set ''%+=&''"

definition plain_url :: "go_url \<Rightarrow> bool" where
  "plain_url u \<longleftrightarrow> (url_Scheme u = ''http'' \<or> url_Scheme u = ''https'') \<and> url_Opaque u = [] \<and> \<not> url_User u \<and>
     plain_host (url_Host u) \<and> HasPrefix (url_Path u) ''/'' \<and> list_all query_char (url_RawQuery u) \<and> url_Fragment u = []"

section \<open>Escaped paths\<close>

lemma pct_path: "unescape EncodePath (pct c @ s) = map_option ((#) c) (unescape EncodePath s)"
proof -
  have "byte c div 16 < 16" "byte c mod 16 < 16" using byte_bound [of c] by (simp_all add: less_mult_imp_div_less)
  then show ?thesis by (simp add: pct_def hex_val_upper_hex char_of_byte)
qed

lemma unescape_escape_path: "unescape EncodePath (escape_path s) = Some s"
proof (induction s)
  case (Cons c s)
  let ?keep = "unreserved c \<or> c \<in> set ''$&+,/:;=@''"
  have "escape_path (c # s) = (if ?keep then [c] else pct c) @ escape_path s"
    by (simp add: escape_path_def)
  moreover have "?keep \<Longrightarrow> c \<noteq> CHR ''%''" using unreserved_plain [of c] by auto
  ultimately show ?case using Cons by (cases ?keep) (auto simp: pct_path)
qed (simp add: escape_path_def)

text \<open>The bytes an escaped path is made of.\<close>
definition path_char :: "char \<Rightarrow> bool" where
  "path_char c \<longleftrightarrow> unreserved c \<or> c \<in> set ''%$&+,/:;=@''"

lemma upper_hex_unreserved: "d < 16 \<Longrightarrow> unreserved (upper_hex d)"
  by (auto simp: unreserved_def is_alnum_def is_letter_def is_digit_def byte_upper_hex)

lemma escape_path_chars: "list_all path_char (escape_path s)"
proof -
  have "list_all path_char (if unreserved c \<or> c \<in> set ''$&+,/:;=@'' then [c] else pct c)" for c
  proof -
    have "byte c div 16 < 16" "byte c mod 16 < 16" using byte_bound [of c] by (simp_all add: less_mult_imp_div_less)
    then show ?thesis by (auto simp: path_char_def pct_def upper_hex_unreserved)
  qed
  then show ?thesis unfolding escape_path_def by (rule list_all_concat_map)
qed

lemma escape_path_slash: "escape_path (CHR ''/'' # s) = CHR ''/'' # escape_path s"
  by (simp add: escape_path_def)

lemma char_class_facts:
  "name_char c \<Longrightarrow> c \<noteq> CHR ''/'' \<and> c \<noteq> CHR ''?'' \<and> c \<noteq> CHR ''#'' \<and> c \<noteq> CHR ''@'' \<and> c \<noteq> CHR ''%'' \<and> c \<noteq> CHR ''['' \<and>
     c \<noteq> CHR '':'' \<and> \<not> is_ctl c \<and> host_char c"
  "is_digit c \<Longrightarrow> name_char c"
  "path_char c \<Longrightarrow> c \<noteq> CHR ''?'' \<and> c \<noteq> CHR ''#'' \<and> \<not> is_ctl c"
  "query_char c \<Longrightarrow> c \<noteq> CHR ''?'' \<and> c \<noteq> CHR ''#'' \<and> \<not> is_ctl c"
  by (auto simp: name_char_def path_char_def query_char_def unreserved_def host_char_def is_alnum_def is_letter_def
      is_digit_def is_ctl_def byte_def)

section \<open>Hosts\<close>

definition host_text :: "string \<Rightarrow> bool" where
  "host_text h \<longleftrightarrow> list_all (\<lambda>c. c \<noteq> CHR ''/'' \<and> c \<noteq> CHR ''?'' \<and> c \<noteq> CHR ''#'' \<and> c \<noteq> CHR ''@'' \<and> c \<noteq> CHR ''%'' \<and>
     c \<noteq> CHR ''['' \<and> \<not> is_ctl c \<and> host_char c) h"

lemma plain_host_cases:
  assumes "plain_host h"
  obtains (name) "h \<noteq> []" "list_all name_char h"
  | (port) name ds where "h = name @ CHR '':'' # ds" "name \<noteq> []" "list_all name_char name" "ds \<noteq> []" "list_all is_digit ds"
proof (cases "CHR '':'' \<in> set h")
  case True
  then obtain n ds where h: "h = n @ CHR '':'' # ds" "CHR '':'' \<notin> set n" using split_list_first by metis
  then show ?thesis using port [of n ds] assms Cut_first [OF h(2), of ds] by (simp add: plain_host_def)
next
  case False
  then show ?thesis using name assms by (simp add: plain_host_def Cut_def Index_def)
qed

lemma plain_host_text: "plain_host h \<Longrightarrow> host_text h"
proof (erule plain_host_cases)
  assume "list_all name_char h"
  then show "host_text h" using char_class_facts(1) by (auto simp: host_text_def list_all_iff)
next
  fix name ds
  assume h: "h = name @ CHR '':'' # ds" "list_all name_char name" "list_all is_digit ds"
  have "host_text name" using h(2) char_class_facts(1) by (auto simp: host_text_def list_all_iff)
  moreover have "host_text ds" using h(3) char_class_facts(1,2) by (auto simp: host_text_def list_all_iff)
  moreover have "host_text '':''" by (simp add: host_text_def host_char_def is_ctl_def byte_def)
  ultimately show "host_text h" unfolding h(1) by (simp add: host_text_def)
qed

lemma host_text_unescape: "host_text h \<Longrightarrow> unescape EncodeHost h = Some h"
  by (induction h) (auto simp: host_text_def)

lemma host_text_escape: "host_text h \<Longrightarrow> escape_host h = h"
  by (induction h) (auto simp: host_text_def escape_host_def)

lemma takeWhile_until: "c \<notin> set xs \<Longrightarrow> takeWhile (\<lambda>x. x \<noteq> c) (xs @ c # ys) = xs"
  by (induction xs) auto

lemma LastIndex_last:
  assumes "c \<notin> set ds"
  shows "LastIndex (name @ c # ds) c = Some (length name)"
proof -
  have "takeWhile (\<lambda>x. x \<noteq> c) (rev ds @ c # rev name) = rev ds" using assms by (intro takeWhile_until) simp
  then show ?thesis by (simp add: LastIndex_def)
qed

lemma parseHost_plain:
  assumes "plain_host h"
  shows "parseHost h = Some h"
proof -
  have plain: "host_text h" using assms by (rule plain_host_text)
  then have u: "unescape EncodeHost h = Some h" by (rule host_text_unescape)
  from assms have nb: "\<not> prefix ''['' h" using plain by (cases h) (auto simp: host_text_def)
  show ?thesis
    using assms
  proof (cases rule: plain_host_cases)
    case name
    then have "CHR '':'' \<notin> set h" using char_class_facts(1) by (auto simp: list_all_iff)
    then show ?thesis using u nb by (simp add: parseHost_def LastIndex_def)
  next
    case (port name ds)
    have "CHR '':'' \<notin> set ds" using port(5) char_class_facts(1,2) by (auto simp: list_all_iff)
    then have "LastIndex h (CHR '':'') = Some (length name)" unfolding port(1) by (rule LastIndex_last)
    then show ?thesis using u nb port by (simp add: parseHost_def validOptionalPort_def)
  qed
qed

lemma parseAuthority_plain:
  assumes "plain_host h"
  shows "parseAuthority h = Some (False, h)"
proof -
  have "CHR ''@'' \<notin> set h" using plain_host_text [OF assms] by (auto simp: host_text_def list_all_iff)
  then show ?thesis using parseHost_plain [OF assms] by (simp add: parseAuthority_def LastIndex_def)
qed

section \<open>The round trip\<close>

lemma getScheme_http: "getScheme (''http://'' @ r) = Some (''http'', ''//'' @ r)"
  "getScheme (''https://'' @ r) = Some (''https'', ''//'' @ r)"
proof -
  have "scheme_length 0 (''http://'' @ r) = Some (Some 4)" "scheme_length 0 (''https://'' @ r) = Some (Some 5)"
    by (simp_all add: is_letter_def is_digit_def byte_def)
  moreover have "map lower_char ''http'' = ''http''" "map lower_char ''https'' = ''https''" by code_simp+
  ultimately show "getScheme (''http://'' @ r) = Some (''http'', ''//'' @ r)"
    "getScheme (''https://'' @ r) = Some (''https'', ''//'' @ r)"
    by (simp_all add: getScheme_def)
qed

lemma Cut_absent: "c \<notin> set s \<Longrightarrow> Cut s c = (s, [], False)"
  by (simp add: Cut_def Index_def)

lemma split_query_plain:
  assumes "CHR ''?'' \<notin> set r" and "CHR ''?'' \<notin> set q"
  shows "split_query (r @ (if q = [] then [] else ''?'' @ q)) = (r, q)"
proof (cases "q = []")
  case True
  have "\<not> suffix ''?'' r" using assms(1) by (auto simp: suffix_def)
  then show ?thesis using True Cut_absent [OF assms(1)] by (simp add: split_query_def)
next
  case False
  have "\<not> suffix ''?'' (r @ ''?'' @ q)"
  proof
    assume "suffix ''?'' (r @ ''?'' @ q)"
    then obtain zs where e: "r @ ''?'' @ q = zs @ ''?''" by (auto simp: suffix_def)
    have "last (r @ ''?'' @ q) = CHR ''?''" unfolding e by simp
    then show False using False assms(2) last_in_set [OF False] by simp
  qed
  then show ?thesis using False Cut_first [OF assms(1), of q] by (simp add: split_query_def)
qed

lemma takeWhile_host:
  assumes "host_text h"
  shows "takeWhile (\<lambda>c. c \<noteq> CHR ''/'') (h @ CHR ''/'' # p) = h"
  using assms by (induction h) (auto simp: host_text_def)

lemma url_roundtrip:
  assumes "plain_url u"
  shows "url_Parse (url_String u) = Some u"
proof -
  let ?h = "url_Host u" and ?q = "url_RawQuery u" and ?p = "escape_path (url_Path u)"
  obtain path where path: "url_Path u = CHR ''/'' # path"
    using assms by (auto simp: plain_url_def HasPrefix_iff)
  then have p: "?p = CHR ''/'' # escape_path path" by (simp add: escape_path_slash)
  have host: "plain_host ?h" using assms by (simp add: plain_url_def)
  note plain = plain_host_text [OF host]
  obtain c h where ch: "?h = c # h" using host by (cases ?h) (auto simp: plain_host_def Cut_def Index_def)
  have hs: "CHR ''?'' \<notin> set ?h" "CHR ''#'' \<notin> set ?h" "\<not> list_ex is_ctl ?h" "c \<noteq> CHR ''/''"
    using plain ch by (auto simp: host_text_def list_all_iff list_ex_iff)
  have ps: "CHR ''?'' \<notin> set ?p" "CHR ''#'' \<notin> set ?p" "\<not> list_ex is_ctl ?p"
    using escape_path_chars [of "url_Path u"] char_class_facts(3) by (auto simp: list_all_iff list_ex_iff)
  have qs: "CHR ''?'' \<notin> set ?q" "CHR ''#'' \<notin> set ?q" "\<not> list_ex is_ctl ?q"
    using assms char_class_facts(4) by (auto simp: plain_url_def list_all_iff list_ex_iff)
  let ?tail = "?h @ ?p @ (if ?q = [] then [] else ''?'' @ ?q)"
  have str: "url_String u = url_Scheme u @ ''://'' @ ?tail"
    using path p by (simp add: url_String_def EscapedPath_def host_text_escape [OF plain] HasPrefix_def)
  have split: "split_query (''//'' @ ?tail) = (''//'' @ ?h @ ?p, ?q)"
    using split_query_plain [of "''//'' @ ?h @ ?p" ?q] hs ps qs by simp
  have scheme: "getScheme (url_String u) = Some (url_Scheme u, ''//'' @ ?tail)" "url_Scheme u \<noteq> []"
    "CHR ''#'' \<notin> set (url_Scheme u)" "\<not> list_ex is_ctl (url_Scheme u)"
    using assms getScheme_http [of ?tail] unfolding str plain_url_def by (auto simp: is_ctl_def byte_def)
  have ctl: "\<not> list_ex is_ctl (url_String u)" and hash: "CHR ''#'' \<notin> set (url_String u)"
    unfolding str using hs ps qs scheme by (auto simp: is_ctl_def byte_def split: if_splits)
  have star: "url_String u \<noteq> ''*''" unfolding str by (cases "url_Scheme u") auto
  have "parse_reference (url_String u) = Some \<lparr>url_Scheme = url_Scheme u, url_Opaque = [], url_User = False,
      url_Host = ?h, url_Path = url_Path u, url_RawQuery = ?q, url_Fragment = []\<rparr>"
    using ctl star scheme takeWhile_host [OF plain, of "escape_path path"] parseAuthority_plain [OF host]
      unescape_escape_path [of "url_Path u"] split p
    by (simp add: parse_reference_def)
  moreover have "u = \<lparr>url_Scheme = url_Scheme u, url_Opaque = [], url_User = False, url_Host = ?h,
      url_Path = url_Path u, url_RawQuery = ?q, url_Fragment = []\<rparr>"
    using assms by (simp add: plain_url_def)
  ultimately show ?thesis using Cut_absent [OF hash] by (simp add: url_Parse_def)
qed

lemma plain_host_no_colon: "plain_host h \<Longrightarrow> TrimSuffix h '':'' = h"
proof (erule plain_host_cases)
  assume "list_all name_char h"
  then have "CHR '':'' \<notin> set h" using char_class_facts(1) by (auto simp: list_all_iff)
  then show "TrimSuffix h '':'' = h" by (auto simp: TrimSuffix_def HasSuffix_def suffix_def)
next
  fix name ds
  assume h: "h = name @ CHR '':'' # ds" "ds \<noteq> []" "list_all is_digit ds"
  have "CHR '':'' \<notin> set ds" using h(3) char_class_facts(1,2) by (auto simp: list_all_iff)
  then have "last ds \<noteq> CHR '':''" using last_in_set [OF h(2)] by metis
  then have "last h \<noteq> CHR '':''" using h(1,2) by simp
  then show "TrimSuffix h '':'' = h" by (auto simp: TrimSuffix_def HasSuffix_def suffix_def)
qed

lemma NewRequest_plain:
  assumes "plain_url u"
  shows "NewRequest m (url_String u) = Inr \<lparr>s3_Method = m, s3_URL = u, s3_Host = url_Host u, s3_Header = no_header\<rparr>"
  using assms plain_host_no_colon [of "url_Host u"]
  by (simp add: NewRequest_def url_roundtrip [OF assms] plain_url_def)

lemma Values_Encode_chars: "list_all query_char (Values_Encode q)"
proof -
  have esc: "list_all query_char (QueryEscape s)" for s
  proof -
    have "list_all query_char (if unreserved c then [c] else if c = CHR '' '' then ''+'' else pct c)" for c
    proof -
      have "byte c div 16 < 16" "byte c mod 16 < 16" using byte_bound [of c] by (simp_all add: less_mult_imp_div_less)
      then show ?thesis by (auto simp: query_char_def pct_def upper_hex_unreserved)
    qed
    then show ?thesis unfolding QueryEscape_def by (rule list_all_concat_map)
  qed
  have sep: "list_all query_char ''=''" "list_all query_char ''&''" by (simp_all add: query_char_def)
  have "list_all query_char (Join (map encode_pair ps) ''&'')" for ps
  proof (induction ps)
    case (Cons p ps)
    then show ?case using esc sep by (simp add: Join_Cons encode_pair_def)
  qed simp
  then show ?thesis by (simp add: Values_Encode_def)
qed

end
