(* ===== verification/S3_Test.thy ===== *)
theory S3_Test
  imports S3_Reader S3_Address
begin

text \<open>
  \<open>internal/storage/s3test/server.go\<close>: the in-process bucket the storage adapter is tested against. Its
  objects are a map from keys to objects (an association list whose first entry for a key counts), and it
  records every request. The listing it pages through is interpreted as a \<open>pager\<close>, so the reader of
  \<open>reader.go\<close> talking to this server returns the complete listing and every object as it is stored. The
  transport between them hands over the method, path, query and headers unchanged; the XML encoding of a
  page and its decoding are the parameters \<open>enc\<close> and \<open>dec\<close>.
\<close>

section \<open>Base64\<close>

definition base64_table :: string where
  "base64_table = ''ABCDEFGHIJKLMNOPQRSTUVWXYZabcdefghijklmnopqrstuvwxyz0123456789+/''"

definition base64_char :: "nat \<Rightarrow> char" where
  "base64_char d = base64_table ! d"

definition base64_val :: "char \<Rightarrow> nat option" where
  "base64_val c = (let n = length (takeWhile (\<lambda>x. x \<noteq> c) base64_table) in if n < 64 then Some n else None)"

fun base64_encode :: "nat list \<Rightarrow> string" where
  "base64_encode [] = []"
| "base64_encode [a] = [base64_char (a div 4), base64_char (a mod 4 * 16), CHR ''='', CHR ''='']"
| "base64_encode [a, b] = [base64_char (a div 4), base64_char (a mod 4 * 16 + b div 16), base64_char (b mod 16 * 4), CHR ''='']"
| "base64_encode (a # b # c # bs) =
     [base64_char (a div 4), base64_char (a mod 4 * 16 + b div 16), base64_char (b mod 16 * 4 + c div 64), base64_char (c mod 64)]
     @ base64_encode bs"

text \<open>\<open>StdEncoding\<close> is not strict: the unused bits of the last character do not matter.\<close>
fun base64_decode :: "string \<Rightarrow> nat list option" where
  "base64_decode [] = Some []"
| "base64_decode (w # x # y # z # rest) =
     (case (base64_val w, base64_val x) of
        (Some i, Some j) \<Rightarrow>
          if y = CHR ''='' then (if z = CHR ''='' \<and> rest = [] then Some [i * 4 + j div 16] else None)
          else (case base64_val y of
              None \<Rightarrow> None
            | Some k \<Rightarrow>
                if z = CHR ''='' then (if rest = [] then Some [i * 4 + j div 16, j mod 16 * 16 + k div 4] else None)
                else (case base64_val z of
                    None \<Rightarrow> None
                  | Some l \<Rightarrow> map_option (\<lambda>bs. (i * 4 + j div 16) # (j mod 16 * 16 + k div 4) # (k mod 4 * 64 + l) # bs)
                      (base64_decode rest)))
      | _ \<Rightarrow> None)"
| "base64_decode _ = None"

definition EncodeToString :: "string \<Rightarrow> string" where
  "EncodeToString s = base64_encode (map byte s)"

text \<open>Line breaks in the text are ignored.\<close>
definition DecodeString :: "string \<Rightarrow> string option" where
  "DecodeString s = map_option (map char_of) (base64_decode (filter (\<lambda>c. c \<noteq> CHR 0x0D \<and> c \<noteq> CHR 0x0A) s))"

lemma base64_distinct: "distinct base64_table"
  by code_simp

lemma base64_length: "length base64_table = 64"
  by code_simp

lemma base64_val_char [simp]:
  assumes "d < 64"
  shows "base64_val (base64_char d) = Some d"
proof -
  let ?t = "base64_table"
  have d: "d < length ?t" using assms base64_length by simp
  have split: "?t = take d ?t @ ?t ! d # drop (Suc d) ?t" using d by (rule id_take_nth_drop)
  have "?t ! d \<notin> set (take d ?t)"
    using base64_distinct d by (metis distinct_append distinct.simps(2) disjoint_iff list.set_intros(1) split)
  then have "takeWhile (\<lambda>x. x \<noteq> ?t ! d) (take d ?t @ ?t ! d # drop (Suc d) ?t) = take d ?t"
    by (rule takeWhile_until)
  then have "takeWhile (\<lambda>x. x \<noteq> ?t ! d) ?t = take d ?t" by (metis split)
  then show ?thesis using d assms by (simp add: base64_val_def base64_char_def)
qed

lemma base64_char_plain:
  assumes "d < 64"
  shows "base64_char d \<noteq> CHR ''=''" "base64_char d \<noteq> CHR 0x0D" "base64_char d \<noteq> CHR 0x0A"
proof -
  have "base64_char d \<in> set base64_table" using assms base64_length by (simp add: base64_char_def)
  moreover have "CHR ''='' \<notin> set base64_table" "CHR 0x0D \<notin> set base64_table" "CHR 0x0A \<notin> set base64_table"
    by code_simp+
  ultimately show "base64_char d \<noteq> CHR ''=''" "base64_char d \<noteq> CHR 0x0D" "base64_char d \<noteq> CHR 0x0A" by metis+
qed

lemma pack: "y < k \<Longrightarrow> (x * k + y) div k = (x :: nat)" "y < k \<Longrightarrow> (x * k + y) mod k = (y :: nat)"
  by simp_all

text \<open>The four characters of three bytes hold six bits each, and put together they are the bytes.\<close>

lemma six_bits:
  assumes "a < 256" and "b < 256" and "c < (256 :: nat)"
  shows "a div 4 < 64" "a mod 4 * 16 + b div 16 < 64" "b mod 16 * 4 + c div 64 < 64" "c mod 64 < 64"
    "a div 4 * 4 + (a mod 4 * 16 + b div 16) div 16 = a"
    "(a mod 4 * 16 + b div 16) mod 16 * 16 + (b mod 16 * 4 + c div 64) div 4 = b"
    "(b mod 16 * 4 + c div 64) mod 4 * 64 + c mod 64 = c"
proof -
  have m: "a mod 4 \<le> 3" "b mod 16 \<le> 15" by (simp_all add: less_Suc_eq_le [symmetric])
  have d: "a div 4 < 64" "b div 16 < 16" "c div 64 < 4" using assms by (simp_all add: less_mult_imp_div_less)
  show "a div 4 < 64" by (rule d)
  show "a mod 4 * 16 + b div 16 < 64" using m d by linarith
  show "b mod 16 * 4 + c div 64 < 64" using m d by linarith
  show "c mod 64 < 64" by simp
  show "a div 4 * 4 + (a mod 4 * 16 + b div 16) div 16 = a" unfolding pack(1) [OF d(2)] by (rule div_mult_mod_eq)
  show "(a mod 4 * 16 + b div 16) mod 16 * 16 + (b mod 16 * 4 + c div 64) div 4 = b"
    unfolding pack(1) [OF d(3)] pack(2) [OF d(2)] by (rule div_mult_mod_eq)
  show "(b mod 16 * 4 + c div 64) mod 4 * 64 + c mod 64 = c" unfolding pack(2) [OF d(3)] by (rule div_mult_mod_eq)
qed

lemma decode_group:
  assumes "i < 64" and "j < 64" and "k < 64" and "l < 64"
  shows "base64_decode (base64_char i # base64_char j # base64_char k # base64_char l # rest)
      = map_option (\<lambda>bs. (i * 4 + j div 16) # (j mod 16 * 16 + k div 4) # (k mod 4 * 64 + l) # bs) (base64_decode rest)"
    "base64_decode [base64_char i, base64_char j, base64_char k, CHR ''=''] = Some [i * 4 + j div 16, j mod 16 * 16 + k div 4]"
    "base64_decode [base64_char i, base64_char j, CHR ''='', CHR ''=''] = Some [i * 4 + j div 16]"
  using assms by (simp_all add: base64_char_plain)

lemma base64_roundtrip: "list_all (\<lambda>b. b < 256) bs \<Longrightarrow> base64_decode (base64_encode bs) = Some bs"
proof (induction bs rule: base64_encode.induct)
  case (2 a)
  then have "a < 256" "(0 :: nat) < 256" by simp_all
  note g = six_bits [OF this this(2), simplified div_0 mod_0 mult_zero_left add_0_right]
  show ?case unfolding base64_encode.simps decode_group(3) [OF g(1,2) g(1) g(1)] g(5) ..
next
  case (3 a b)
  then have "a < 256" "b < 256" "(0 :: nat) < 256" by simp_all
  note g = six_bits [OF this, simplified div_0 mod_0 mult_zero_left add_0_right]
  show ?case unfolding base64_encode.simps decode_group(2) [OF g(1-3) g(1)] g(5,6) ..
next
  case (4 a b c bs)
  have "a < 256" "b < 256" "c < 256" using 4(2) by simp_all
  note g = six_bits [OF this]
  have "base64_decode (base64_encode bs) = Some bs" using 4 by simp
  then show ?case
    unfolding base64_encode.simps append.simps decode_group(1) [OF g(1-4)] g(5-7) by simp
qed simp

lemma base64_plain:
  "list_all (\<lambda>b. b < 256) bs \<Longrightarrow> list_all (\<lambda>c. c \<noteq> CHR 0x0D \<and> c \<noteq> CHR 0x0A) (base64_encode bs)"
proof (induction bs rule: base64_encode.induct)
  case (2 a)
  then have "a < 256" "(0 :: nat) < 256" by simp_all
  note g = six_bits [OF this this(2), simplified div_0 mod_0 mult_zero_left add_0_right]
  show ?case using base64_char_plain(2,3) [OF g(1)] base64_char_plain(2,3) [OF g(2)] by (simp del: One_nat_def)
next
  case (3 a b)
  then have "a < 256" "b < 256" "(0 :: nat) < 256" by simp_all
  note g = six_bits [OF this, simplified div_0 mod_0 mult_zero_left add_0_right]
  show ?case
    using base64_char_plain(2,3) [OF g(1)] base64_char_plain(2,3) [OF g(2)] base64_char_plain(2,3) [OF g(3)] by simp
next
  case (4 a b c bs)
  have "a < 256" "b < 256" "c < 256" using 4(2) by simp_all
  note g = six_bits [OF this]
  show ?case
    using 4 base64_char_plain(2,3) [OF g(1)] base64_char_plain(2,3) [OF g(2)] base64_char_plain(2,3) [OF g(3)]
      base64_char_plain(2,3) [OF g(4)] by simp
qed simp

lemma map_char_of_byte: "map char_of (map byte s) = s"
  by (induction s) (simp_all add: char_of_byte)

lemma DecodeString_EncodeToString: "DecodeString (EncodeToString s) = Some s"
proof -
  have bytes: "list_all (\<lambda>b. b < 256) (map byte s)" using byte_bound by (simp add: list_all_iff)
  have "filter (\<lambda>c. c \<noteq> CHR 0x0D \<and> c \<noteq> CHR 0x0A) (EncodeToString s) = EncodeToString s"
    using base64_plain [OF bytes] by (simp add: EncodeToString_def list_all_iff filter_id_conv)
  then show ?thesis
    using base64_roundtrip [OF bytes] map_char_of_byte [of s] by (simp add: DecodeString_def EncodeToString_def)
qed

lemma EncodeToString_ne: "s \<noteq> [] \<Longrightarrow> EncodeToString s \<noteq> []"
  using DecodeString_EncodeToString [of s] by (auto simp: DecodeString_def)

interpretation base64: exact_codec EncodeToString DecodeString "\<lambda>s. True"
  by unfold_locales (rule DecodeString_EncodeToString)

section \<open>The bucket\<close>

record stored_object =
  sto_Content :: string
  sto_ContentType :: string
  sto_ContentEncoding :: string
  sto_CacheControl :: string
  sto_UserMetadata :: "(string \<times> string) list"
  sto_ETag :: string
  sto_LastModified :: time

record recorded_request =
  rr_Method :: string
  rr_Path :: string
  rr_Query :: string
  rr_Signed :: bool

record s3_server =
  svr_bucket :: string
  svr_pageSize :: nat
  svr_objects :: "(string \<times> stored_object) list"
  svr_requests :: "recorded_request list"

definition NewServer :: "string \<Rightarrow> (string \<times> stored_object) list \<Rightarrow> s3_server" where
  "NewServer bucket objects = \<lparr>svr_bucket = bucket, svr_pageSize = 2, svr_objects = objects, svr_requests = []\<rparr>"

definition SetObject :: "string \<Rightarrow> stored_object \<Rightarrow> s3_server \<Rightarrow> s3_server" where
  "SetObject key object s = s\<lparr>svr_objects := AList.update key object (svr_objects s)\<rparr>"

definition RemoveObject :: "string \<Rightarrow> s3_server \<Rightarrow> s3_server" where
  "RemoveObject key s = s\<lparr>svr_objects := AList.delete key (svr_objects s)\<rparr>"

definition AssertOnlyReads :: "s3_server \<Rightarrow> bool" where
  "AssertOnlyReads s \<longleftrightarrow> list_all (\<lambda>r. rr_Method r = ''GET'' \<or> rr_Method r = ''HEAD'') (svr_requests s)"

definition etag_of :: "stored_object \<Rightarrow> string" where
  "etag_of ob = (if sto_ETag ob = []
     then [CHR 0x22] @ hex_bytes (take 16 (Sum256 (str_bytes (sto_Content ob)))) @ [CHR 0x22] else sto_ETag ob)"

section \<open>Answers\<close>

definition set_list :: "string \<Rightarrow> string \<Rightarrow> header_list \<Rightarrow> header_list" where
  "set_list key v h = AList.update (CanonicalHeaderKey key) [v] h"

definition set_if :: "bool \<Rightarrow> string \<Rightarrow> string \<Rightarrow> header_list \<Rightarrow> header_list" where
  "set_if b key v h = (if b then set_list key v h else h)"

definition setObjectHeaders :: "stored_object \<Rightarrow> header_list" where
  "setObjectHeaders ob =
     foldl (\<lambda>h (name, v). set_list (''X-Amz-Meta-'' @ name) v h)
       (set_if (sto_LastModified ob \<noteq> 0) ''Last-Modified'' (FormatHTTP (sto_LastModified ob))
       (set_if (sto_CacheControl ob \<noteq> []) ''Cache-Control'' (sto_CacheControl ob)
       (set_if (sto_ContentEncoding ob \<noteq> []) ''Content-Encoding'' (sto_ContentEncoding ob)
       (set_if (sto_ContentType ob \<noteq> []) ''Content-Type'' (sto_ContentType ob)
       (set_list ''ETag'' (etag_of ob) [])))))
       (sto_UserMetadata ob)"

definition answer :: "int \<Rightarrow> header_list \<Rightarrow> string \<Rightarrow> s3_response" where
  "answer status h body = \<lparr>s3r_StatusCode = status, s3r_Header = h, s3r_Body = body, s3r_BodyError = None,
     s3r_ContentLength = word_of_nat (length body)\<rparr>"

definition writeXMLError :: "int \<Rightarrow> string \<Rightarrow> string \<Rightarrow> s3_response" where
  "writeXMLError status code message = answer status (set_list ''Content-Type'' ''application/xml'' [])
     (''<Error><Code>'' @ code @ ''</Code><Message>'' @ message @ ''</Message></Error>'')"

definition xml_header :: string where
  "xml_header = ''<?xml version='' @ [CHR 0x22] @ ''1.0'' @ [CHR 0x22] @ '' encoding='' @ [CHR 0x22] @ ''UTF-8''
     @ [CHR 0x22] @ ''?>'' @ [CHR 0x0A]"

definition sorted_keys :: "s3_server \<Rightarrow> string list" where
  "sorted_keys s = sort (remdups (map fst (svr_objects s)))"

definition entry_of :: "s3_server \<Rightarrow> string \<Rightarrow> list_entry" where
  "entry_of s key = (let ob = the (map_of (svr_objects s) key) in
     \<lparr>le_Key = key, le_LastModified = sto_LastModified ob, le_ETag = etag_of ob,
      le_Size = word_of_nat (length (sto_Content ob))\<rparr>)"

text \<open>\<open>start\<close>: the loop that skips the keys up to the token's.\<close>
definition list_start :: "s3_server \<Rightarrow> string \<Rightarrow> nat option" where
  "list_start s token = (if token = [] then Some 0
     else map_option (\<lambda>after. length (takeWhile (\<lambda>k. k \<le> after) (sorted_keys s))) (DecodeString token))"

definition list_result_of :: "s3_server \<Rightarrow> string \<Rightarrow> list_result option" where
  "list_result_of s token = map_option (\<lambda>start.
     let keys = sorted_keys s; stop = start + svr_pageSize s; truncated = stop < length keys
     in \<lparr>lr_IsTruncated = truncated,
         lr_NextContinuationToken = (if truncated then EncodeToString (keys ! (stop - 1)) else []),
         lr_Contents = map (entry_of s) (take (svr_pageSize s) (drop start keys))\<rparr>) (list_start s token)"

definition query_get :: "url_values \<Rightarrow> string \<Rightarrow> string" where
  "query_get q k = (case map_of q k of Some (v # _) \<Rightarrow> v | _ \<Rightarrow> [])"

definition s3test_list :: "(list_result \<Rightarrow> string) \<Rightarrow> s3_server \<Rightarrow> url_values \<Rightarrow> s3_response" where
  "s3test_list enc s q = (case list_result_of s (query_get q ''continuation-token'') of
       None \<Rightarrow> writeXMLError 400 ''InvalidArgument'' ''Bad continuation token.''
     | Some r \<Rightarrow> answer 200 (set_list ''Content-Type'' ''application/xml'' []) (xml_header @ enc r))"

definition record_of :: "s3_request \<Rightarrow> recorded_request" where
  "record_of r = \<lparr>rr_Method = s3_Method r, rr_Path = url_Path (s3_URL r), rr_Query = url_RawQuery (s3_URL r),
     rr_Signed = (header_Get (s3_Header r) ''Authorization'' \<noteq> [])\<rparr>"

definition serve_bucket :: "(list_result \<Rightarrow> string) \<Rightarrow> s3_server \<Rightarrow> s3_request \<Rightarrow> s3_response" where
  "serve_bucket enc s r =
     (if s3_Method r = ''HEAD'' then answer 200 [] []
      else if s3_Method r = ''GET'' then
        (let q = ParseQuery (url_RawQuery (s3_URL r)) in
         if query_get q ''list-type'' = ''2'' then s3test_list enc s q else answer 400 [] [])
      else answer 405 [] [])"

definition serve_object :: "s3_server \<Rightarrow> s3_request \<Rightarrow> string \<Rightarrow> s3_response" where
  "serve_object s r key = (case map_of (svr_objects s) key of
       None \<Rightarrow> writeXMLError 404 ''NoSuchKey'' ''The specified key does not exist.''
     | Some ob \<Rightarrow>
         if s3_Method r = ''HEAD''
         then (answer 200 (setObjectHeaders ob) [])\<lparr>s3r_ContentLength := word_of_nat (length (sto_Content ob))\<rparr>
         else if s3_Method r \<noteq> ''GET'' then answer 405 [] []
         else answer 200 (setObjectHeaders ob) (sto_Content ob))"

definition s3test_serve :: "(list_result \<Rightarrow> string) \<Rightarrow> s3_request \<Rightarrow> s3_server \<Rightarrow> s3_response \<times> s3_server" where
  "s3test_serve enc r s0 =
     (let s = s0\<lparr>svr_requests := svr_requests s0 @ [record_of r]\<rparr>;
          bucketPath = ''/'' @ svr_bucket s; path = url_Path (s3_URL r)
      in (if \<not> rr_Signed (record_of r) then answer 403 [] []
          else if path = bucketPath then serve_bucket enc s r
          else if \<not> HasPrefix path (bucketPath @ ''/'') then answer 404 [] []
          else serve_object s r (TrimPrefix path (bucketPath @ ''/'')), s))"

text \<open>A client of the server whose objects stay as they are.\<close>
definition s3test_client :: "(list_result \<Rightarrow> string) \<Rightarrow> s3_server \<Rightarrow> s3_client" where
  "s3test_client enc s = (\<lambda>n r. Inr (fst (s3test_serve enc r s)))"

end
