(* ===== verification/S3_Exchange.thy ===== *)
theory S3_Exchange
  imports S3_Test
begin

text \<open>
  The reader of \<open>reader.go\<close> against the bucket of \<open>s3test/server.go\<close>. The server's pages satisfy the
  \<open>pager\<close> contract whatever its objects are, so the listing loop returns every object once, by key; reading
  an object returns its bytes' digest and its metadata, reading metadata the same without the body, and a key
  that is not stored is reported as \<open>ErrObjectNotFound\<close>.
\<close>

section \<open>The server's pages\<close>

definition server_token :: "s3_server \<Rightarrow> string \<Rightarrow> bool" where
  "server_token s t \<longleftrightarrow> t = [] \<or> (\<exists>k \<in> set (sorted_keys s). k \<noteq> [] \<and> t = EncodeToString k)"

definition server_offset :: "s3_server \<Rightarrow> string \<Rightarrow> nat" where
  "server_offset s t = the (list_start s t)"

definition server_entries :: "s3_server \<Rightarrow> list_entry list" where
  "server_entries s = map (entry_of s) (sorted_keys s)"

definition server_page :: "s3_server \<Rightarrow> nat \<Rightarrow> string \<Rightarrow> list_result res" where
  "server_page s n t = (case list_result_of s t of
     None \<Rightarrow> Inl (classifyStatus ''list objects'' 400) | Some r \<Rightarrow> Inr r)"

lemma sorted_keys_strict: "sorted (sorted_keys s)" "distinct (sorted_keys s)" "set (sorted_keys s) = fst ` set (svr_objects s)"
  by (simp_all add: sorted_keys_def)

lemma takeWhile_upto:
  assumes "sorted xs" and "distinct xs" and "i < length (xs :: 'a :: linorder list)"
  shows "length (takeWhile (\<lambda>k. k \<le> xs ! i) xs) = Suc i"
  using assms
proof (induction xs arbitrary: i)
  case (Cons x xs)
  show ?case
  proof (cases i)
    case 0
    have "\<not> y \<le> x" if "y \<in> set xs" for y using that Cons.prems by (auto simp: not_le order.strict_iff_order)
    then have "takeWhile (\<lambda>k. k \<le> x) xs = []" by (cases xs) auto
    then show ?thesis using 0 by simp
  next
    case (Suc j)
    then have "j < length xs" using Cons.prems by simp
    then have "x \<le> xs ! j" using Cons.prems by simp
    then show ?thesis using Cons Suc \<open>j < length xs\<close> by simp
  qed
qed simp

lemma list_start_token:
  assumes "server_token s t"
  shows "list_start s t = Some (server_offset s t)"
  using assms EncodeToString_ne by (auto simp: server_token_def server_offset_def list_start_def DecodeString_EncodeToString)

lemma server_answers:
  assumes token: "server_token s t" and size: "svr_pageSize s = 2"
  shows "\<exists>r. list_result_of s t = Some r \<and> lr_Contents r = take 2 (drop (server_offset s t) (server_entries s)) \<and>
    (lr_IsTruncated r \<longleftrightarrow> server_offset s t + 2 < length (server_entries s)) \<and>
    (lr_IsTruncated r \<longrightarrow> lr_NextContinuationToken r \<noteq> [] \<and> server_token s (lr_NextContinuationToken r) \<and>
      server_offset s (lr_NextContinuationToken r) = server_offset s t + 2)"
proof -
  let ?keys = "sorted_keys s" and ?o = "server_offset s t"
  obtain r where r: "list_result_of s t = Some r" and trunc: "lr_IsTruncated r \<longleftrightarrow> ?o + 2 < length ?keys"
    and contents: "lr_Contents r = map (entry_of s) (take 2 (drop ?o ?keys))"
    and token': "lr_IsTruncated r \<Longrightarrow> lr_NextContinuationToken r = EncodeToString (?keys ! (?o + 1))"
    by (simp add: list_result_of_def list_start_token [OF token] size Let_def)
  have "lr_NextContinuationToken r \<noteq> [] \<and> server_token s (lr_NextContinuationToken r) \<and>
      server_offset s (lr_NextContinuationToken r) = ?o + 2" if "lr_IsTruncated r"
  proof -
    let ?k = "?keys ! (?o + 1)"
    have i: "?o + 1 < length ?keys" "?o < length ?keys" using that trunc by simp_all
    have "?keys ! ?o \<le> ?k" using sorted_keys_strict(1) i by (simp add: sorted_iff_nth_mono)
    moreover have "?keys ! ?o \<noteq> ?k" using sorted_keys_strict(2) i by (simp add: nth_eq_iff_index_eq)
    ultimately have k: "?k \<noteq> []" by (cases "?keys ! ?o") auto
    have mem: "?k \<in> set ?keys" using i by simp
    have "length (takeWhile (\<lambda>x. x \<le> ?k) ?keys) = Suc (?o + 1)"
      using sorted_keys_strict(1,2) i(1) by (rule takeWhile_upto)
    then show ?thesis
      using token' [OF that] k mem EncodeToString_ne [OF k]
      by (auto simp: server_token_def server_offset_def list_start_def DecodeString_EncodeToString)
  qed
  then show ?thesis using r trunc contents by (auto simp: server_entries_def take_map drop_map)
qed

interpretation test_bucket: pager "server_page (NewServer bucket objects)" "server_entries (NewServer bucket objects)"
    "server_token (NewServer bucket objects)" "server_offset (NewServer bucket objects)" 2 for bucket objects
proof
  fix t n
  assume "server_token (NewServer bucket objects) t"
  from server_answers [OF this] show "\<exists>r. server_page (NewServer bucket objects) n t = Inr r \<and>
      lr_Contents r = take 2 (drop (server_offset (NewServer bucket objects) t) (server_entries (NewServer bucket objects))) \<and>
      (lr_IsTruncated r \<longleftrightarrow> server_offset (NewServer bucket objects) t + 2 < length (server_entries (NewServer bucket objects))) \<and>
      (lr_IsTruncated r \<longrightarrow> lr_NextContinuationToken r \<noteq> [] \<and> server_token (NewServer bucket objects) (lr_NextContinuationToken r) \<and>
        server_offset (NewServer bucket objects) (lr_NextContinuationToken r) = server_offset (NewServer bucket objects) t + 2)"
    by (auto simp: server_page_def NewServer_def)
qed (simp_all add: server_token_def server_offset_def list_start_def)

section \<open>Requests that reach the bucket\<close>

text \<open>A configuration of the adapter for a bucket of the server.\<close>
definition reaches :: "storage_config \<Rightarrow> s3_server \<Rightarrow> go_url \<Rightarrow> bool" where
  "reaches config s base \<longleftrightarrow> bucketURL (sc_Endpoint config) (sc_Bucket config) = Inr base \<and> plain_url base \<and>
     url_Path base = ''/'' @ svr_bucket s \<and> sc_AccessKeyID config \<noteq> [] \<and> sc_SecretAccessKey config \<noteq> []"

lemma authorization_ne: "authorization order config r \<noteq> []"
  by (simp add: authorization_def Let_def)

lemma signed_request:
  assumes "sc_AccessKeyID config \<noteq> []" and "sc_SecretAccessKey config \<noteq> []"
  obtains r' where "signRequest order config now r = Inr r'" "s3_Method r' = s3_Method r" "s3_URL r' = s3_URL r"
    "rr_Signed (record_of r')"
proof -
  have "header_Get (header_Set ''Authorization'' v h) ''Authorization'' = v" for v h
    by (simp add: header_Get_def header_Set_def header_Values_def)
  then show ?thesis
    using assms that authorization_ne by (simp add: signRequest_def stamped_def record_of_def Let_def)
qed

lemma send_reaches:
  assumes "sc_AccessKeyID config \<noteq> []" and "sc_SecretAccessKey config \<noteq> []" and "plain_url u"
  obtains r where "send order config client n now m (url_String u) extra prep failed =
      (case client n r of Inl e \<Rightarrow> Inl (unavailable failed) | Inr response \<Rightarrow> Inr response)"
    "s3_Method r = m" "s3_URL r = u" "rr_Signed (record_of r)"
proof -
  let ?r = "\<lparr>s3_Method = m, s3_URL = u, s3_Host = url_Host u, s3_Header = extra no_header\<rparr>"
  obtain r' where r': "signRequest order config now ?r = Inr r'" "s3_Method r' = m" "s3_URL r' = u" "rr_Signed (record_of r')"
    using signed_request [OF assms(1,2), of order now ?r] by auto
  have "send order config client n now m (url_String u) extra prep failed =
      (case client n r' of Inl e \<Rightarrow> Inl (unavailable failed) | Inr response \<Rightarrow> Inr response)"
    using r'(1) by (simp add: send_def NewRequest_plain [OF assms(3)])
  then show ?thesis using that r' by blast
qed

section \<open>The complete listing\<close>

text \<open>The XML of the pages this server sends is decoded back, and fits the limit of the reader.\<close>
definition pages_decode :: "(list_result \<Rightarrow> string) \<Rightarrow> (string \<Rightarrow> list_result option) \<Rightarrow> s3_server \<Rightarrow> bool" where
  "pages_decode enc dec s \<longleftrightarrow> (\<forall>t r. server_token s t \<longrightarrow> list_result_of s t = Some r \<longrightarrow>
     dec (xml_header @ enc r) = Some r \<and> length (xml_header @ enc r) < listBodyLimit)"

lemma list_query_get:
  "query_get (ParseQuery (Values_Encode (list_query t))) ''list-type'' = ''2''"
  "query_get (ParseQuery (Values_Encode (list_query t))) ''continuation-token'' = t"
proof -
  have parsed: "ParseQuery (Values_Encode (list_query t)) = sort_key fst (list_query t)"
    by (rule parse_encoded) (simp_all add: list_query_def)
  have entries: "map_of (ParseQuery (Values_Encode (list_query t))) = map_of (list_query t)"
    unfolding parsed by (rule map_of_sort_key) (simp add: list_query_def)
  then show "query_get (ParseQuery (Values_Encode (list_query t))) ''list-type'' = ''2''"
    "query_get (ParseQuery (Values_Encode (list_query t))) ''continuation-token'' = t"
    unfolding query_get_def entries by (simp_all add: list_query_def)
qed

lemma recorded_same [simp]:
  "sorted_keys (s\<lparr>svr_requests := rs\<rparr>) = sorted_keys s" "entry_of (s\<lparr>svr_requests := rs\<rparr>) = entry_of s"
  "list_start (s\<lparr>svr_requests := rs\<rparr>) = list_start s" "list_result_of (s\<lparr>svr_requests := rs\<rparr>) = list_result_of s"
proof -
  let ?s = "s\<lparr>svr_requests := rs\<rparr>"
  show k: "sorted_keys ?s = sorted_keys s" by (simp add: sorted_keys_def)
  show e: "entry_of ?s = entry_of s" by (rule ext) (simp add: entry_of_def)
  show l: "list_start ?s = list_start s" by (rule ext) (simp add: list_start_def k)
  show "list_result_of ?s = list_result_of s" by (rule ext) (simp add: list_result_of_def k e l)
qed

lemma list_page_served:
  assumes reach: "reaches config s base" and "pages_decode enc dec s" and token: "server_token s t"
    and r: "list_result_of s t = Some r"
  shows "list_page order config (s3test_client enc s) dec now base n t = Inr r"
proof -
  let ?u = "base\<lparr>url_RawQuery := Values_Encode (list_query t)\<rparr>"
  have u: "plain_url ?u" using reach Values_Encode_chars by (simp add: reaches_def plain_url_def HasPrefix_def)
  obtain q where q: "send order config (s3test_client enc s) n (now n) ''GET'' (url_String ?u) id
      ''listing request'' ''listing request failed'' = Inr (fst (s3test_serve enc q s))"
    "s3_Method q = ''GET''" "s3_URL q = ?u" "rr_Signed (record_of q)"
    using send_reaches [of config ?u order "s3test_client enc s" n "now n" "''GET''" id] reach u
    by (auto simp: reaches_def s3test_client_def)
  have "fst (s3test_serve enc q s) = answer 200 (set_list ''Content-Type'' ''application/xml'' []) (xml_header @ enc r)"
    using q reach r by (simp add: s3test_serve_def Let_def reaches_def serve_bucket_def list_query_get s3test_list_def)
  moreover have "dec (xml_header @ enc r) = Some r" "length (xml_header @ enc r) < listBodyLimit"
    using assms(2) token r by (auto simp: pages_decode_def)
  ultimately show ?thesis
    using q(1) by (simp add: list_page_def answer_def read_limited_def)
qed

lemma listing_complete:
  assumes reach: "reaches config (NewServer bucket objects) base" and "pages_decode enc dec (NewServer bucket objects)"
  shows "S3Reader_ListObjects order config (s3test_client enc (NewServer bucket objects)) dec now
    = Some (Inr (page_listings (server_entries (NewServer bucket objects))))"
proof -
  let ?s = "NewServer bucket objects"
  have "pager (list_page order config (s3test_client enc ?s) dec now base) (server_entries ?s) (server_token ?s) (server_offset ?s) 2"
  proof
    fix t n
    assume token: "server_token ?s t"
    from test_bucket.answers [OF token]
    obtain r where "list_result_of ?s t = Some r" and r: "lr_Contents r = take 2 (drop (server_offset ?s t) (server_entries ?s)) \<and>
      (lr_IsTruncated r \<longleftrightarrow> server_offset ?s t + 2 < length (server_entries ?s)) \<and>
      (lr_IsTruncated r \<longrightarrow> lr_NextContinuationToken r \<noteq> [] \<and> server_token ?s (lr_NextContinuationToken r) \<and>
        server_offset ?s (lr_NextContinuationToken r) = server_offset ?s t + 2)"
      by (auto simp: server_page_def split: option.splits)
    then have "list_page order config (s3test_client enc ?s) dec now base n t = Inr r"
      by (intro list_page_served [OF assms token])
    then show "\<exists>r. list_page order config (s3test_client enc ?s) dec now base n t = Inr r \<and>
      lr_Contents r = take 2 (drop (server_offset ?s t) (server_entries ?s)) \<and>
      (lr_IsTruncated r \<longleftrightarrow> server_offset ?s t + 2 < length (server_entries ?s)) \<and>
      (lr_IsTruncated r \<longrightarrow> lr_NextContinuationToken r \<noteq> [] \<and> server_token ?s (lr_NextContinuationToken r) \<and>
        server_offset ?s (lr_NextContinuationToken r) = server_offset ?s t + 2)"
      using r by blast
  qed (use test_bucket.first_token test_bucket.positive in auto)
  then have "list_loop (list_page order config (s3test_client enc ?s) dec now base) 0 [] []
      = Some (Inr (page_listings (server_entries ?s)))"
    by (rule pager.lists_everything)
  then show ?thesis using reach by (simp add: S3Reader_ListObjects_def reaches_def)
qed

section \<open>Object headers\<close>

definition meta_key :: "string \<Rightarrow> string" where
  "meta_key name = CanonicalHeaderKey (''X-Amz-Meta-'' @ name)"

text \<open>User metadata names as S3 keeps them: lower-case tokens, each once.\<close>
definition metadata_ok :: "(string \<times> string) list \<Rightarrow> bool" where
  "metadata_ok es \<longleftrightarrow> distinct (map fst es) \<and> list_all (\<lambda>(name, v). list_all token_byte name \<and> map lower_char name = name) es"

lemma canonical_append:
  "canonical_bytes up (s @ CHR ''-'' # t) = canonical_bytes up (s @ ''-'') @ canonical_bytes True t"
  by (induction s arbitrary: up) auto

lemma meta_key_token:
  assumes "list_all token_byte name"
  shows "meta_key name = ''X-Amz-Meta-'' @ canonical_bytes True name"
proof -
  have "canonical_bytes True (''X-Amz-Meta'' @ ''-'') = ''X-Amz-Meta-''" by code_simp
  moreover have "list_all token_byte ''X-Amz-Meta-''" by code_simp
  ultimately show ?thesis
    using assms canonical_append [of True "''X-Amz-Meta''" name] by (simp add: meta_key_def CanonicalHeaderKey_def)
qed

lemma byte_char_of: "n < 256 \<Longrightarrow> byte (char_of n) = n"
  by (simp add: byte_def)

lemma lower_upper: "lower_char (upper_char c) = lower_char c" "lower_char (lower_char c) = lower_char c"
proof -
  have b: "byte c < 256" by (rule byte_bound)
  have l: "byte (lower_char c) = lower_byte (byte c)" using b by (simp add: lower_char_def lower_byte_def byte_char_of)
  have u: "byte (upper_char c) = (if 97 \<le> byte c \<and> byte c \<le> 122 then byte c - 32 else byte c)"
    using b by (simp add: upper_char_def byte_char_of)
  have "lower_byte (byte (upper_char c)) = lower_byte (byte c)" unfolding u lower_byte_def by auto
  then show "lower_char (upper_char c) = lower_char c" by (simp only: lower_char_def)
  show "lower_char (lower_char c) = lower_char c" unfolding lower_char_def [of "lower_char c"] l
    by (simp add: lower_char_def lower_byte_def)
qed

lemma lower_canonical: "map lower_char (canonical_bytes up s) = map lower_char s"
  by (induction s arbitrary: up) (simp_all add: lower_upper)

lemma lower_meta_key:
  assumes "list_all token_byte name" and "map lower_char name = name"
  shows "map lower_char (meta_key name) = meta_prefix @ name"
proof -
  have "map lower_char ''X-Amz-Meta-'' = meta_prefix" by code_simp
  then show ?thesis using assms(2) unfolding meta_key_token [OF assms(1)] map_append lower_canonical by simp
qed

definition standard_headers :: "stored_object \<Rightarrow> header_list" where
  "standard_headers ob = [(''Etag'', [etag_of ob])] @
     (if sto_ContentType ob = [] then [] else [(''Content-Type'', [sto_ContentType ob])]) @
     (if sto_ContentEncoding ob = [] then [] else [(''Content-Encoding'', [sto_ContentEncoding ob])]) @
     (if sto_CacheControl ob = [] then [] else [(''Cache-Control'', [sto_CacheControl ob])]) @
     (if sto_LastModified ob = 0 then [] else [(''Last-Modified'', [FormatHTTP (sto_LastModified ob)])])"

lemma canonical_names:
  "CanonicalHeaderKey ''ETag'' = ''Etag''" "CanonicalHeaderKey ''Content-Encoding'' = ''Content-Encoding''"
  "CanonicalHeaderKey ''Last-Modified'' = ''Last-Modified''"
  by code_simp+

lemma meta_key_prefix:
  assumes "list_all token_byte name"
  shows "take 2 (meta_key name) = ''X-''"
  by (simp add: meta_key_token [OF assms])

lemma standard_keys: "k \<in> fst ` set (standard_headers ob) \<Longrightarrow> take 2 k \<noteq> ''X-''"
  by (auto simp: standard_headers_def split: if_splits)

lemma metadata_headers:
  "metadata_ok es \<Longrightarrow> (\<And>k. k \<in> fst ` set h \<Longrightarrow> k \<notin> meta_key ` fst ` set es) \<Longrightarrow>
    foldl (\<lambda>h (name, v). set_list (''X-Amz-Meta-'' @ name) v h) h es = h @ map (\<lambda>(name, v). (meta_key name, [v])) es"
proof (induction es arbitrary: h)
  case (Cons e es)
  obtain name v where e: "e = (name, v)" by force
  have name: "list_all token_byte name" "map lower_char name = name" using Cons.prems(1) e by (auto simp: metadata_ok_def)
  have new: "meta_key name \<notin> fst ` set h" using Cons.prems(2) e by force
  then have step: "set_list (''X-Amz-Meta-'' @ name) v h = h @ [(meta_key name, [v])]"
    by (simp add: set_list_def update_new meta_key_def)
  have other: "meta_key name \<notin> meta_key ` fst ` set es"
  proof
    assume "meta_key name \<in> meta_key ` fst ` set es"
    then obtain n' v' where n': "(n', v') \<in> set es" "meta_key name = meta_key n'" by auto
    then have "list_all token_byte n'" "map lower_char n' = n'"
      using Cons.prems(1) by (auto simp: metadata_ok_def list_all_iff)
    then have "name = n'" using n'(2) lower_meta_key name by (metis same_append_eq)
    then show False using n'(1) Cons.prems(1) e by (force simp: metadata_ok_def)
  qed
  have "foldl (\<lambda>h (name, v). set_list (''X-Amz-Meta-'' @ name) v h) (h @ [(meta_key name, [v])]) es
      = (h @ [(meta_key name, [v])]) @ map (\<lambda>(name, v). (meta_key name, [v])) es"
  proof (rule Cons.IH)
    show "metadata_ok es" using Cons.prems(1) by (simp add: metadata_ok_def)
    show "k \<notin> meta_key ` fst ` set es" if "k \<in> fst ` set (h @ [(meta_key name, [v])])" for k
    proof (cases "k = meta_key name")
      case True
      then show ?thesis using other by simp
    next
      case False
      then have "k \<in> fst ` set h" using that by auto
      then show ?thesis using Cons.prems(2) [of k] e by auto
    qed
  qed
  then show ?case unfolding e foldl_Cons prod.case step by simp
qed simp

lemma setObjectHeaders_split:
  assumes "metadata_ok (sto_UserMetadata ob)"
  shows "setObjectHeaders ob = standard_headers ob @ map (\<lambda>(name, v). (meta_key name, [v])) (sto_UserMetadata ob)"
proof -
  let ?std = "set_if (sto_LastModified ob \<noteq> 0) ''Last-Modified'' (FormatHTTP (sto_LastModified ob))
       (set_if (sto_CacheControl ob \<noteq> []) ''Cache-Control'' (sto_CacheControl ob)
       (set_if (sto_ContentEncoding ob \<noteq> []) ''Content-Encoding'' (sto_ContentEncoding ob)
       (set_if (sto_ContentType ob \<noteq> []) ''Content-Type'' (sto_ContentType ob)
       (set_list ''ETag'' (etag_of ob) []))))"
  have std: "?std = standard_headers ob"
    by (simp add: set_if_def set_list_def canonical_names standard_headers_def)
  have "k \<notin> meta_key ` fst ` set (sto_UserMetadata ob)" if "k \<in> fst ` set (standard_headers ob)" for k
    using standard_keys [OF that] assms meta_key_prefix by (auto simp: metadata_ok_def list_all_iff)
  from metadata_headers [OF assms this] show ?thesis unfolding setObjectHeaders_def std .
qed

lemma standard_no_metadata:
  "foldl add_metadata es (standard_headers ob) = es"
proof -
  have "\<not> HasPrefix (map lower_char ''Etag'') meta_prefix" "\<not> HasPrefix (map lower_char ''Content-Type'') meta_prefix"
    "\<not> HasPrefix (map lower_char ''Content-Encoding'') meta_prefix" "\<not> HasPrefix (map lower_char ''Cache-Control'') meta_prefix"
    "\<not> HasPrefix (map lower_char ''Last-Modified'') meta_prefix"
    by code_simp+
  then have "add_metadata es (k, [v]) = es" if "k \<in> {''Etag'', ''Content-Type'', ''Content-Encoding'', ''Cache-Control'', ''Last-Modified''}" for k v
    using that by (elim insertE emptyE) (simp_all only: add_metadata_def prod.case list.case if_False)
  then show ?thesis by (simp add: standard_headers_def del: list.map)
qed

lemma read_metadata:
  "metadata_ok (acc @ es) \<Longrightarrow>
    foldl add_metadata acc (map (\<lambda>(name, v). (meta_key name, [v])) es) = acc @ es"
proof (induction es arbitrary: acc)
  case (Cons e es)
  obtain name v where e: "e = (name, v)" by force
  have name: "list_all token_byte name" "map lower_char name = name" "name \<notin> fst ` set acc"
    using Cons.prems e by (auto simp: metadata_ok_def)
  have "add_metadata acc (meta_key name, [v]) = acc @ [e]"
    using lower_meta_key [OF name(1,2)] name(3)
    by (simp add: add_metadata_def e HasPrefix_def TrimPrefix_def update_new)
  then show ?case using Cons by (simp add: e)
qed simp

lemma get_standard:
  assumes "metadata_ok es" and "take 2 key \<noteq> ''X-''" and "CanonicalHeaderKey key = key'" and "take 2 key' \<noteq> ''X-''"
  shows "get_header (h @ map (\<lambda>(name, v). (meta_key name, [v])) es) key = get_header h key"
proof -
  have "map_of (map (\<lambda>(name, v). (meta_key name, [v])) es) key' = None"
    using assms meta_key_prefix by (auto simp: map_of_eq_None_iff metadata_ok_def list_all_iff)
  then show ?thesis by (simp add: get_header_def assms(3) map_add_def split: option.split)
qed

text \<open>The metadata the reader returns for an object of the server.\<close>
definition served_meta :: "stored_object \<Rightarrow> string \<Rightarrow> object_meta" where
  "served_meta ob key = \<lparr>om_Key = key, om_Size = 0, om_ETag = etag_of ob,
     om_LastModified = sto_LastModified ob div second * second, om_ContentType = sto_ContentType ob,
     om_ContentEncoding = sto_ContentEncoding ob, om_CacheControl = sto_CacheControl ob,
     om_UserMetadata = Some (sto_UserMetadata ob)\<rparr>"

lemma FormatHTTP_ne: "FormatHTTP t \<noteq> []"
  by (simp add: FormatHTTP_def Let_def split: prod.splits)

lemma served_metadata:
  assumes meta: "metadata_ok (sto_UserMetadata ob)" and "year_ok (sto_LastModified ob)"
  shows "metadataFromHeaders obsolete key (setObjectHeaders ob) = served_meta ob key"
proof -
  let ?h = "setObjectHeaders ob"
  note split = setObjectHeaders_split [OF meta]
  have std: "get_header ?h ''ETag'' = etag_of ob" "get_header ?h ''Content-Type'' = sto_ContentType ob"
    "get_header ?h ''Content-Encoding'' = sto_ContentEncoding ob" "get_header ?h ''Cache-Control'' = sto_CacheControl ob"
    "get_header ?h ''Last-Modified'' = (if sto_LastModified ob = 0 then [] else FormatHTTP (sto_LastModified ob))"
    unfolding split
    by (subst get_standard [OF meta], simp, rule refl, simp add: canonical_names,
        simp add: get_header_def canonical_names standard_headers_def)+
  have "foldl add_metadata [] ?h = sto_UserMetadata ob"
    using read_metadata [of "[]" "sto_UserMetadata ob"] meta by (simp add: split standard_no_metadata)
  then show ?thesis
    using std FormatHTTP_ne ParseTime_FormatHTTP [OF assms(2)] by (simp add: metadataFromHeaders_def served_meta_def)
qed

section \<open>One object\<close>

lemma object_served:
  assumes reach: "reaches config s base"
  obtains r where "send order config (s3test_client enc s) 0 now m (object_address base key) extra prep failed
      = Inr (serve_object s r key)" "s3_Method r = m"
proof -
  let ?u = "base\<lparr>url_Path := url_Path base @ ''/'' @ key\<rparr>"
  have u: "plain_url ?u" using reach by (simp add: reaches_def plain_url_def HasPrefix_def)
  obtain r where r: "send order config (s3test_client enc s) 0 now m (url_String ?u) extra prep failed
      = Inr (fst (s3test_serve enc r s))" "s3_Method r = m" "s3_URL r = ?u" "rr_Signed (record_of r)"
    using send_reaches [of config ?u order "s3test_client enc s" 0 now m extra prep failed] reach u
    by (auto simp: reaches_def s3test_client_def)
  have path: "url_Path (s3_URL r) = (''/'' @ svr_bucket s @ ''/'') @ key" using r(3) reach by (simp add: reaches_def)
  have "fst (s3test_serve enc r s) = serve_object (s\<lparr>svr_requests := svr_requests s @ [record_of r]\<rparr>) r key"
    using r(4) path by (simp add: s3test_serve_def Let_def HasPrefix_def TrimPrefix_def)
  also have "\<dots> = serve_object s r key" by (simp add: serve_object_def)
  finally show ?thesis using that r by (simp add: object_address_def)
qed

lemma ReadObject_served:
  assumes reach: "reaches config s base" and ob: "map_of (svr_objects s) key = Some ob"
    and "metadata_ok (sto_UserMetadata ob)" and "year_ok (sto_LastModified ob)" and "length (sto_Content ob) < objectBodyLimit"
  shows "S3Reader_ReadObject order config (s3test_client enc s) obsolete now key = Inr
    \<lparr>oc_Key = key, oc_Size = word_of_nat (length (sto_Content ob)), oc_ETag = etag_of ob,
     oc_LastModified = sto_LastModified ob div second * second, oc_ContentType = sto_ContentType ob,
     oc_ContentEncoding = sto_ContentEncoding ob, oc_CacheControl = sto_CacheControl ob,
     oc_UserMetadata = Some (sto_UserMetadata ob), oc_SHA256 = sha256_hex (sto_Content ob)\<rparr>"
proof -
  obtain r where r: "send order config (s3test_client enc s) 0 now ''GET'' (object_address base key) identity_encoding
      ''object request'' ''object request failed'' = Inr (serve_object s r key)" "s3_Method r = ''GET''"
    using object_served [OF reach] by blast
  then have "send order config (s3test_client enc s) 0 now ''GET'' (object_address base key) identity_encoding
      ''object request'' ''object request failed'' = Inr (answer 200 (setObjectHeaders ob) (sto_Content ob))"
    using ob by (simp add: serve_object_def)
  then show ?thesis
    using reach assms(5) served_metadata [OF assms(3,4)]
    by (simp add: S3Reader_ReadObject_def reaches_def answer_def read_limited_def served_meta_def)
qed

lemma StatObject_served:
  assumes reach: "reaches config s base" and ob: "map_of (svr_objects s) key = Some ob"
    and "metadata_ok (sto_UserMetadata ob)" and "year_ok (sto_LastModified ob)"
  shows "S3Reader_StatObject order config (s3test_client enc s) obsolete now key
    = Inr ((served_meta ob key)\<lparr>om_Size := word_of_nat (length (sto_Content ob))\<rparr>)"
proof -
  obtain r where r: "send order config (s3test_client enc s) 0 now ''HEAD'' (object_address base key) identity_encoding
      ''object metadata request'' ''object metadata request failed'' = Inr (serve_object s r key)" "s3_Method r = ''HEAD''"
    using object_served [OF reach] by blast
  then have "send order config (s3test_client enc s) 0 now ''HEAD'' (object_address base key) identity_encoding
      ''object metadata request'' ''object metadata request failed''
      = Inr ((answer 200 (setObjectHeaders ob) [])\<lparr>s3r_ContentLength := word_of_nat (length (sto_Content ob))\<rparr>)"
    using ob by (simp add: serve_object_def)
  then show ?thesis
    using reach served_metadata [OF assms(3,4)] by (simp add: S3Reader_StatObject_def reaches_def answer_def)
qed

lemma missing_object:
  assumes reach: "reaches config s base" and none: "map_of (svr_objects s) key = None"
  shows "S3Reader_ReadObject order config (s3test_client enc s) obsolete now key = Inl (classifyStatus (''read object '' @ key) 404)"
    and "S3Reader_StatObject order config (s3test_client enc s) obsolete now key = Inl (classifyStatus (''read metadata '' @ key) 404)"
proof -
  have bad: "serve_object s r key = writeXMLError 404 ''NoSuchKey'' ''The specified key does not exist.''" for r
    using none by (simp add: serve_object_def)
  obtain r where "send order config (s3test_client enc s) 0 now ''GET'' (object_address base key) identity_encoding
      ''object request'' ''object request failed'' = Inr (serve_object s r key)"
    using object_served [OF reach] by blast
  then show "S3Reader_ReadObject order config (s3test_client enc s) obsolete now key = Inl (classifyStatus (''read object '' @ key) 404)"
    using reach by (simp add: S3Reader_ReadObject_def reaches_def bad writeXMLError_def answer_def)
  obtain r where "send order config (s3test_client enc s) 0 now ''HEAD'' (object_address base key) identity_encoding
      ''object metadata request'' ''object metadata request failed'' = Inr (serve_object s r key)"
    using object_served [OF reach] by blast
  then show "S3Reader_StatObject order config (s3test_client enc s) obsolete now key = Inl (classifyStatus (''read metadata '' @ key) 404)"
    using reach by (simp add: S3Reader_StatObject_def reaches_def bad writeXMLError_def answer_def)
qed

end
