(* ===== verification/Storage_Properties.thy ===== *)
theory Storage_Properties
  imports S3_Exchange Examples
begin

text \<open>
  The properties of \<open>internal/storage\<close> beyond the sentinels: the adapter against the bucket of \<open>s3test\<close> is the
  bucket itself, the listing ends and is complete, requests reach exactly the object they name, signatures do
  not depend on the iteration order of a map, and what happens at the adapter's limits.
\<close>

section \<open>Concrete storage\<close>

definition ex_storage :: storage_config where
  "ex_storage = \<lparr>sc_Endpoint = ''http://h'', sc_Region = [], sc_Bucket = ''b'', sc_AccessKeyID = ''i'',
     sc_SecretAccessKey = ''k'', sc_SessionToken = []\<rparr>"

definition ex_bucket_url :: go_url where
  "ex_bucket_url = \<lparr>url_Scheme = ''http'', url_Opaque = [], url_User = False, url_Host = ''h'', url_Path = ''/b'',
     url_RawQuery = [], url_Fragment = []\<rparr>"

lemma ex_endpoint: "url_Parse ''http://h'' = Some \<lparr>url_Scheme = ''http'', url_Opaque = [], url_User = False,
    url_Host = ''h'', url_Path = [], url_RawQuery = [], url_Fragment = []\<rparr>"
  by (simp add: url_Parse_def Cut_def Index_def parse_reference_def getScheme_def is_letter_def byte_def is_ctl_def
      lower_char_def lower_byte_def split_query_def suffix_def parseAuthority_def LastIndex_def parseHost_def
      host_char_def is_alnum_def Let_def is_digit_def char_of_def bit_0)

lemma ex_bucket: "bucketURL (sc_Endpoint ex_storage) (sc_Bucket ex_storage) = Inr ex_bucket_url"
proof -
  have "TrimSpace ''http://h'' \<noteq> []" "TrimSpace ''b'' \<noteq> []"
    by (simp_all add: TrimSpace_def runes_ascii byte_def IsSpace_def)
  moreover have "\<not> storage_blank ''b''"
    by (simp add: storage_blank_def ContainsAny_def code_points_def runes_ascii byte_def IsSpace_def IsControl_def)
  moreover have "TrimRightByte ''http://h'' (CHR ''/'') = ''http://h''" by (simp add: TrimRightByte_def)
  ultimately show ?thesis
    unfolding bucketURL_def ex_storage_def storage_config.select_convs by (simp add: ex_endpoint ex_bucket_url_def TrimRightByte_def)
qed

lemma ex_plain: "plain_url ex_bucket_url"
  by (simp add: plain_url_def ex_bucket_url_def plain_host_def HasPrefix_def name_char_def is_alnum_def Cut_def Index_def)
     (code_simp)

lemma ex_credentials: "sc_AccessKeyID ex_storage \<noteq> []" "sc_SecretAccessKey ex_storage \<noteq> []"
  by (simp_all add: ex_storage_def)

lemma ex_reaches: "reaches ex_storage (NewServer ''b'' objects) ex_bucket_url"
  by (simp add: reaches_def ex_bucket ex_plain ex_credentials) (simp add: ex_bucket_url_def NewServer_def)

text \<open>An encoding of the pages a bucket of the server sends, so that \<open>pages_decode\<close> can hold of every bucket.\<close>

definition bucket_pages :: "s3_server \<Rightarrow> list_result list" where
  "bucket_pages s = map (\<lambda>t. the (list_result_of s t)) ([] # map EncodeToString (sorted_keys s))"

definition page_index :: "s3_server \<Rightarrow> list_result \<Rightarrow> string" where
  "page_index s r = replicate (length (takeWhile (\<lambda>p. p \<noteq> r) (bucket_pages s))) (CHR ''x'')"

definition page_at :: "s3_server \<Rightarrow> string \<Rightarrow> list_result option" where
  "page_at s body = Some (bucket_pages s ! (length body - length xml_header))"

lemma position_less: "r \<in> set xs \<Longrightarrow> length (takeWhile (\<lambda>p. p \<noteq> r) xs) < length xs"
  by (induction xs) auto

lemma bucket_pages_decode:
  assumes "length (sorted_keys s) + 100 < listBodyLimit"
  shows "pages_decode (page_index s) (page_at s) s"
proof -
  have "page_at s (xml_header @ page_index s r) = Some r \<and> length (xml_header @ page_index s r) < listBodyLimit"
    if "server_token s t" "list_result_of s t = Some r" for t r
  proof -
    have "t \<in> set ([] # map EncodeToString (sorted_keys s))" using that(1) by (auto simp: server_token_def)
    then have "the (list_result_of s t) \<in> set (bucket_pages s)" unfolding bucket_pages_def set_map by (rule imageI)
    then have mem: "r \<in> set (bucket_pages s)" by (simp add: that(2))
    let ?n = "length (takeWhile (\<lambda>p. p \<noteq> r) (bucket_pages s))"
    have n: "?n < length (bucket_pages s)" using position_less [OF mem] .
    then have "bucket_pages s ! ?n = r" using nth_length_takeWhile [of "\<lambda>p. p \<noteq> r" "bucket_pages s"] by simp
    moreover have "length xml_header < 98" by (simp add: xml_header_def)
    ultimately show ?thesis using n assms by (simp add: page_at_def page_index_def bucket_pages_def)
  qed
  then show ?thesis by (simp add: pages_decode_def)
qed

definition ex_stored :: "string \<Rightarrow> stored_object" where
  "ex_stored content = \<lparr>sto_Content = content, sto_ContentType = ''t'', sto_ContentEncoding = [], sto_CacheControl = [],
     sto_UserMetadata = [(''a'', ''1'')], sto_ETag = ''e'', sto_LastModified = ex_time\<rparr>"

definition ex_objects :: "(string \<times> stored_object) list" where
  "ex_objects = [(''r'', ex_stored ''x''), (''p'', ex_stored ''yy''), (''q'', ex_stored [])]"

lemma ex_pages:
  obtains enc dec where "pages_decode enc dec (NewServer ''b'' ex_objects)"
proof -
  have "length (sorted_keys (NewServer ''b'' ex_objects)) \<le> 3"
    using length_remdups_leq [of "map fst ex_objects"] by (simp add: sorted_keys_def NewServer_def ex_objects_def)
  then have "length (sorted_keys (NewServer ''b'' ex_objects)) + 100 < listBodyLimit" by (simp add: listBodyLimit_def)
  from bucket_pages_decode [OF this] that show thesis by blast
qed

section \<open>What a bucket is\<close>


definition stored_listing :: "string \<Rightarrow> stored_object \<Rightarrow> object_listing" where
  "stored_listing key ob = \<lparr>ol_Key = key, ol_Size = word_of_nat (length (sto_Content ob)), ol_ETag = etag_of ob,
     ol_LastModified = sto_LastModified ob\<rparr>"



lemma with_region_simps [simp]:
  "sc_Endpoint (with_region config) = sc_Endpoint config" "sc_Bucket (with_region config) = sc_Bucket config"
  "sc_AccessKeyID (with_region config) = sc_AccessKeyID config"
  "sc_SecretAccessKey (with_region config) = sc_SecretAccessKey config"
  "reaches (with_region config) s base = reaches config s base"
  by (simp_all add: with_region_def reaches_def)

lemma bucket_listing:
  "page_listings (server_entries (NewServer bucket objects)) =
     map (\<lambda>key. stored_listing key (the (map_of objects key))) (filter (\<lambda>key. key \<noteq> []) (sort (remdups (map fst objects))))"
  by (simp add: page_listings_def server_entries_def sorted_keys_def NewServer_def filter_map comp_def entry_of_def
      listing_of_def stored_listing_def Let_def)

section \<open>The adapter\<close>



text \<open>
  C21. The pagination loop ends on the test bucket and lists each stored key that is not empty once, in order,
  whatever the bucket holds and however its objects were inserted.
\<close>

theorem listing_terminates:
  assumes "reaches config (NewServer bucket objects) base" and "pages_decode enc dec (NewServer bucket objects)"
  shows "\<exists>listing. S3Reader_ListObjects order config (s3test_client enc (NewServer bucket objects)) dec now = Some (Inr listing) \<and>
    sorted (map ol_Key listing) \<and> distinct (map ol_Key listing) \<and> set (map ol_Key listing) = fst ` set objects - {[]}"
proof -
  let ?keys = "filter (\<lambda>key. key \<noteq> []) (sort (remdups (map fst objects)))"
  have keys: "map ol_Key (page_listings (server_entries (NewServer bucket objects))) = ?keys"
    by (simp add: bucket_listing stored_listing_def comp_def)
  have "sorted ?keys" "distinct ?keys" "set ?keys = fst ` set objects - {[]}" by (auto simp: sorted_wrt_filter)
  then show ?thesis
    unfolding keys [symmetric] listing_complete [OF assms] by blast
qed

theorem listing_terminates_witness:
  "\<exists>enc dec listing. S3Reader_ListObjects rev ex_storage (s3test_client enc (NewServer ''b'' ex_objects)) dec (\<lambda>n. ex_time) =
     Some (Inr listing) \<and> map ol_Key listing = [''p'', ''q'', ''r'']"
proof -
  obtain enc dec where pages: "pages_decode enc dec (NewServer ''b'' ex_objects)" by (rule ex_pages)
  obtain listing where l: "S3Reader_ListObjects rev ex_storage (s3test_client enc (NewServer ''b'' ex_objects)) dec (\<lambda>n. ex_time) =
      Some (Inr listing)" "sorted (map ol_Key listing)" "distinct (map ol_Key listing)" "set (map ol_Key listing) = fst ` set ex_objects - {[]}"
    using listing_terminates [OF ex_reaches pages] by blast
  have "set (map ol_Key listing) = set [''p'', ''q'', ''r'']" unfolding l(4) by (auto simp: ex_objects_def)
  moreover have "sorted [''p'', ''q'', ''r'']" by code_simp
  ultimately have "map ol_Key listing = [''p'', ''q'', ''r'']"
    using l(2,3) by (intro sorted_distinct_set_unique) simp_all
  with l(1) show ?thesis by (intro exI [of _ enc] exI [of _ dec] exI [of _ listing]) simp
qed

text \<open>
  The loop relies on the provider for that: one that answers every listing request with the same truncated
  page is followed for ever, and the listing never returns, not even with an error.
\<close>

theorem listing_follows_repeated_token:
  assumes "bucketURL (sc_Endpoint config) (sc_Bucket config) = Inr base" and "plain_url base"
    and "sc_AccessKeyID config \<noteq> []" and "sc_SecretAccessKey config \<noteq> []"
    and "\<And>n r. client n r = Inr (answer 200 [] body)" and "length body < listBodyLimit"
    and "decode body = Some page" and "lr_IsTruncated page" and "lr_NextContinuationToken page \<noteq> []"
  shows "S3Reader_ListObjects order config client decode now = None"
proof -
  have "list_page order config client decode now base n t = Inr page" for n t
  proof -
    let ?u = "base\<lparr>url_RawQuery := Values_Encode (list_query t)\<rparr>"
    have "plain_url ?u" using assms(2) Values_Encode_chars by (simp add: plain_url_def)
    then have "send order config client n (now n) ''GET'' (url_String ?u) id ''listing request'' ''listing request failed''
        = Inr (answer 200 [] body)"
      using send_reaches [OF assms(3,4), of ?u order client n "now n" "''GET''" id] by (auto simp: assms(5))
    then show ?thesis using assms(6,7) by (simp add: list_page_def answer_def read_limited_def)
  qed
  from repeating_token_diverges [OF this assms(8,9)] show ?thesis
    by (simp add: S3Reader_ListObjects_def assms(1))
qed

theorem listing_follows_repeated_token_witness:
  "S3Reader_ListObjects rev ex_storage (\<lambda>n r. Inr (answer 200 [] ''page''))
     (\<lambda>body. Some \<lparr>lr_IsTruncated = True, lr_NextContinuationToken = ''t'', lr_Contents = []\<rparr>) (\<lambda>n. ex_time) = None"
  by (rule listing_follows_repeated_token [where body = "''page''" and
      page = "\<lparr>lr_IsTruncated = True, lr_NextContinuationToken = ''t'', lr_Contents = []\<rparr>",
      OF ex_bucket ex_plain ex_credentials]) (simp_all add: listBodyLimit_def)

section \<open>Requests\<close>

lemma object_plain: "plain_url base \<Longrightarrow> plain_url (base\<lparr>url_Path := url_Path base @ ''/'' @ key\<rparr>)"
  by (simp add: plain_url_def HasPrefix_def)

text \<open>
  The request for an object goes to the bucket's host and exactly to the path of the key, whatever bytes the
  key contains: escaping the path into an address and parsing the address in \<open>http.NewRequest\<close> is the identity,
  so no key can address another object, another bucket or a query, and two keys never share an address.
\<close>

theorem object_request_exact:
  assumes "plain_url base"
  shows "NewRequest m (object_address base key) = Inr \<lparr>s3_Method = m,
      s3_URL = base\<lparr>url_Path := url_Path base @ ''/'' @ key\<rparr>, s3_Host = url_Host base, s3_Header = no_header\<rparr> \<and>
    (object_address base key = object_address base key' \<longleftrightarrow> key = key')"
proof -
  note parsed = url_roundtrip [OF object_plain [OF assms]]
  have "key = key'" if "object_address base key = object_address base key'"
  proof -
    have "base\<lparr>url_Path := url_Path base @ ''/'' @ key\<rparr> = base\<lparr>url_Path := url_Path base @ ''/'' @ key'\<rparr>"
      using that parsed [of key] parsed [of key'] by (simp add: object_address_def)
    then have "url_Path (base\<lparr>url_Path := url_Path base @ ''/'' @ key\<rparr>) = url_Path (base\<lparr>url_Path := url_Path base @ ''/'' @ key'\<rparr>)"
      by (rule arg_cong)
    then show ?thesis by simp
  qed
  then show ?thesis
    using NewRequest_plain [OF object_plain [OF assms], of m key] by (auto simp: object_address_def)
qed

theorem object_request_exact_witness:
  "\<exists>r. NewRequest ''GET'' (object_address ex_bucket_url ''../c?x=%2e #/'') = Inr r \<and> url_Path (s3_URL r) = ''/b/../c?x=%2e #/'' \<and>
     url_RawQuery (s3_URL r) = []"
  using object_request_exact [OF ex_plain, of "''GET''" "''../c?x=%2e #/''"] by (simp add: ex_bucket_url_def)

text \<open>
  Signing and the connectivity check are deterministic although \<open>canonicalHeaders\<close> ranges over a Go map:
  whatever order the iteration takes, the exchange sort gives the same signed request and the same status.
\<close>

theorem signature_ignores_map_order:
  assumes "\<And>es. mset (order es) = mset es" and "\<And>es. mset (order' es) = mset es"
  shows "signRequest order config now r = signRequest order' config now r \<and>
    Check order config client now = Check order' config client now"
  using signRequest_order [OF assms(1)] signRequest_order [OF assms(2)] Check_order [OF assms(1)] Check_order [OF assms(2)]
  by simp

definition ex_s3_request :: s3_request where
  "ex_s3_request = \<lparr>s3_Method = ''GET'', s3_URL = ex_bucket_url, s3_Host = ''h'', s3_Header = no_header\<rparr>"

theorem signature_ignores_map_order_witness:
  "signRequest rev ex_storage ex_time ex_s3_request = signRequest (\<lambda>es. es) ex_storage ex_time ex_s3_request \<and>
   Check rev ex_storage (\<lambda>n r. Inl ErrStorageUnavailable) ex_time = Check (\<lambda>es. es) ex_storage (\<lambda>n r. Inl ErrStorageUnavailable) ex_time"
  by (rule signature_ignores_map_order) simp_all

text \<open>
  The connectivity check and the reader agree: on an answered \<open>HEAD\<close> of the bucket the check reports
  reachable for the 2xx codes, unavailable exactly for the codes that the reader classifies as
  \<open>ErrStorageUnavailable\<close>, and misconfigured for those it classifies as missing or misconfigured.
\<close>

theorem Check_agrees_with_reader:
  assumes "bucketURL (sc_Endpoint config) (sc_Bucket config) = Inr base" and "plain_url base"
    and "sc_AccessKeyID config \<noteq> []" and "sc_SecretAccessKey config \<noteq> []"
    and "\<And>r. s3_Method r = ''HEAD'' \<Longrightarrow> s3_URL r = base \<Longrightarrow> client 0 r = Inr response"
  shows "Check order config client now =
    (let n = s3r_StatusCode response in
     if n \<in> {200..299} then StatusReachable
     else if errors_Is (classifyStatus what n) ErrStorageUnavailable then StatusUnavailable
     else StatusMisconfigured)"
proof -
  let ?r = "\<lparr>s3_Method = ''HEAD'', s3_URL = base, s3_Host = url_Host base, s3_Header = no_header\<rparr>"
  obtain r' where r': "signRequest order config now ?r = Inr r'" "s3_Method r' = ''HEAD''" "s3_URL r' = base"
    using signed_request [OF assms(3,4), of order now ?r] by auto
  have "client 0 r' = Inr response" by (rule assms(5) [OF r'(2,3)])
  moreover have "errors_Is (classifyStatus what n) ErrStorageUnavailable \<longleftrightarrow> n \<in> {408, 429} \<or> 500 \<le> n" for n
    by (auto simp: classifyStatus_sentinel)
  ultimately show ?thesis
    using assms(3,4) r'(1) by (simp add: Check_def assms(1) NewRequest_plain [OF assms(2)] check_status_def Let_def)
qed

theorem Check_agrees_with_reader_witness:
  "Check rev ex_storage (\<lambda>n r. Inr (answer 503 [] [])) ex_time = StatusUnavailable"
  using Check_agrees_with_reader [OF ex_bucket ex_plain ex_credentials, of "\<lambda>n r. Inr (answer 503 [] [])" "answer 503 [] []" rev ex_time "[]"]
  by (simp add: answer_def classifyStatus_sentinel)

section \<open>Limits and failures of a body\<close>

text \<open>
  C39. An object of 2^30 bytes or more is read without an error, as its first 2^30 bytes: the reported size is
  2^30 and the digest is that of the prefix, also when the body fails later.
\<close>

theorem ReadObject_truncates:
  assumes "bucketURL (sc_Endpoint config) (sc_Bucket config) = Inr base" and "plain_url base"
    and "sc_AccessKeyID config \<noteq> []" and "sc_SecretAccessKey config \<noteq> []"
    and "\<And>r. client 0 r = Inr response" and "s3r_StatusCode response = 200" and "objectBodyLimit \<le> length (s3r_Body response)"
  shows "\<exists>content. S3Reader_ReadObject order config client obsolete now key = Inr content \<and>
    oc_Size content = 2 ^ 30 \<and> oc_SHA256 content = sha256_hex (take (2 ^ 30) (s3r_Body response))"
proof -
  let ?u = "base\<lparr>url_Path := url_Path base @ ''/'' @ key\<rparr>"
  have "send order config client 0 now ''GET'' (url_String ?u) identity_encoding ''object request'' ''object request failed'' = Inr response"
    using send_reaches [where order = order and client = client and n = 0 and now = now and m = "''GET''" and extra = identity_encoding,
      OF assms(3,4) object_plain [OF assms(2), of key]]
    by (auto simp: assms(5))
  moreover have "length (take objectBodyLimit (s3r_Body response)) = objectBodyLimit" using assms(7) by simp
  moreover have "(word_of_nat objectBodyLimit :: int64) = 2 ^ 30" "objectBodyLimit = 2 ^ 30" by (simp_all add: objectBodyLimit_def)
  ultimately show ?thesis
    using assms(6) by (simp add: S3Reader_ReadObject_def assms(1) object_address_def read_limited_def Let_def)
qed

definition ex_large :: string where
  "ex_large = replicate (Suc objectBodyLimit) (CHR ''x'')"

lemma ex_large_length: "length ex_large = Suc objectBodyLimit"
  unfolding ex_large_def by (rule length_replicate)

theorem ReadObject_truncates_witness:
  "\<exists>content. S3Reader_ReadObject rev ex_storage (\<lambda>n r. Inr (answer 200 [] ex_large)) (\<lambda>s. None) ex_time ''k'' = Inr content \<and>
     oc_Size content = 2 ^ 30 \<and> length ex_large = 2 ^ 30 + 1"
proof -
  have "s3r_StatusCode (answer 200 [] ex_large) = 200" "objectBodyLimit \<le> length (s3r_Body (answer 200 [] ex_large))"
    by (simp_all add: answer_def ex_large_length)
  from ReadObject_truncates [OF ex_bucket ex_plain ex_credentials refl this, of rev "\<lambda>s. None" ex_time "''k''"]
  show ?thesis by (auto simp: ex_large_length objectBodyLimit_def)
qed

text \<open>
  A listing answered with 200 whose body breaks off is an error, but the wrong one: it is reported as
  \<open>ErrStorageMisconfigured\<close> and not as \<open>ErrStorageUnavailable\<close>, which the same failure gives for an object's body.
\<close>

theorem broken_listing_is_misconfigured:
  assumes "bucketURL (sc_Endpoint config) (sc_Bucket config) = Inr base" and "plain_url base"
    and "sc_AccessKeyID config \<noteq> []" and "sc_SecretAccessKey config \<noteq> []"
    and "\<And>r. client 0 r = Inr response" and "s3r_StatusCode response = 200"
    and "s3r_BodyError response = Some failure" and "length (s3r_Body response) < listBodyLimit"
  shows "(\<exists>err. S3Reader_ListObjects order config client decode now = Some (Inl err) \<and>
      errors_Is err ErrStorageMisconfigured \<and> \<not> errors_Is err ErrStorageUnavailable) \<and>
    (\<exists>err. S3Reader_ReadObject order config client obsolete (now 0) key = Inl err \<and> errors_Is err ErrStorageUnavailable)"
proof -
  let ?u = "base\<lparr>url_RawQuery := Values_Encode (list_query [])\<rparr>" and ?k = "base\<lparr>url_Path := url_Path base @ ''/'' @ key\<rparr>"
  have "plain_url ?u" using assms(2) Values_Encode_chars by (simp add: plain_url_def)
  then have "send order config client 0 (now 0) ''GET'' (url_String ?u) id ''listing request'' ''listing request failed'' = Inr response"
    using send_reaches [OF assms(3,4), of ?u order client 0 "now 0" "''GET''" id] by (auto simp: assms(5))
  then have page: "list_page order config client decode now base 0 [] = Inl (classifyStatus ''list objects'' 200)"
    using assms(6-8) by (simp add: list_page_def read_limited_def)
  have list: "S3Reader_ListObjects order config client decode now = Some (Inl (classifyStatus ''list objects'' 200))"
    by (simp add: S3Reader_ListObjects_def assms(1) list_loop.simps page)
  have "send order config client 0 (now 0) ''GET'' (url_String ?k) identity_encoding ''object request'' ''object request failed'' = Inr response"
    using send_reaches [where order = order and client = client and n = 0 and now = "now 0" and m = "''GET''" and extra = identity_encoding,
      OF assms(3,4) object_plain [OF assms(2), of key]]
    by (auto simp: assms(5))
  moreover have "length (s3r_Body response) < objectBodyLimit" using assms(8) by (simp add: listBodyLimit_def objectBodyLimit_def)
  ultimately have "S3Reader_ReadObject order config client obsolete (now 0) key = Inl (unavailable ''reading object body failed'')"
    using assms(6,7) by (simp add: S3Reader_ReadObject_def assms(1) object_address_def read_limited_def)
  then show ?thesis
    unfolding list by (simp add: classifyStatus_sentinel unavailable_def)
qed

theorem broken_listing_is_misconfigured_witness:
  "\<exists>err. S3Reader_ListObjects rev ex_storage (\<lambda>n r. Inr ((answer 200 [] ''x'')\<lparr>s3r_BodyError := Some ErrStorageUnavailable\<rparr>))
     (\<lambda>body. None) (\<lambda>n. ex_time) = Some (Inl err) \<and> errors_Is err ErrStorageMisconfigured"
proof -
  let ?a = "(answer 200 [] ''x'')\<lparr>s3r_BodyError := Some ErrStorageUnavailable\<rparr>"
  have "s3r_StatusCode ?a = 200" "s3r_BodyError ?a = Some ErrStorageUnavailable" "length (s3r_Body ?a) < listBodyLimit"
    by (simp_all add: answer_def listBodyLimit_def)
  from broken_listing_is_misconfigured [OF ex_bucket ex_plain ex_credentials refl this, of rev "\<lambda>body. None" "\<lambda>n. ex_time"]
  show ?thesis by blast
qed

end
