(* ===== verification/Migrations.thy ===== *)
theory Migrations
  imports Config Sha256
begin

text \<open>
  \<open>internal/catalog/catalog.go\<close>: the embedded migrations, the recorded history of a catalog, the migration
  command and the verification a runtime makes when it opens a catalog. A \<open>database\<close> holds the schema, of an
  abstract type, the rows of \<open>schema_migrations\<close> (\<open>None\<close> before the table exists) and \<open>user_version\<close>. What
  the embedded files are, what running their SQL does to a database (\<open>run\<close>), which statement of a migration's
  transaction fails in the driver (\<open>fault\<close>) and the answer of \<open>PRAGMA quick_check\<close> are parameters. The lock
  that \<open>Migrate\<close> takes is the one of theory \<open>Catalog_Lock\<close>; here it is granted or refused. Of the errors that
  several rows of a history may deserve, Go's map order picks one; the model takes the first.
\<close>

section \<open>Embedded migrations\<close>

record embedded_file =
  ef_Name :: string
  ef_IsDir :: bool
  ef_Content :: string

record migration =
  mg_Version :: int
  mg_Name :: string
  mg_Checksum :: string
  mg_SQL :: string

text \<open>\<open>strconv.Atoi\<close>.\<close>
definition Atoi :: "string \<Rightarrow> int option" where
  "Atoi s = map_option sint (ParseInt64 s)"

definition migration_of :: "embedded_file \<Rightarrow> migration res" where
  "migration_of f = (case Atoi (takeWhile (\<lambda>c. c \<noteq> CHR ''_'') (ef_Name f)) of
       None \<Rightarrow> Inl (Errorf ''migration file %q must start with a numeric version'' [ef_Name f])
     | Some v \<Rightarrow> Inr \<lparr>mg_Version = v, mg_Name = ef_Name f, mg_Checksum = sha256_hex (ef_Content f),
         mg_SQL = ef_Content f\<rparr>)"

definition Migrations :: "embedded_file list \<Rightarrow> migration list res" where
  "Migrations files =
     bind_res (map_res migration_of (filter (\<lambda>f. \<not> ef_IsDir f \<and> HasSuffix (ef_Name f) ''.sql'') files))
       (\<lambda>ms. Inr (sort_key mg_Version ms))"

definition LatestVersion :: "embedded_file list \<Rightarrow> int res" where
  "LatestVersion files = bind_res (Migrations files) (\<lambda>ms.
     if ms = [] then Inl (Errorf ''no embedded migrations found'' []) else Inr (mg_Version (last ms)))"

definition SupportedSchemaRange :: "embedded_file list \<Rightarrow> string" where
  "SupportedSchemaRange files = (case LatestVersion files of Inl e \<Rightarrow> ''unknown'' | Inr v \<Rightarrow> Itoa v)"

section \<open>A catalog's history\<close>

record applied_migration =
  am_Version :: int
  am_Checksum :: string

record history_row =
  hr_version :: int
  hr_name :: string
  hr_checksum :: string

record 's database =
  db_schema :: 's
  db_history :: "history_row list option"
  db_user_version :: int

text \<open>The query's error is not modelled further; a table that does not exist is an empty history.\<close>
definition readAppliedMigrations :: "bool \<Rightarrow> 's database \<Rightarrow> applied_migration list res" where
  "readAppliedMigrations fails db =
     (if fails then Inl (Errorf ''read schema history: %w'' [])
      else Inr (case db_history db of None \<Rightarrow> []
        | Some rows \<Rightarrow> map (\<lambda>r. \<lparr>am_Version = hr_version r, am_Checksum = hr_checksum r\<rparr>) rows))"

definition verify_record :: "embedded_file list \<Rightarrow> migration list \<Rightarrow> applied_migration \<Rightarrow> error option" where
  "verify_record files migrations a =
     (case index_by mg_Version migrations (am_Version a) of
        None \<Rightarrow> Some (Errorf ''catalog schema version %d is newer than this binary supports (compatible range: %s)''
          [Itoa (am_Version a), SupportedSchemaRange files])
      | Some m \<Rightarrow> fail_if (am_Checksum a \<noteq> mg_Checksum m)
          (Errorf ''catalog schema migration %03d does not match this binary's checksum'' [Itoa (am_Version a)]))"

definition verifyKnownHistory :: "embedded_file list \<Rightarrow> applied_migration list \<Rightarrow> migration list \<Rightarrow> error option" where
  "verifyKnownHistory files applied migrations =
     and_then (each_err (verify_record files migrations) applied)
       (each_err (\<lambda>i. fail_if (i \<notin> am_Version ` set applied)
          (Errorf ''catalog schema is partially applied: migration %03d is missing between applied migrations'' [Itoa i]))
          [1..int (length applied)])"

section \<open>Migrating\<close>

definition insert_history :: "migration \<Rightarrow> 's database \<Rightarrow> 's database res" where
  "insert_history m db = (case db_history db of
       None \<Rightarrow> Inl (Errorf ''no such table: schema_migrations'' [])
     | Some rows \<Rightarrow>
         if mg_Version m \<in> hr_version ` set rows then Inl (Errorf ''UNIQUE constraint failed'' [])
         else Inr (db\<lparr>db_history := Some (rows @
           [\<lparr>hr_version = mg_Version m, hr_name = mg_Name m, hr_checksum = mg_Checksum m\<rparr>])\<rparr>))"

definition driver_fails :: "bool \<Rightarrow> 'a res \<Rightarrow> 'a res" where
  "driver_fails b r = (if b then Inl (Errorf ''catalog driver error'' []) else r)"

text \<open>One transaction: begin, the file's SQL, the history row, the version, commit.\<close>
definition applyMigration :: "(string \<Rightarrow> 's database \<Rightarrow> 's database res) \<Rightarrow> (nat \<Rightarrow> bool) \<Rightarrow> migration \<Rightarrow>
    's database \<Rightarrow> 's database res" where
  "applyMigration run fault m db =
     bind_res (driver_fails (fault 0) (Inr db)) (\<lambda>db.
     bind_res (driver_fails (fault 1) (run (mg_SQL m) db)) (\<lambda>db.
     bind_res (driver_fails (fault 2) (insert_history m db)) (\<lambda>db.
     bind_res (driver_fails (fault 3) (Inr (db\<lparr>db_user_version := mg_Version m\<rparr>))) (\<lambda>db.
       driver_fails (fault 4) (Inr db)))))"

text \<open>The loop over the migrations: the steps already recorded are skipped, a failure keeps those before it.\<close>
fun apply_pending :: "(string \<Rightarrow> 's database \<Rightarrow> 's database res) \<Rightarrow> (int \<Rightarrow> nat \<Rightarrow> bool) \<Rightarrow> int set \<Rightarrow> migration list \<Rightarrow>
    's database \<Rightarrow> error option \<times> 's database" where
  "apply_pending run fault done [] db = (None, db)"
| "apply_pending run fault done (m # ms) db =
     (if mg_Version m \<in> done then apply_pending run fault done ms db
      else case applyMigration run (fault (mg_Version m)) m db of
        Inl e \<Rightarrow> (Some (Wrapf ''apply migration %03d (%s): %w'' [Itoa (mg_Version m), mg_Name m] e), db)
      | Inr db \<Rightarrow> apply_pending run fault done ms db)"

record migrate_env =
  me_Lock :: "error option"
  me_Open :: "error option"
  me_ReadFails :: bool
  me_Fault :: "int \<Rightarrow> nat \<Rightarrow> bool"

text \<open>\<open>from\<close>, \<open>to\<close> and the error, with the database afterwards.\<close>
definition Migrate :: "embedded_file list \<Rightarrow> (string \<Rightarrow> 's database \<Rightarrow> 's database res) \<Rightarrow> migrate_env \<Rightarrow> 's database \<Rightarrow>
    (nat \<times> nat \<times> error option) \<times> 's database" where
  "Migrate files run e db =
     (case me_Lock e of Some err \<Rightarrow> ((0, 0, Some err), db) | None \<Rightarrow>
     (case Migrations files of Inl err \<Rightarrow> ((0, 0, Some err), db) | Inr migrations \<Rightarrow>
     (case me_Open e of Some err \<Rightarrow> ((0, 0, Some err), db) | None \<Rightarrow>
     (case readAppliedMigrations (me_ReadFails e) db of Inl err \<Rightarrow> ((0, 0, Some err), db) | Inr applied \<Rightarrow>
     (case verifyKnownHistory files applied migrations of
        Some err \<Rightarrow> ((length applied, 0, Some err), db)
      | None \<Rightarrow>
          (case apply_pending run (me_Fault e) (am_Version ` set applied) migrations db of
             (Some err, db) \<Rightarrow> ((length applied, 0, Some err), db)
           | (None, db) \<Rightarrow> ((length applied, length migrations, None), db)))))))"

section \<open>Opening\<close>

record open_env =
  oe_Open :: "error option"
  oe_VersionFails :: bool
  oe_ReadFails :: bool
  oe_QuickCheck :: "string res"

definition verifySchema :: "embedded_file list \<Rightarrow> open_env \<Rightarrow> 's database \<Rightarrow> error option" where
  "verifySchema files e db =
     (if oe_VersionFails e then Some (Errorf ''read catalog schema version: %w'' [])
      else case LatestVersion files of Inl err \<Rightarrow> Some err | Inr latest \<Rightarrow>
     (case readAppliedMigrations (oe_ReadFails e) db of Inl err \<Rightarrow> Some err | Inr applied \<Rightarrow>
     (case Migrations files of Inl err \<Rightarrow> Some err | Inr migrations \<Rightarrow>
      if db_user_version db = 0 \<and> applied = []
      then Some (Errorf ''catalog is not initialized; run the migration command first (compatible schema: %s)''
        [SupportedSchemaRange files])
      else if db_user_version db \<noteq> latest \<or> length applied \<noteq> length migrations
      then and_then (verifyKnownHistory files applied migrations)
        (Some (Errorf ''catalog schema version %d does not match this binary (compatible schema: %s); run the migration command''
          [Itoa (db_user_version db), SupportedSchemaRange files]))
      else and_then (verifyKnownHistory files applied migrations)
        (fail_if (oe_QuickCheck e \<noteq> Inr ''ok'') (Errorf ''catalog integrity check failed'' [])))))"

definition OpenRuntime :: "embedded_file list \<Rightarrow> open_env \<Rightarrow> string \<Rightarrow> 's database \<Rightarrow> error option" where
  "OpenRuntime files e path db =
     and_then (fail_if (TrimSpace path = []) (Errorf ''catalog path must not be empty'' []))
    (and_then (oe_Open e) (verifySchema files e db))"

section \<open>Histories that a binary accepts\<close>

text \<open>The embedded files of a release: numbered from one, without gaps.\<close>
definition numbered :: "migration list \<Rightarrow> bool" where
  "numbered ms \<longleftrightarrow> ms \<noteq> [] \<and> map mg_Version ms = [1..int (length ms)]"

definition recorded_step :: "migration \<Rightarrow> history_row" where
  "recorded_step m = \<lparr>hr_version = mg_Version m, hr_name = mg_Name m, hr_checksum = mg_Checksum m\<rparr>"

text \<open>A recorded history that names exactly the first \<open>k\<close> migrations with their checksums.\<close>
definition known_prefix :: "migration list \<Rightarrow> applied_migration list \<Rightarrow> bool" where
  "known_prefix ms applied \<longleftrightarrow> length applied \<le> length ms \<and>
     am_Version ` set applied = {1..int (length applied)} \<and>
     (\<forall>a \<in> set applied. am_Checksum a = mg_Checksum (ms ! nat (am_Version a - 1)))"

lemma numbered_nth: "numbered ms \<Longrightarrow> i < length ms \<Longrightarrow> mg_Version (ms ! i) = int i + 1"
proof -
  assume n: "numbered ms" and i: "i < length ms"
  then have "mg_Version (ms ! i) = map mg_Version ms ! i" by simp
  also have "\<dots> = [1..int (length ms)] ! i" using n by (simp add: numbered_def)
  also have "\<dots> = 1 + int i" using i by (simp add: nth_upto)
  finally show ?thesis by simp
qed

lemma numbered_distinct: "numbered ms \<Longrightarrow> distinct (map mg_Version ms)"
  by (simp add: numbered_def)

lemma numbered_index:
  assumes "numbered ms"
  shows "index_by mg_Version ms v = (if 1 \<le> v \<and> v \<le> int (length ms) then Some (ms ! nat (v - 1)) else None)"
proof (cases "1 \<le> v \<and> v \<le> int (length ms)")
  case True
  then have i: "nat (v - 1) < length ms" by linarith
  have "mg_Version (ms ! nat (v - 1)) = v" using numbered_nth [OF assms i] True by simp
  moreover have "ms ! nat (v - 1) \<in> set ms" using i by simp
  ultimately show ?thesis using True index_by_distinct [OF numbered_distinct [OF assms]] by fastforce
next
  case False
  have "v \<notin> mg_Version ` set ms"
  proof -
    have "set (map mg_Version ms) = {1..int (length ms)}" using assms by (simp add: numbered_def)
    then show ?thesis using False by auto
  qed
  then have "index_by mg_Version ms v = None" by (simp add: index_by_None)
  then show ?thesis using False by simp
qed

lemma verify_record_None:
  assumes "numbered ms"
  shows "verify_record files ms a = None \<longleftrightarrow>
    1 \<le> am_Version a \<and> am_Version a \<le> int (length ms) \<and> am_Checksum a = mg_Checksum (ms ! nat (am_Version a - 1))"
  by (auto simp: verify_record_def numbered_index [OF assms])

text \<open>A history of distinct versions passes exactly when it is a prefix of the embedded migrations.\<close>

lemma verifyKnownHistory_iff:
  assumes "numbered ms" and "distinct (map am_Version applied)"
  shows "verifyKnownHistory files applied ms = None \<longleftrightarrow> known_prefix ms applied"
proof -
  let ?V = "am_Version ` set applied" and ?n = "int (length applied)"
  have card: "card ?V = length applied" using assms(2) by (metis distinct_card length_map set_map)
  have "finite ?V" by simp
  have full: "{1..?n} \<subseteq> ?V \<longleftrightarrow> ?V = {1..?n}"
  proof
    assume "{1..?n} \<subseteq> ?V"
    moreover have "card {1..?n} = card ?V" using card by simp
    ultimately show "?V = {1..?n}" using \<open>finite ?V\<close> by (metis card_subset_eq)
  qed simp
  have "verifyKnownHistory files applied ms = None \<longleftrightarrow>
      (\<forall>a \<in> set applied. 1 \<le> am_Version a \<and> am_Version a \<le> int (length ms) \<and>
        am_Checksum a = mg_Checksum (ms ! nat (am_Version a - 1))) \<and> {1..?n} \<subseteq> ?V"
    by (auto simp: verifyKnownHistory_def each_err_None verify_record_None [OF assms(1)] subset_iff)
  also have "\<dots> \<longleftrightarrow> known_prefix ms applied"
  proof
    assume l: "(\<forall>a \<in> set applied. 1 \<le> am_Version a \<and> am_Version a \<le> int (length ms) \<and>
        am_Checksum a = mg_Checksum (ms ! nat (am_Version a - 1))) \<and> {1..?n} \<subseteq> ?V"
    have "length applied \<le> length ms"
    proof (cases applied)
      case (Cons a as)
      then have "?n \<in> ?V" using l full by auto
      then show ?thesis using l by auto
    qed simp
    then show "known_prefix ms applied" using l full by (simp add: known_prefix_def)
  next
    assume k: "known_prefix ms applied"
    have "1 \<le> am_Version a \<and> am_Version a \<le> int (length ms)" if "a \<in> set applied" for a
    proof -
      have "am_Version a \<in> {1..?n}" using k that by (auto simp: known_prefix_def)
      then show ?thesis using k by (auto simp: known_prefix_def)
    qed
    then show "(\<forall>a \<in> set applied. 1 \<le> am_Version a \<and> am_Version a \<le> int (length ms) \<and>
        am_Checksum a = mg_Checksum (ms ! nat (am_Version a - 1))) \<and> {1..?n} \<subseteq> ?V"
      using k by (simp add: known_prefix_def)
  qed
  finally show ?thesis .
qed

section \<open>Catalogs between two migrations\<close>

definition applied_of :: "'s database \<Rightarrow> applied_migration list" where
  "applied_of db = (case db_history db of None \<Rightarrow> []
     | Some rows \<Rightarrow> map (\<lambda>r. \<lparr>am_Version = hr_version r, am_Checksum = hr_checksum r\<rparr>) rows)"

lemma readAppliedMigrations_applied: "readAppliedMigrations False db = Inr (applied_of db)"
  by (simp add: readAppliedMigrations_def applied_of_def)

text \<open>The primary key of \<open>schema_migrations\<close>.\<close>
definition history_keys :: "'s database \<Rightarrow> bool" where
  "history_keys db \<longleftrightarrow> distinct (map am_Version (applied_of db))"

text \<open>The catalog has the first \<open>k\<close> migrations, and its version says so.\<close>
definition catalog_at :: "migration list \<Rightarrow> nat \<Rightarrow> 's database \<Rightarrow> bool" where
  "catalog_at ms k db \<longleftrightarrow> history_keys db \<and> known_prefix ms (applied_of db) \<and> length (applied_of db) = k \<and>
     db_user_version db = int k"

text \<open>
  What the files' SQL does to the history: the first one creates the table, empty, and none of them writes
  rows into it or sets the version.
\<close>
definition keeps_history :: "(string \<Rightarrow> 's database \<Rightarrow> 's database res) \<Rightarrow> migration list \<Rightarrow> bool" where
  "keeps_history run ms \<longleftrightarrow> (\<forall>m \<in> set ms. \<forall>db db'. run (mg_SQL m) db = Inr db' \<longrightarrow>
     db_user_version db' = db_user_version db \<and>
     db_history db' = (case db_history db of None \<Rightarrow> (if m = hd ms then Some [] else None) | Some rows \<Rightarrow> Some rows))"

text \<open>What a fresh catalog or one that a runtime accepts looks like to \<open>OpenRuntime\<close>.\<close>

lemma LatestVersion_numbered:
  assumes "Migrations files = Inr ms" and "numbered ms"
  shows "LatestVersion files = Inr (int (length ms))"
proof -
  have ne: "ms \<noteq> []" using assms(2) by (simp add: numbered_def)
  then have "mg_Version (last ms) = int (length ms)"
    using numbered_nth [OF assms(2), of "length ms - 1"] by (simp add: last_conv_nth of_nat_diff Suc_leI)
  then show ?thesis using assms(1) ne by (simp add: LatestVersion_def)
qed

definition quiet_open :: "open_env \<Rightarrow> bool" where
  "quiet_open e \<longleftrightarrow> oe_Open e = None \<and> \<not> oe_VersionFails e \<and> \<not> oe_ReadFails e"

lemma OpenRuntime_iff:
  assumes files: "Migrations files = Inr ms" and num: "numbered ms" and keys: "history_keys db" and "quiet_open e"
  shows "OpenRuntime files e path db = None \<longleftrightarrow>
    TrimSpace path \<noteq> [] \<and> catalog_at ms (length ms) db \<and> oe_QuickCheck e = Inr ''ok''"
proof -
  have ne: "ms \<noteq> []" using num by (simp add: numbered_def)
  have "verifySchema files e db = None \<longleftrightarrow> catalog_at ms (length ms) db \<and> oe_QuickCheck e = Inr ''ok''"
    using assms ne verifyKnownHistory_iff [OF num keys [unfolded history_keys_def], of files]
    by (auto simp: verifySchema_def quiet_open_def LatestVersion_numbered [OF files num] readAppliedMigrations_applied
        catalog_at_def)
  then show ?thesis using assms(4) by (simp add: OpenRuntime_def quiet_open_def)
qed

text \<open>One step.\<close>

lemma applyMigration_step:
  assumes num: "numbered ms" and keep: "keeps_history run ms" and at: "catalog_at ms k db" and k: "k < length ms"
    and ok: "applyMigration run fault (ms ! k) db = Inr db'"
  shows "catalog_at ms (Suc k) db'"
proof -
  let ?m = "ms ! k"
  obtain db1 rows where run: "run (mg_SQL ?m) db = Inr db1" and rows1: "db_history db1 = Some rows"
    and db': "db' = db1\<lparr>db_history := Some (rows @ [recorded_step ?m]), db_user_version := mg_Version ?m\<rparr>"
    using ok by (auto simp: applyMigration_def driver_fails_def insert_history_def recorded_step_def res_iff
      split: if_splits option.splits)
  have version: "mg_Version ?m = int k + 1" using numbered_nth [OF num k] .
  have mem: "?m \<in> set ms" using k by simp
  have first: "?m = hd ms \<longleftrightarrow> k = 0"
    using numbered_nth [OF num, of 0] version k by (cases ms) (auto simp: hd_conv_nth)
  have rows: "db_history db1 = Some rows" "db_history db' = Some (rows @ [recorded_step ?m])"
    using rows1 db' by simp_all
  have keep1: "db_history db1 = (case db_history db of None \<Rightarrow> (if ?m = hd ms then Some [] else None) | Some rows \<Rightarrow> Some rows)"
    using keep mem run by (simp add: keeps_history_def)
  have same: "applied_of db1 = applied_of db"
    using keep1 rows by (auto simp: applied_of_def split: option.splits if_splits)
  have new: "applied_of db' = applied_of db @ [\<lparr>am_Version = int k + 1, am_Checksum = mg_Checksum ?m\<rparr>]"
    using rows same version by (simp add: applied_of_def recorded_step_def)
  have old: "distinct (map am_Version (applied_of db))" "length (applied_of db) = k"
    "am_Version ` set (applied_of db) = {1..int k}"
    "\<forall>a \<in> set (applied_of db). am_Checksum a = mg_Checksum (ms ! nat (am_Version a - 1))"
    using at by (auto simp: catalog_at_def history_keys_def known_prefix_def)
  have versions: "am_Version ` set (applied_of db') = {1..int (Suc k)}" unfolding new using old(3) by auto
  have "distinct (map am_Version (applied_of db'))" unfolding new using old(1,3) by simp
  moreover have "\<forall>a \<in> set (applied_of db'). am_Checksum a = mg_Checksum (ms ! nat (am_Version a - 1))"
    unfolding new using old(4) by auto
  moreover have "length (applied_of db') = Suc k" unfolding new using old(2) by simp
  moreover have "db_user_version db' = int (Suc k)" using db' version by simp
  ultimately show ?thesis using k versions by (simp add: catalog_at_def history_keys_def known_prefix_def)
qed

lemma apply_pending_skip:
  assumes "numbered ms" and "k \<le> length ms"
  shows "apply_pending run fault {1..int k} ms db = apply_pending run fault {1..int k} (drop k ms) db"
proof -
  have "apply_pending run fault {1..int k} (drop i ms) db = apply_pending run fault {1..int k} (drop k ms) db" if "i \<le> k" for i
    using that
  proof (induction "k - i" arbitrary: i)
    case (Suc j)
    then have i: "i < k" "i < length ms" using assms(2) by linarith+
    have "apply_pending run fault {1..int k} (drop i ms) db = apply_pending run fault {1..int k} (drop (Suc i) ms) db"
      using numbered_nth [OF assms(1) i(2)] i by (simp add: Cons_nth_drop_Suc [symmetric])
    also have "\<dots> = apply_pending run fault {1..int k} (drop k ms) db" using Suc i by (intro Suc.hyps) linarith+
    finally show ?case .
  qed simp
  from this [of 0] show ?thesis by simp
qed

text \<open>Whatever fails, the catalog is left between two migrations, and it has all of them when nothing failed.\<close>

lemma apply_pending_at:
  assumes num: "numbered ms" and keep: "keeps_history run ms"
  shows "catalog_at ms k db \<Longrightarrow> j \<le> k \<Longrightarrow> k \<le> length ms \<Longrightarrow> apply_pending run fault {1..int j} (drop k ms) db = (err, db') \<Longrightarrow>
    \<exists>k'. k \<le> k' \<and> k' \<le> length ms \<and> catalog_at ms k' db' \<and> (err = None \<longleftrightarrow> k' = length ms)"
proof (induction "length ms - k" arbitrary: k db)
  case 0
  then have "k = length ms" by simp
  then show ?case using 0 by (intro exI [of _ k]) simp
next
  case (Suc i)
  then have k: "k < length ms" by linarith
  have drop: "drop k ms = ms ! k # drop (Suc k) ms" using k by (simp add: Cons_nth_drop_Suc)
  have new: "mg_Version (ms ! k) \<notin> {1..int j}" using numbered_nth [OF num k] Suc.prems(2) by simp
  have step: "(case applyMigration run (fault (mg_Version (ms ! k))) (ms ! k) db of
      Inl e \<Rightarrow> (Some (Wrapf ''apply migration %03d (%s): %w'' [Itoa (mg_Version (ms ! k)), mg_Name (ms ! k)] e), db)
    | Inr db \<Rightarrow> apply_pending run fault {1..int j} (drop (Suc k) ms) db) = (err, db')"
    using Suc.prems(4) unfolding drop apply_pending.simps if_not_P [OF new] .
  show ?case
  proof (cases "applyMigration run (fault (mg_Version (ms ! k))) (ms ! k) db")
    case (Inl e)
    then have "err \<noteq> None" "db' = db" using step by auto
    then show ?thesis using Suc.prems(1) k by (intro exI [of _ k]) simp
  next
    case (Inr db1)
    then have at: "catalog_at ms (Suc k) db1" by (intro applyMigration_step [OF num keep Suc.prems(1) k])
    have "\<exists>k'. Suc k \<le> k' \<and> k' \<le> length ms \<and> catalog_at ms k' db' \<and> (err = None \<longleftrightarrow> k' = length ms)"
      using Suc.hyps(1) [OF _ at] Suc.hyps(2) Suc.prems(2) k step Inr by simp
    then show ?thesis by (meson Suc_leD)
  qed
qed

lemma known_at: "catalog_at ms k db \<Longrightarrow> am_Version ` set (applied_of db) = {1..int k}" "catalog_at ms k db \<Longrightarrow> k \<le> length ms"
  by (auto simp: catalog_at_def known_prefix_def)

lemma Migrate_at:
  assumes files: "Migrations files = Inr ms" and num: "numbered ms" and keep: "keeps_history run ms" and at: "catalog_at ms k db"
    and run: "Migrate files run e db = ((n_from, n_to, err), db')"
  shows "\<exists>k'. k \<le> k' \<and> k' \<le> length ms \<and> catalog_at ms k' db' \<and> (err = None \<longrightarrow> k' = length ms \<and> n_from = k \<and> n_to = length ms)"
proof (cases "me_Lock e = None \<and> me_Open e = None \<and> \<not> me_ReadFails e")
  case False
  then have "err \<noteq> None" "db' = db"
    using run files by (cases "me_Lock e"; cases "me_Open e"; auto simp: Migrate_def readAppliedMigrations_def)+
  then show ?thesis using at known_at(2) [OF at] by auto
next
  case True
  have keys: "distinct (map am_Version (applied_of db))" and len: "length (applied_of db) = k"
    using at by (simp_all add: catalog_at_def history_keys_def)
  have "verifyKnownHistory files (applied_of db) ms = None"
    using verifyKnownHistory_iff [OF num keys] at by (simp add: catalog_at_def)
  then obtain err' where pending: "apply_pending run (me_Fault e) {1..int k} ms db = (err', db')" "err = None \<longleftrightarrow> err' = None"
    "err = None \<Longrightarrow> n_from = k \<and> n_to = length ms"
    using run True files len known_at(1) [OF at]
    by (auto simp: Migrate_def readAppliedMigrations_applied split: prod.splits option.splits)
  then have "apply_pending run (me_Fault e) {1..int k} (drop k ms) db = (err', db')"
    by (simp add: apply_pending_skip [OF num known_at(2) [OF at]])
  from apply_pending_at [OF num keep at order_refl known_at(2) [OF at] this] show ?thesis using pending(2,3) by auto
qed

text \<open>The SQL of the pending files runs, each on the catalog the one before it left.\<close>

definition recorded :: "migration \<Rightarrow> 's database \<Rightarrow> 's database" where
  "recorded m db = db\<lparr>db_history := Some ((case db_history db of None \<Rightarrow> [] | Some rows \<Rightarrow> rows) @ [recorded_step m]),
     db_user_version := mg_Version m\<rparr>"

fun sql_runs :: "(string \<Rightarrow> 's database \<Rightarrow> 's database res) \<Rightarrow> migration list \<Rightarrow> 's database \<Rightarrow> bool" where
  "sql_runs run [] db = True"
| "sql_runs run (m # ms) db = (case run (mg_SQL m) db of Inl e \<Rightarrow> False | Inr db \<Rightarrow> sql_runs run ms (recorded m db))"

definition no_fault :: "migrate_env \<Rightarrow> bool" where
  "no_fault e \<longleftrightarrow> me_Lock e = None \<and> me_Open e = None \<and> \<not> me_ReadFails e \<and> me_Fault e = (\<lambda>v i. False)"

lemma applyMigration_runs:
  assumes num: "numbered ms" and keep: "keeps_history run ms" and at: "catalog_at ms k db" and k: "k < length ms"
    and run: "run (mg_SQL (ms ! k)) db = Inr db1"
  shows "applyMigration run (\<lambda>i. False) (ms ! k) db = Inr (recorded (ms ! k) db1)"
proof -
  let ?m = "ms ! k"
  have version: "mg_Version ?m = int k + 1" using numbered_nth [OF num k] .
  have keep1: "db_history db1 = (case db_history db of None \<Rightarrow> (if ?m = hd ms then Some [] else None) | Some rows \<Rightarrow> Some rows)"
    using keep run k by (simp add: keeps_history_def)
  obtain rows where rows: "db_history db1 = Some rows" "applied_of db1 = applied_of db"
  proof (cases "db_history db")
    case None
    then have "k = 0" using at by (simp add: catalog_at_def applied_of_def)
    then have "?m = hd ms" using k by (simp add: hd_conv_nth)
    then show ?thesis using that None keep1 by (simp add: applied_of_def)
  next
    case (Some rows)
    then show ?thesis using that keep1 by (simp add: applied_of_def)
  qed
  have "am_Version ` set (applied_of db) = {1..int k}" using at by (rule known_at(1))
  moreover have "hr_version ` set rows = am_Version ` set (applied_of db1)" using rows(1) by (simp add: applied_of_def image_image)
  ultimately have "mg_Version ?m \<notin> hr_version ` set rows" using version rows(2) by simp
  then show ?thesis
    using rows run by (simp add: applyMigration_def driver_fails_def insert_history_def recorded_def recorded_step_def)
qed

lemma apply_pending_runs:
  assumes num: "numbered ms" and keep: "keeps_history run ms"
  shows "catalog_at ms k db \<Longrightarrow> j \<le> k \<Longrightarrow> k \<le> length ms \<Longrightarrow> sql_runs run (drop k ms) db \<Longrightarrow>
    fst (apply_pending run (\<lambda>v i. False) {1..int j} (drop k ms) db) = None"
proof (induction "length ms - k" arbitrary: k db)
  case (Suc i)
  then have k: "k < length ms" by linarith
  have drop: "drop k ms = ms ! k # drop (Suc k) ms" using k by (simp add: Cons_nth_drop_Suc)
  have new: "mg_Version (ms ! k) \<notin> {1..int j}" using numbered_nth [OF num k] Suc.prems(2) by simp
  obtain db1 where run: "run (mg_SQL (ms ! k)) db = Inr db1" and rest: "sql_runs run (drop (Suc k) ms) (recorded (ms ! k) db1)"
    using Suc.prems(4) unfolding drop by (auto split: sum.splits)
  note step = applyMigration_runs [OF num keep Suc.prems(1) k run]
  have "catalog_at ms (Suc k) (recorded (ms ! k) db1)"
    using num keep Suc.prems(1) k step by (rule applyMigration_step)
  then have "fst (apply_pending run (\<lambda>v i. False) {1..int j} (drop (Suc k) ms) (recorded (ms ! k) db1)) = None"
    using Suc rest k by simp
  then show ?case unfolding drop apply_pending.simps if_not_P [OF new] by (simp add: step)
qed simp

lemma Migrate_runs:
  assumes files: "Migrations files = Inr ms" and num: "numbered ms" and keep: "keeps_history run ms" and at: "catalog_at ms k db"
    and "no_fault e" and "sql_runs run (drop k ms) db"
  shows "\<exists>db'. Migrate files run e db = ((k, length ms, None), db') \<and> catalog_at ms (length ms) db'"
proof -
  have keys: "distinct (map am_Version (applied_of db))" and len: "length (applied_of db) = k"
    using at by (simp_all add: catalog_at_def history_keys_def)
  have "verifyKnownHistory files (applied_of db) ms = None"
    using verifyKnownHistory_iff [OF num keys] at by (simp add: catalog_at_def)
  moreover have "fst (apply_pending run (\<lambda>v i. False) {1..int k} ms db) = None"
    using apply_pending_runs [OF num keep at order_refl known_at(2) [OF at] assms(6)]
    by (simp add: apply_pending_skip [OF num known_at(2) [OF at]])
  ultimately obtain db' where m: "Migrate files run e db = ((k, length ms, None), db')"
    using files len assms(5) known_at(1) [OF at]
    by (cases "apply_pending run (\<lambda>v i. False) {1..int k} ms db")
      (auto simp: Migrate_def readAppliedMigrations_applied no_fault_def)
  then show ?thesis using Migrate_at [OF files num keep at m] by auto
qed

end
