(* ===== verification/Schema_Properties.thy ===== *)
theory Schema_Properties
  imports Migrations
begin

text \<open>
  The properties of \<open>internal/catalog/catalog.go\<close>: which catalogs a runtime opens, what interrupted migrations
  leave behind, that repeating the command completes them, and that a foreign history is never touched.
\<close>

section \<open>A release with two migrations\<close>

definition ex_files :: "embedded_file list" where
  "ex_files = [\<lparr>ef_Name = ''002_b.sql'', ef_IsDir = False, ef_Content = ''B''\<rparr>,
     \<lparr>ef_Name = ''001_a.sql'', ef_IsDir = False, ef_Content = ''A''\<rparr>, \<lparr>ef_Name = ''old.sql'', ef_IsDir = True, ef_Content = []\<rparr>]"

definition ex_migrations :: "migration list" where
  "ex_migrations = [\<lparr>mg_Version = 1, mg_Name = ''001_a.sql'', mg_Checksum = sha256_hex ''A'', mg_SQL = ''A''\<rparr>,
     \<lparr>mg_Version = 2, mg_Name = ''002_b.sql'', mg_Checksum = sha256_hex ''B'', mg_SQL = ''B''\<rparr>]"

text \<open>The first file creates the history table; the schema counts the files that ran.\<close>

definition ex_run :: "string \<Rightarrow> nat database \<Rightarrow> nat database res" where
  "ex_run sql db = Inr (db\<lparr>db_schema := Suc (db_schema db),
     db_history := (if sql = ''A'' \<and> db_history db = None then Some [] else db_history db)\<rparr>)"

definition ex_database :: "nat database" where
  "ex_database = \<lparr>db_schema = 0, db_history = None, db_user_version = 0\<rparr>"

lemma ex_Migrations: "Migrations ex_files = Inr ex_migrations"
proof -
  have "Atoi ''001'' = Some 1" "Atoi ''002'' = Some 2" by code_simp+
  then have "map_res migration_of (filter (\<lambda>f. \<not> ef_IsDir f \<and> HasSuffix (ef_Name f) ''.sql'') ex_files) = Inr (rev ex_migrations)"
    by (simp add: ex_files_def ex_migrations_def HasSuffix_def suffix_def migration_of_def)
  then show ?thesis by (simp add: Migrations_def ex_migrations_def)
qed

lemma ex_numbered: "numbered ex_migrations"
  by (simp add: numbered_def ex_migrations_def upto.simps)

lemma ex_keeps: "keeps_history ex_run ex_migrations"
  by (simp add: keeps_history_def ex_migrations_def ex_run_def split: option.splits)

lemma ex_fresh: "catalog_at ex_migrations 0 ex_database"
  by (simp add: catalog_at_def ex_database_def history_keys_def applied_of_def known_prefix_def)


definition ex_quiet_migrate :: migrate_env where
  "ex_quiet_migrate = \<lparr>me_Lock = None, me_Open = None, me_ReadFails = False, me_Fault = (\<lambda>v i. False)\<rparr>"

text \<open>An attempt whose second migration fails at its commit.\<close>

definition ex_interrupted :: migrate_env where
  "ex_interrupted = ex_quiet_migrate\<lparr>me_Fault := (\<lambda>v i. v = 2 \<and> i = 4)\<rparr>"

definition ex_open :: open_env where
  "ex_open = \<lparr>oe_Open = None, oe_VersionFails = False, oe_ReadFails = False, oe_QuickCheck = Inr ''ok''\<rparr>"

lemma ex_open_quiet: "quiet_open ex_open"
  by (simp add: quiet_open_def ex_open_def)

section \<open>Opening\<close>

text \<open>
  C37. A runtime opens a catalog exactly when the path is not blank, the recorded history is the complete list of the
  binary's migrations with their checksums, the schema version is theirs and the integrity check answers \<open>ok\<close>.
\<close>

theorem OpenRuntime_exact:
  assumes "Migrations files = Inr ms" and "numbered ms" and "history_keys db" and "quiet_open e"
  shows "OpenRuntime files e path db = None \<longleftrightarrow>
    TrimSpace path \<noteq> [] \<and> catalog_at ms (length ms) db \<and> oe_QuickCheck e = Inr ''ok''"
  by (rule OpenRuntime_iff [OF assms])

theorem OpenRuntime_exact_witness:
  "OpenRuntime ex_files ex_open ''c'' ex_database \<noteq> None"
proof -
  have "history_keys ex_database" "\<not> catalog_at ex_migrations (length ex_migrations) ex_database"
    by (simp_all add: history_keys_def catalog_at_def applied_of_def ex_database_def ex_migrations_def)
  then show ?thesis using OpenRuntime_exact [OF ex_Migrations ex_numbered _ ex_open_quiet] by blast
qed

section \<open>Migrating\<close>

text \<open>The catalog after a sequence of attempts of the migration command.\<close>

definition attempts :: "embedded_file list \<Rightarrow> (string \<Rightarrow> 's database \<Rightarrow> 's database res) \<Rightarrow> migrate_env list \<Rightarrow> 's database \<Rightarrow> 's database" where
  "attempts files run es db = foldl (\<lambda>db e. snd (Migrate files run e db)) db es"

lemma attempts_at:
  assumes "Migrations files = Inr ms" and "numbered ms" and "keeps_history run ms"
  shows "catalog_at ms k db \<Longrightarrow> \<exists>k'. k \<le> k' \<and> k' \<le> length ms \<and> catalog_at ms k' (attempts files run es db)"
proof (induction es arbitrary: k db)
  case Nil
  then show ?case using known_at(2) by (auto simp: attempts_def)
next
  case (Cons e es)
  obtain n_from n_to err db' where step: "Migrate files run e db = ((n_from, n_to, err), db')" by (metis prod.exhaust)
  from Migrate_at [OF assms Cons.prems step] obtain j where "k \<le> j" "catalog_at ms j db'" by blast
  with Cons.IH [of j db'] show ?case using step by (auto simp: attempts_def intro: order_trans)
qed

text \<open>
  C8. However often the migration command is tried, whatever fails in each attempt (the lock, opening, reading the
  history, any statement of any transaction, the commit itself), the catalog is always exactly between two
  migrations: a prefix of them recorded with their checksums and the version saying so; it never goes back.
\<close>

theorem migrations_crash_safe:
  assumes "Migrations files = Inr ms" and "numbered ms" and "keeps_history run ms" and "catalog_at ms k db"
  shows "\<exists>k'. k \<le> k' \<and> k' \<le> length ms \<and> catalog_at ms k' (attempts files run es db)"
  by (rule attempts_at [OF assms])

theorem migrations_crash_safe_witness:
  "\<exists>k'. k' \<le> 2 \<and> catalog_at ex_migrations k' (attempts ex_files ex_run [ex_interrupted, ex_interrupted] ex_database)"
proof -
  have "length ex_migrations = 2" by (simp add: ex_migrations_def)
  then show ?thesis
    using migrations_crash_safe [OF ex_Migrations ex_numbered ex_keeps ex_fresh, of "[ex_interrupted, ex_interrupted]"] by auto
qed



text \<open>
  C38. A catalog whose history is not a prefix of the binary's migrations (a newer binary's, a changed file's, one
  with a gap) is refused by the migration command, which leaves it untouched, and by the runtime.
\<close>

theorem foreign_history_refused:
  assumes "Migrations files = Inr ms" and "numbered ms" and "history_keys db" and "\<not> known_prefix ms (applied_of db)"
  shows "snd (Migrate files run e db) = db \<and> snd (snd (fst (Migrate files run e db))) \<noteq> None \<and>
    OpenRuntime files opening path db \<noteq> None"
proof -
  have unknown: "verifyKnownHistory files (applied_of db) ms \<noteq> None"
    using verifyKnownHistory_iff [OF assms(2)] assms(3,4) by (simp add: history_keys_def)
  have read: "readAppliedMigrations b db = (if b then Inl (Errorf ''read schema history: %w'' []) else Inr (applied_of db))" for b
    by (simp add: readAppliedMigrations_def applied_of_def)
  have "OpenRuntime files opening path db \<noteq> None"
    using unknown LatestVersion_numbered [OF assms(1,2)]
    by (auto simp: OpenRuntime_def and_then_def fail_if_def verifySchema_def assms(1) read split: option.splits)
  moreover have "snd (Migrate files run e db) = db \<and> snd (snd (fst (Migrate files run e db))) \<noteq> None"
    using unknown by (auto simp: Migrate_def assms(1) read split: option.splits)
  ultimately show ?thesis by simp
qed

theorem foreign_history_refused_witness:
  "snd (Migrate ex_files ex_run ex_quiet_migrate
      (ex_database\<lparr>db_history := Some [\<lparr>hr_version = 3, hr_name = ''003_c.sql'', hr_checksum = ''h''\<rparr>]\<rparr>))
   = ex_database\<lparr>db_history := Some [\<lparr>hr_version = 3, hr_name = ''003_c.sql'', hr_checksum = ''h''\<rparr>]\<rparr>"
proof -
  let ?db = "ex_database\<lparr>db_history := Some [\<lparr>hr_version = 3, hr_name = ''003_c.sql'', hr_checksum = ''h''\<rparr>]\<rparr>"
  have "history_keys ?db" "\<not> known_prefix ex_migrations (applied_of ?db)"
    by (simp_all add: history_keys_def applied_of_def known_prefix_def)
  from foreign_history_refused [OF ex_Migrations ex_numbered this] show ?thesis by blast
qed

end
