(* ===== verification/Plan_File.thy ===== *)
theory Plan_File
  imports Plan
begin

text \<open>
  Plan files: \<open>EncodePlan\<close> and \<open>DecodePlan\<close> of \<open>commit.go\<close> and the decoding of the declaration types, which
  the command line reads from a file. A plan is written as indented JSON and read back exactly, with the
  entries of each metadata map in key order, so its digest is unchanged.

  Decoding follows \<open>Json_Struct\<close>; an empty array is the nil slice, which no valid plan contains. Documents that
  repeat a member are outside the model: \<open>encoding/json\<close> merges repeated objects and arrays, here the last counts.
\<close>

section \<open>Decoding\<close>

definition project_of_json :: "json \<Rightarrow> project_declaration option" where
  "project_of_json j =
     Option.bind (decode_obj j) (\<lambda>kvs.
     Option.bind (decode_str (get_field kvs ''prefix'')) (\<lambda>p.
     Option.bind (decode_str (get_field kvs ''displayName'')) (\<lambda>d.
       Some \<lparr>prj_Prefix = p, prj_DisplayName = d\<rparr>)))"

definition route_probe_of_json :: "json \<Rightarrow> route_probe option" where
  "route_probe_of_json j =
     Option.bind (decode_obj j) (\<lambda>kvs.
     Option.bind (decode_str (get_field kvs ''path'')) (\<lambda>p.
     Option.bind (decode_int (get_field kvs ''expectStatus'')) (\<lambda>n.
       Some \<lparr>rp_Path = p, rp_ExpectStatus = n\<rparr>)))"

definition publication_of_json :: "json \<Rightarrow> publication_declaration option" where
  "publication_of_json j =
     Option.bind (decode_obj j) (\<lambda>kvs.
     Option.bind (project_of_json (get_field kvs ''project'')) (\<lambda>pr.
     Option.bind (decode_str (get_field kvs ''path'')) (\<lambda>p.
     Option.bind (decode_str (get_field kvs ''displayName'')) (\<lambda>d.
     Option.bind (decode_str (get_field kvs ''entryPoint'')) (\<lambda>e.
     Option.bind (decode_str (get_field kvs ''routingMode'')) (\<lambda>m.
     Option.bind (decode_list decode_str (get_field kvs ''objects'')) (\<lambda>ks.
     Option.bind (decode_list route_probe_of_json (get_field kvs ''probes'')) (\<lambda>rs.
       Some \<lparr>pd_Project = pr, pd_Path = p, pd_DisplayName = d, pd_EntryPoint = e, pd_RoutingMode = m,
             pd_Objects = ks, pd_Probes = rs\<rparr>))))))))"

definition declaration_of_json :: "json \<Rightarrow> batch_declaration option" where
  "declaration_of_json j =
     Option.bind (decode_obj j) (\<lambda>kvs.
     Option.bind (decode_int (get_field kvs ''version'')) (\<lambda>v.
     Option.bind (decode_list publication_of_json (get_field kvs ''publications'')) (\<lambda>ps.
       Some \<lparr>dc_Version = v, dc_Publications = ps\<rparr>)))"

definition planned_object_of_json :: "json \<Rightarrow> planned_object option" where
  "planned_object_of_json j =
     Option.bind (decode_obj j) (\<lambda>kvs.
     Option.bind (decode_str (get_field kvs ''key'')) (\<lambda>k.
     Option.bind (decode_str (get_field kvs ''relativePath'')) (\<lambda>r.
     Option.bind (decode_int64 (get_field kvs ''size'')) (\<lambda>n.
     Option.bind (decode_str (get_field kvs ''etag'')) (\<lambda>e.
     Option.bind (decode_str (get_field kvs ''modifiedAt'')) (\<lambda>t.
     Option.bind (decode_str (get_field kvs ''contentType'')) (\<lambda>ct.
     Option.bind (decode_str (get_field kvs ''contentEncoding'')) (\<lambda>ce.
     Option.bind (decode_str (get_field kvs ''cacheControl'')) (\<lambda>cc.
     Option.bind (map_of_json (get_field kvs ''userMetadata'')) (\<lambda>m.
     Option.bind (decode_str (get_field kvs ''sha256'')) (\<lambda>h.
       Some \<lparr>plo_Key = k, plo_RelativePath = r, plo_Size = n, plo_ETag = e, plo_ModifiedAt = t, plo_ContentType = ct,
             plo_ContentEncoding = ce, plo_CacheControl = cc, plo_UserMetadata = m, plo_SHA256 = h\<rparr>)))))))))))"

definition planned_probe_of_json :: "json \<Rightarrow> planned_probe option" where
  "planned_probe_of_json j =
     Option.bind (decode_obj j) (\<lambda>kvs.
     Option.bind (decode_str (get_field kvs ''path'')) (\<lambda>p.
     Option.bind (decode_str (get_field kvs ''url'')) (\<lambda>u.
     Option.bind (decode_int (get_field kvs ''expectStatus'')) (\<lambda>x.
     Option.bind (decode_int (get_field kvs ''observedStatus'')) (\<lambda>s.
     Option.bind (decode_str (get_field kvs ''contentType'')) (\<lambda>ct.
     Option.bind (decode_str (get_field kvs ''bodySha256'')) (\<lambda>h.
       Some \<lparr>plp_Path = p, plp_URL = u, plp_ExpectStatus = x, plp_ObservedStatus = s, plp_ContentType = ct,
             plp_BodySHA256 = h\<rparr>)))))))"

definition planned_of_json :: "json \<Rightarrow> planned_publication option" where
  "planned_of_json j =
     Option.bind (decode_obj j) (\<lambda>kvs.
     Option.bind (project_of_json (get_field kvs ''project'')) (\<lambda>pr.
     Option.bind (decode_str (get_field kvs ''path'')) (\<lambda>p.
     Option.bind (decode_str (get_field kvs ''displayName'')) (\<lambda>d.
     Option.bind (decode_str (get_field kvs ''entryPoint'')) (\<lambda>e.
     Option.bind (decode_str (get_field kvs ''routingMode'')) (\<lambda>m.
     Option.bind (decode_str (get_field kvs ''canonicalUrl'')) (\<lambda>u.
     Option.bind (decode_str (get_field kvs ''contentChangedAt'')) (\<lambda>t.
     Option.bind (decode_list planned_object_of_json (get_field kvs ''objects'')) (\<lambda>ks.
     Option.bind (decode_list planned_probe_of_json (get_field kvs ''probes'')) (\<lambda>rs.
       Some \<lparr>plb_Project = pr, plb_Path = p, plb_DisplayName = d, plb_EntryPoint = e, plb_RoutingMode = m,
             plb_CanonicalURL = u, plb_ContentChangedAt = t, plb_Objects = ks, plb_Probes = rs\<rparr>))))))))))"

definition content_of_json :: "json \<Rightarrow> plan_content option" where
  "content_of_json j =
     Option.bind (decode_obj j) (\<lambda>kvs.
     Option.bind (decode_int (get_field kvs ''version'')) (\<lambda>v.
     Option.bind (decode_str (get_field kvs ''publicBaseURL'')) (\<lambda>u.
     Option.bind (declaration_of_json (get_field kvs ''declaration'')) (\<lambda>d.
     Option.bind (decode_list planned_of_json (get_field kvs ''publications'')) (\<lambda>ps.
       Some \<lparr>pc_Version = v, pc_PublicBaseURL = u, pc_Declaration = d, pc_Publications = ps\<rparr>)))))"

definition plan_of_json :: "json \<Rightarrow> plan option" where
  "plan_of_json j =
     Option.bind (decode_obj j) (\<lambda>kvs.
     Option.bind (content_of_json (get_field kvs ''plan'')) (\<lambda>c.
     Option.bind (decode_str (get_field kvs ''digest'')) (\<lambda>d.
       Some \<lparr>plan_Content = c, plan_Digest = d\<rparr>)))"

section \<open>Plan files\<close>

definition json_of_plan :: "plan \<Rightarrow> json" where
  "json_of_plan p = JObj [(''plan'', json_of_content (plan_Content p)), (''digest'', JStr (plan_Digest p))]"

text \<open>Encoding a plan cannot fail.\<close>

definition EncodePlan :: "plan \<Rightarrow> string" where
  "EncodePlan p = MarshalIndent (json_of_plan p) @ [CHR 0x0A]"

definition DecodePlan :: "string \<Rightarrow> plan res" where
  "DecodePlan encoded =
     (case Option.bind (Unmarshal encoded) plan_of_json of
        None \<Rightarrow> Inl (Errorf ''parse plan: %w'' [])
      | Some p \<Rightarrow>
          if plan_Digest p = [] then Inl (Errorf ''plan is missing its digest'' []) else Inr p)"

section \<open>Reading back\<close>

text \<open>A struct with one optional member.\<close>

lemma omitted_field:
  assumes "fold_distinct (map fst (xs @ (k, JStr s) # ys))"
  shows "decode_str (get_field (xs @ omit_empty k s @ ys) k) = Some s"
    and "(k', v) \<in> set (xs @ ys) \<Longrightarrow> get_field (xs @ omit_empty k s @ ys) k' = v"
proof -
  have without: "fold_distinct (map fst (xs @ ys))" using assms by (auto simp: fold_distinct_def)
  have "get_field (xs @ ys) k = JNull"
  proof (rule get_field_missing)
    fix k' v' assume "(k', v') \<in> set (xs @ ys)"
    then have "k' \<in> fst ` set (xs @ ys)" by force
    then show "\<not> field_match k' k" using assms by (auto simp: fold_distinct_def field_match_def image_iff)
  qed
  then show "decode_str (get_field (xs @ omit_empty k s @ ys) k) = Some s"
    using get_field_distinct [OF assms, of k "JStr s"] by (simp add: omit_empty_def)
  show "(k', v) \<in> set (xs @ ys) \<Longrightarrow> get_field (xs @ omit_empty k s @ ys) k' = v"
    using get_field_distinct [OF assms, of k' v] get_field_distinct [OF without, of k' v] by (auto simp: omit_empty_def)
qed

lemma plan_names:
  "fold_distinct [''prefix'', ''displayName'']" "fold_distinct [''path'', ''expectStatus'']"
  "fold_distinct [''project'', ''path'', ''displayName'', ''entryPoint'', ''routingMode'', ''objects'', ''probes'']"
  "fold_distinct [''version'', ''publications'']"
  "fold_distinct [''key'', ''relativePath'', ''size'', ''etag'', ''modifiedAt'', ''contentType'', ''contentEncoding'',
     ''cacheControl'', ''userMetadata'', ''sha256'']"
  "fold_distinct [''path'', ''url'', ''expectStatus'', ''observedStatus'', ''contentType'', ''bodySha256'']"
  "fold_distinct [''project'', ''path'', ''displayName'', ''entryPoint'', ''routingMode'', ''canonicalUrl'',
     ''contentChangedAt'', ''objects'', ''probes'']"
  "fold_distinct [''version'', ''publicBaseURL'', ''declaration'', ''publications'']"
  "fold_distinct [''plan'', ''digest'']"
  by (rule ascii_fold_distinct; simp add: lower_def lower_byte_def byte_def)+

definition go_int :: "int \<Rightarrow> bool" where
  "go_int i \<longleftrightarrow> - 9223372036854775808 \<le> i \<and> i < 9223372036854775808"

lemma decode_go_int: "go_int i \<Longrightarrow> decode_int (JNum i) = Some i"
  by (simp add: go_int_def decode_int_def)

lemma project_reads_back: "project_of_json (json_of_project p) = Some p"
proof -
  let ?kvs = "[(''prefix'', JStr (prj_Prefix p))] @ omit_empty ''displayName'' (prj_DisplayName p) @ []"
  have names: "fold_distinct (map fst ([(''prefix'', JStr (prj_Prefix p))] @ (''displayName'', JStr (prj_DisplayName p)) # []))"
    using plan_names(1) by simp
  have "json_of_project p = JObj ?kvs" by (simp add: json_of_project_def)
  then show ?thesis
    using omitted_field(1) [OF names] omitted_field(2) [OF names, of "''prefix''" "JStr (prj_Prefix p)"]
    by (simp add: project_of_json_def)
qed

lemma route_probe_reads_back:
  assumes "go_int (rp_ExpectStatus r)"
  shows "route_probe_of_json (json_of_route_probe r) = Some r"
proof -
  let ?kvs = "[(''path'', JStr (rp_Path r)), (''expectStatus'', JNum (rp_ExpectStatus r))]"
  have "get_field ?kvs k = v" if "(k, v) \<in> set ?kvs" for k v
    using that plan_names(2) by (intro get_field_distinct) simp_all
  then show ?thesis by (simp add: route_probe_of_json_def json_of_route_probe_def decode_go_int [OF assms])
qed

lemma publication_reads_back:
  assumes "list_all (\<lambda>r. go_int (rp_ExpectStatus r)) (pd_Probes p)"
  shows "publication_of_json (json_of_publication p) = Some p"
proof -
  let ?xs = "[(''project'', json_of_project (pd_Project p)), (''path'', JStr (pd_Path p))]"
  let ?ys = "[(''entryPoint'', JStr (pd_EntryPoint p)), (''routingMode'', JStr (pd_RoutingMode p)),
    (''objects'', json_slice JStr (pd_Objects p)), (''probes'', json_slice json_of_route_probe (pd_Probes p))]"
  have names: "fold_distinct (map fst (?xs @ (''displayName'', JStr (pd_DisplayName p)) # ?ys))" using plan_names(3) by simp
  have "json_of_publication p = JObj (?xs @ omit_empty ''displayName'' (pd_DisplayName p) @ ?ys)"
    by (simp add: json_of_publication_def)
  moreover have "decode_list decode_str (json_slice JStr (pd_Objects p)) = Some (pd_Objects p)"
    by (rule decode_list_encoded(2)) simp
  moreover have "decode_list route_probe_of_json (json_slice json_of_route_probe (pd_Probes p)) = Some (pd_Probes p)"
    using assms by (intro decode_list_encoded(2)) (simp add: list_all_iff route_probe_reads_back)
  moreover have "get_field (?xs @ omit_empty ''displayName'' (pd_DisplayName p) @ ?ys) k = v" if "(k, v) \<in> set (?xs @ ?ys)" for k v
    using omitted_field(2) [OF names that] .
  ultimately show ?thesis
    using omitted_field(1) [OF names] by (simp add: publication_of_json_def project_reads_back del: append.simps)
qed

lemma declaration_reads_back:
  assumes "go_int (dc_Version d)" and "list_all (\<lambda>p. list_all (\<lambda>r. go_int (rp_ExpectStatus r)) (pd_Probes p)) (dc_Publications d)"
  shows "declaration_of_json (json_of_declaration d) = Some d"
proof -
  let ?kvs = "[(''version'', JNum (dc_Version d)), (''publications'', json_slice json_of_publication (dc_Publications d))]"
  have "get_field ?kvs k = v" if "(k, v) \<in> set ?kvs" for k v
    using that plan_names(4) by (intro get_field_distinct) simp_all
  moreover have "decode_list publication_of_json (json_slice json_of_publication (dc_Publications d)) = Some (dc_Publications d)"
    using assms(2) by (intro decode_list_encoded(2)) (simp add: list_all_iff publication_reads_back)
  ultimately show ?thesis by (simp add: declaration_of_json_def json_of_declaration_def decode_go_int [OF assms(1)])
qed

text \<open>A plan as it is read from its file: metadata entries are in key order.\<close>

definition stored_object_of :: "planned_object \<Rightarrow> planned_object" where
  "stored_object_of r = r\<lparr>plo_UserMetadata := map_option (sort_key fst) (plo_UserMetadata r)\<rparr>"

definition stored_publication :: "planned_publication \<Rightarrow> planned_publication" where
  "stored_publication p = p\<lparr>plb_Objects := map stored_object_of (plb_Objects p)\<rparr>"

definition stored_plan :: "plan \<Rightarrow> plan" where
  "stored_plan p = p\<lparr>plan_Content := (plan_Content p)
     \<lparr>pc_Publications := map stored_publication (pc_Publications (plan_Content p))\<rparr>\<rparr>"

lemma planned_object_reads_back:
  assumes "map_ok (plo_UserMetadata r)"
  shows "planned_object_of_json (json_of_planned_object r) = Some (stored_object_of r)"
proof -
  let ?kvs = "[(''key'', JStr (plo_Key r)), (''relativePath'', JStr (plo_RelativePath r)), (''size'', json_int64 (plo_Size r)),
      (''etag'', JStr (plo_ETag r)), (''modifiedAt'', JStr (plo_ModifiedAt r)), (''contentType'', JStr (plo_ContentType r)),
      (''contentEncoding'', JStr (plo_ContentEncoding r)), (''cacheControl'', JStr (plo_CacheControl r)),
      (''userMetadata'', json_of_map (plo_UserMetadata r)), (''sha256'', JStr (plo_SHA256 r))]"
  have "get_field ?kvs k = v" if "(k, v) \<in> set ?kvs" for k v
    using that plan_names(5) by (intro get_field_distinct) simp_all
  then show ?thesis
    by (simp add: planned_object_of_json_def json_of_planned_object_def map_of_json_of_map [OF assms] stored_object_of_def)
qed

definition probe_ints :: "planned_probe \<Rightarrow> bool" where
  "probe_ints r \<longleftrightarrow> go_int (plp_ExpectStatus r) \<and> go_int (plp_ObservedStatus r)"

lemma planned_probe_reads_back:
  assumes "probe_ints r"
  shows "planned_probe_of_json (json_of_planned_probe r) = Some r"
proof -
  let ?kvs = "[(''path'', JStr (plp_Path r)), (''url'', JStr (plp_URL r)), (''expectStatus'', JNum (plp_ExpectStatus r)),
      (''observedStatus'', JNum (plp_ObservedStatus r)), (''contentType'', JStr (plp_ContentType r)),
      (''bodySha256'', JStr (plp_BodySHA256 r))]"
  have "get_field ?kvs k = v" if "(k, v) \<in> set ?kvs" for k v
    using that plan_names(6) by (intro get_field_distinct) simp_all
  then show ?thesis
    using assms by (simp add: planned_probe_of_json_def json_of_planned_probe_def probe_ints_def decode_go_int)
qed

definition publication_ok :: "planned_publication \<Rightarrow> bool" where
  "publication_ok p \<longleftrightarrow> list_all (\<lambda>r. map_ok (plo_UserMetadata r)) (plb_Objects p) \<and> list_all probe_ints (plb_Probes p)"

lemma decode_list_slice:
  "(\<And>x. x \<in> set xs \<Longrightarrow> f (g x) = Some (h x)) \<Longrightarrow> decode_list f (json_slice g xs) = Some (map h xs)"
  using sequence_map [of xs "f \<circ> g" h] by (auto simp: decode_list_def json_slice_def)

lemma planned_reads_back:
  assumes "publication_ok p"
  shows "planned_of_json (json_of_planned p) = Some (stored_publication p)"
proof -
  let ?kvs = "[(''project'', json_of_project (plb_Project p)), (''path'', JStr (plb_Path p)),
      (''displayName'', JStr (plb_DisplayName p)), (''entryPoint'', JStr (plb_EntryPoint p)),
      (''routingMode'', JStr (plb_RoutingMode p)), (''canonicalUrl'', JStr (plb_CanonicalURL p)),
      (''contentChangedAt'', JStr (plb_ContentChangedAt p)), (''objects'', json_slice json_of_planned_object (plb_Objects p)),
      (''probes'', json_slice json_of_planned_probe (plb_Probes p))]"
  have "get_field ?kvs k = v" if "(k, v) \<in> set ?kvs" for k v
    using that plan_names(7) by (intro get_field_distinct) simp_all
  moreover have "decode_list planned_object_of_json (json_slice json_of_planned_object (plb_Objects p))
      = Some (map stored_object_of (plb_Objects p))"
    using assms by (intro decode_list_slice) (simp add: publication_ok_def list_all_iff planned_object_reads_back)
  moreover have "decode_list planned_probe_of_json (json_slice json_of_planned_probe (plb_Probes p)) = Some (plb_Probes p)"
    using assms by (intro decode_list_encoded(2)) (simp add: publication_ok_def list_all_iff planned_probe_reads_back)
  ultimately show ?thesis
    by (simp add: planned_of_json_def json_of_planned_def project_reads_back stored_publication_def)
qed

text \<open>Plans whose file is read back: texts in UTF-8, numbers in the range of \<open>int\<close>, metadata keys once.\<close>

definition plan_encodable :: "plan \<Rightarrow> bool" where
  "plan_encodable p \<longleftrightarrow> (let c = plan_Content p; d = pc_Declaration c in
     go_int (pc_Version c) \<and> go_int (dc_Version d) \<and>
     list_all (\<lambda>q. list_all (\<lambda>r. go_int (rp_ExpectStatus r)) (pd_Probes q)) (dc_Publications d) \<and>
     list_all publication_ok (pc_Publications c) \<and> valid_json (json_of_plan p))"

lemma content_reads_back:
  assumes "plan_encodable p"
  shows "content_of_json (json_of_content (plan_Content p)) = Some (plan_Content (stored_plan p))"
proof -
  let ?c = "plan_Content p"
  let ?kvs = "[(''version'', JNum (pc_Version ?c)), (''publicBaseURL'', JStr (pc_PublicBaseURL ?c)),
      (''declaration'', json_of_declaration (pc_Declaration ?c)), (''publications'', json_slice json_of_planned (pc_Publications ?c))]"
  have ok: "go_int (pc_Version ?c)" "go_int (dc_Version (pc_Declaration ?c))" "list_all publication_ok (pc_Publications ?c)"
    "list_all (\<lambda>q. list_all (\<lambda>r. go_int (rp_ExpectStatus r)) (pd_Probes q)) (dc_Publications (pc_Declaration ?c))"
    using assms by (simp_all add: plan_encodable_def Let_def)
  have "get_field ?kvs k = v" if "(k, v) \<in> set ?kvs" for k v
    using that plan_names(8) by (intro get_field_distinct) simp_all
  moreover have "decode_list planned_of_json (json_slice json_of_planned (pc_Publications ?c))
      = Some (map stored_publication (pc_Publications ?c))"
    using ok(3) by (intro decode_list_slice) (simp add: list_all_iff planned_reads_back)
  ultimately show ?thesis
    by (simp add: content_of_json_def json_of_content_def decode_go_int ok(1) declaration_reads_back [OF ok(2,4)] stored_plan_def)
qed

lemma plan_reads_back:
  assumes "plan_encodable p"
  shows "plan_of_json (json_of_plan p) = Some (stored_plan p)"
proof -
  let ?kvs = "[(''plan'', json_of_content (plan_Content p)), (''digest'', JStr (plan_Digest p))]"
  have "get_field ?kvs k = v" if "(k, v) \<in> set ?kvs" for k v
    using that plan_names(9) by (intro get_field_distinct) simp_all
  then show ?thesis
    using content_reads_back [OF assms] by (simp add: plan_of_json_def json_of_plan_def stored_plan_def)
qed

lemma DecodePlan_EncodePlan:
  assumes "plan_encodable p" and "plan_Digest p \<noteq> []"
  shows "DecodePlan (EncodePlan p) = Inr (stored_plan p)"
proof -
  have "Unmarshal (EncodePlan p) = Some (json_of_plan p)"
    using assms(1) unfolding EncodePlan_def
    by (intro Unmarshal_MarshalIndent) (simp_all add: plan_encodable_def Let_def blank_def is_ws_def)
  then show ?thesis
    using plan_reads_back [OF assms(1)] assms(2) by (simp add: DecodePlan_def stored_plan_def)
qed

text \<open>Reading a plan back does not change its digest.\<close>

lemma json_of_sorted_map: "json_of_map (map_option (sort_key fst) m) = json_of_map m"
  by (cases m) (simp_all add: json_of_map_def sort_key_id_if_sorted)

lemma json_of_stored:
  "json_of_planned_object (stored_object_of r) = json_of_planned_object r"
  "json_of_planned (stored_publication p) = json_of_planned p"
proof -
  show one: "json_of_planned_object (stored_object_of r) = json_of_planned_object r" for r
    by (simp add: json_of_planned_object_def stored_object_of_def json_of_sorted_map)
  show "json_of_planned (stored_publication p) = json_of_planned p"
    by (simp add: json_of_planned_def stored_publication_def json_slice_def one)
qed

lemma stored_plan_simps [simp]:
  "plan_Digest (stored_plan p) = plan_Digest p"
  "pc_PublicBaseURL (plan_Content (stored_plan p)) = pc_PublicBaseURL (plan_Content p)"
  "pc_Declaration (plan_Content (stored_plan p)) = pc_Declaration (plan_Content p)"
  "Digest (plan_Content (stored_plan p)) = Digest (plan_Content p)"
  "Plan_Verify (stored_plan p) = Plan_Verify p"
proof -
  show "Digest (plan_Content (stored_plan p)) = Digest (plan_Content p)"
    by (simp add: Digest_def json_of_content_def stored_plan_def json_slice_def json_of_stored comp_def)
  then show "Plan_Verify (stored_plan p) = Plan_Verify p" by (simp add: Plan_Verify_def stored_plan_def)
qed (simp_all add: stored_plan_def)

end
