(* ===== verification/Schedule.thy ===== *)
theory Schedule
  imports Service History
begin

text \<open>
  The schedule of \<open>internal/observe/service.go\<close>: the loop that \<open>Start\<close> runs until its context is cancelled. What
  happens to the service is a list of events: a turn of the loop that scans, a turn that joins the scan of another
  caller, a scan for a request, and the cancellation. The loop's log has the outcome of each of its turns with the
  timer it sets then. That scans do not overlap is theory \<open>Service\<close>; here they follow one another.
\<close>

section \<open>The loop\<close>

datatype schedule_event =
    LoopScan env env reader
  | LoopJoin outcome
  | RequestScan env env reader
  | Cancelled

fun start_loop :: "service_options \<Rightarrow> schedule_event list \<Rightarrow> catalog \<Rightarrow> (outcome \<times> duration) list \<times> catalog" where
  "start_loop opts [] c = ([], c)"
| "start_loop opts (LoopScan re we rd # es) c =
     (let (out, c) = scan_outcome re we rd c; (log, c) = start_loop opts es c in ((out, next_delay opts out) # log, c))"
| "start_loop opts (LoopJoin out # es) c =
     (let (log, c) = start_loop opts es c in ((out, next_delay opts out) # log, c))"
| "start_loop opts (RequestScan re we rd # es) c = start_loop opts es (snd (scan_outcome re we rd c))"
| "start_loop opts (Cancelled # es) c = ([], c)"

text \<open>\<open>NewService\<close> with its options, then \<open>Start\<close>.\<close>

definition Start :: "service_options \<Rightarrow> schedule_event list \<Rightarrow> catalog \<Rightarrow> (outcome \<times> duration) list \<times> catalog" where
  "Start opts es c = start_loop (service_intervals opts) es c"

section \<open>What the schedule keeps\<close>

lemma scan_outcome_call: "store_exec (RunScan re we rd False) c = Some (snd (scan_outcome re we rd c))"
  by (simp add: scan_outcome_def split: prod.split sum.split)

lemma scan_outcome_keeps: "consistent c \<Longrightarrow> consistent (snd (scan_outcome re we rd c)) \<and> extends c (snd (scan_outcome re we rd c))"
  using store_exec_outcome [OF scan_outcome_call] .

text \<open>The catalog after the loop is one that the scans, one after the other, lead to.\<close>

fun loop_calls :: "schedule_event list \<Rightarrow> store_call list" where
  "loop_calls [] = []"
| "loop_calls (LoopScan re we rd # es) = RunScan re we rd False # loop_calls es"
| "loop_calls (LoopJoin out # es) = loop_calls es"
| "loop_calls (RequestScan re we rd # es) = RunScan re we rd False # loop_calls es"
| "loop_calls (Cancelled # es) = []"

lemma start_loop_catalog: "run_calls store_exec (loop_calls es) c = Some (snd (start_loop opts es c))"
proof (induction opts es c rule: start_loop.induct)
  case (2 opts re we rd es c)
  then show ?case using scan_outcome_call [of re we rd c]
    by (cases "scan_outcome re we rd c") (simp split: prod.split)
next
  case (4 opts re we rd es c)
  then show ?case using scan_outcome_call [of re we rd c] by simp
qed (simp_all split: prod.split)

lemma Start_keeps:
  assumes "consistent c"
  shows "consistent (snd (Start opts es c)) \<and> extends c (snd (Start opts es c))"
  using history_extends [OF start_loop_catalog assms] by (simp add: Start_def)


section \<open>What the schedule does\<close>

text \<open>The timer after each turn.\<close>

lemma timers_positive:
  "0 < next_delay (service_intervals opts) out"
  by (simp add: next_delay_def service_intervals_def DefaultRetryDelay_def DefaultDailyInterval_def second_def)

lemma start_loop_timers: "(out, d) \<in> set (fst (start_loop opts es c)) \<Longrightarrow> d = next_delay opts out"
  by (induction opts es c rule: start_loop.induct) (auto simp: Let_def split: prod.splits)

text \<open>A scan records one observation if it succeeds, and nothing otherwise; it never touches the accepted state.\<close>

lemma scan_outcome_effect:
  assumes "consistent c" and "scan_outcome re we rd c = (out, c')"
  shows "accepted c' = accepted c \<and> adoption_operations c' = adoption_operations c \<and> consistent c' \<and> out \<noteq> OutcomeNever \<and>
    length (observations c') = length (observations c) + (if out = OutcomeSucceeded then 1 else 0)"
proof -
  obtain r where run: "Run re we rd False c = (r, c')"
    and out: "out = OutcomeOf (case r of Inl err \<Rightarrow> Some err | Inr x \<Rightarrow> None)"
    using assms(2) by (cases "Run re we rd False c") (auto simp: scan_outcome_def split: sum.splits)
  from run show ?thesis
  proof (cases rule: Run_cases)
    case (refused err)
    then show ?thesis using out assms(1) by (simp add: OutcomeOf_def)
  next
    case (recorded ms result u)
    from RecordObservation_Inr [OF recorded(3) assms(1)] have "consistent c' \<and> length (observations c') = Suc (length (observations c))"
      by (metis (no_types, lifting) Suc_eq_plus1 catalog.select_convs catalog.surjective catalog.update_convs length_append_singleton)
    then show ?thesis using out recorded(4) RecordObservation_accepted [OF recorded(3) assms(1)] by (simp add: OutcomeOf_def)
  qed
qed

fun all_outcomes :: "schedule_event list \<Rightarrow> catalog \<Rightarrow> outcome list" where
  "all_outcomes [] c = []"
| "all_outcomes (LoopScan re we rd # es) c = (case scan_outcome re we rd c of (out, c) \<Rightarrow> out # all_outcomes es c)"
| "all_outcomes (LoopJoin out # es) c = all_outcomes es c"
| "all_outcomes (RequestScan re we rd # es) c = (case scan_outcome re we rd c of (out, c) \<Rightarrow> out # all_outcomes es c)"
| "all_outcomes (Cancelled # es) c = []"

definition succeeded :: "outcome list \<Rightarrow> nat" where
  "succeeded outs = length (filter (\<lambda>out. out = OutcomeSucceeded) outs)"

lemma start_loop_effect:
  "consistent c \<Longrightarrow> accepted (snd (start_loop opts es c)) = accepted c \<and>
    adoption_operations (snd (start_loop opts es c)) = adoption_operations c \<and>
    length (observations (snd (start_loop opts es c))) = length (observations c) + succeeded (all_outcomes es c)"
proof (induction opts es c rule: start_loop.induct)
  case (2 opts re we rd es c)
  obtain out c' where s: "scan_outcome re we rd c = (out, c')" by fastforce
  show ?case using "2.IH" [OF s [symmetric] refl] scan_outcome_effect [OF "2.prems" s]
    by (cases "start_loop opts es c'") (simp add: s succeeded_def)
next
  case (4 opts re we rd es c)
  obtain out c' where s: "scan_outcome re we rd c = (out, c')" by fastforce
  show ?case using "4.IH" scan_outcome_effect [OF "4.prems" s] by (simp add: s succeeded_def)
next
  case (3 opts out es c)
  then show ?case by (cases "start_loop opts es c") simp
qed (simp_all add: succeeded_def)

lemma start_loop_cancelled: "start_loop opts (es @ Cancelled # fs) c = start_loop opts es c"
  by (induction opts es c rule: start_loop.induct) (simp_all split: prod.split)

end
