(* ===== verification/Flags.thy ===== *)
theory Flags
  imports Config
begin

text \<open>
  What \<open>cmd/page-hub\<close> uses of package \<open>flag\<close>: a set of string flags and Boolean flags with their values, and
  \<open>Parse\<close>, which takes \<open>-name value\<close>, \<open>-name=value\<close> and \<open>--name\<close>, stops at the first other argument or after
  \<open>--\<close>, and refuses unknown names. Asking for help by an undeclared \<open>-h\<close> or \<open>-help\<close> is a result of its own.
\<close>

record flag_set =
  fl_Strings :: "(string \<times> string) list"
  fl_Bools :: "(string \<times> bool) list"

datatype flag_error = HelpRequested | BadFlag error

type_synonym parsed = "flag_error + flag_set \<times> string list"

definition set_string :: "string \<Rightarrow> string \<Rightarrow> flag_set \<Rightarrow> flag_set" where
  "set_string name v fs = fs\<lparr>fl_Strings := AList.update name v (fl_Strings fs)\<rparr>"

definition set_bool :: "string \<Rightarrow> bool \<Rightarrow> flag_set \<Rightarrow> flag_set" where
  "set_bool name v fs = fs\<lparr>fl_Bools := AList.update name v (fl_Bools fs)\<rparr>"

definition flag_string :: "flag_set \<Rightarrow> string \<Rightarrow> string" where
  "flag_string fs name = (case map_of (fl_Strings fs) name of None \<Rightarrow> [] | Some v \<Rightarrow> v)"

definition flag_bool :: "flag_set \<Rightarrow> string \<Rightarrow> bool" where
  "flag_bool fs name = (map_of (fl_Bools fs) name = Some True)"

definition bad_flag :: "string \<Rightarrow> string list \<Rightarrow> parsed" where
  "bad_flag f as = Inl (BadFlag (Errorf f as))"

text \<open>The name of an argument that is a flag, without its one or two hyphens.\<close>

definition flag_name :: "string \<Rightarrow> string" where
  "flag_name s = (if 1 < length s \<and> s ! 1 = CHR ''-'' then drop 2 s else drop 1 s)"

fun parse_flags :: "flag_set \<Rightarrow> string list \<Rightarrow> parsed" where
  "parse_flags fs [] = Inr (fs, [])"
| "parse_flags fs (s # rest) =
     (if length s < 2 \<or> hd s \<noteq> CHR ''-'' then Inr (fs, s # rest)
      else if s = ''--'' then Inr (fs, rest)
      else let arg = flag_name s in
        if arg = [] \<or> hd arg = CHR ''-'' \<or> hd arg = CHR ''='' then bad_flag ''bad flag syntax: %s'' [s]
        else let (name, v, has_value) = Cut arg (CHR ''='') in
          if map_of (fl_Bools fs) name \<noteq> None
          then (if \<not> has_value then parse_flags (set_bool name True fs) rest
                else (case ParseBool v of
                    None \<Rightarrow> bad_flag ''invalid boolean value %q for -%s'' [v, name]
                  | Some b \<Rightarrow> parse_flags (set_bool name b fs) rest))
          else if map_of (fl_Strings fs) name \<noteq> None
          then (if has_value then parse_flags (set_string name v fs) rest
                else (case rest of
                    [] \<Rightarrow> bad_flag ''flag needs an argument: -%s'' [name]
                  | w # rest' \<Rightarrow> parse_flags (set_string name w fs) rest'))
          else if name = ''help'' \<or> name = ''h'' then Inl HelpRequested
          else bad_flag ''flag provided but not defined: -%s'' [name])"

definition new_flags :: "(string \<times> string) list \<Rightarrow> (string \<times> bool) list \<Rightarrow> flag_set" where
  "new_flags strings bools = \<lparr>fl_Strings = strings, fl_Bools = bools\<rparr>"

text \<open>A flag and its value, followed by arguments that parse.\<close>

lemma parse_string_flag:
  assumes "map_of (fl_Strings fs) name = Some u" and "map_of (fl_Bools fs) name = None"
    and "name \<noteq> []" and "CHR ''='' \<notin> set name" and "hd name \<noteq> CHR ''-''"
  shows "parse_flags fs ((CHR ''-'' # name) # v # rest) = parse_flags (set_string name v fs) rest"
proof -
  have "flag_name (CHR ''-'' # name) = name" using assms(3,5) by (cases name) (simp_all add: flag_name_def)
  moreover have "Cut name (CHR ''='') = (name, [], False)" using assms(4) by (simp add: Cut_def Index_def)
  moreover have "hd name \<noteq> CHR ''=''" using assms(3,4) by (cases name) auto
  ultimately show ?thesis using assms by (cases name) auto
qed

end
