(* ===== verification/Catalog_Files.thy ===== *)
theory Catalog_Files
  imports S3_Sign Catalog_Lock
begin

text \<open>
  The catalog's files on disk: the directory and the lock of \<open>AcquireLock\<close>, and the data source name that
  \<open>openDB\<close> hands to the driver (\<open>catalog.go\<close>, \<open>lock.go\<close>). Creating a directory and taking a lock are parameters;
  the protocol behind the lock is theory \<open>Catalog_Lock\<close>.
\<close>

section \<open>Directory and lock\<close>

text \<open>\<open>filepath.Dir\<close> on Unix.\<close>

definition filepath_Dir :: "string \<Rightarrow> string" where
  "filepath_Dir p = path_Clean (rev (dropWhile (\<lambda>c. c \<noteq> CHR ''/'') (rev p)))"

definition mkdirAll :: "(string \<Rightarrow> error option) \<Rightarrow> string \<Rightarrow> error option" where
  "mkdirAll mkdir dir = wrap_err ''create catalog directory %s: %w'' [dir] (mkdir dir)"

definition ensureParentDir :: "(string \<Rightarrow> error option) \<Rightarrow> string \<Rightarrow> error option" where
  "ensureParentDir mkdir catalogPath =
     (let dir = filepath_Dir catalogPath in if dir = [] \<or> dir = ''.'' then None else mkdirAll mkdir dir)"

text \<open>What the calls on the lock file answer: \<open>os.OpenFile\<close>, and \<open>flock\<close> without waiting.\<close>

datatype flock_answer = FlockGranted | FlockWouldBlock | FlockFails error

record lock_env =
  le_Mkdir :: "string \<Rightarrow> error option"
  le_OpenFile :: "string \<Rightarrow> error option"
  le_Flock :: "string \<Rightarrow> flock_answer"

definition acquireFlock :: "lock_env \<Rightarrow> string \<Rightarrow> error option" where
  "acquireFlock e lockPath =
     and_then (wrap_err ''open catalog lock %s: %w'' [lockPath] (le_OpenFile e lockPath))
       (case le_Flock e lockPath of
          FlockGranted \<Rightarrow> None
        | FlockWouldBlock \<Rightarrow>
            Some (Errorf ''catalog is held by another Page Hub process; stop the runtime before running this command'' [])
        | FlockFails err \<Rightarrow> Some (Wrapf ''lock catalog %s: %w'' [lockPath] err))"

definition AcquireLock :: "lock_env \<Rightarrow> string \<Rightarrow> error option" where
  "AcquireLock e catalogPath =
     and_then (ensureParentDir (le_Mkdir e) catalogPath) (acquireFlock e (LockPath catalogPath))"

lemma AcquireLock_held:
  assumes "le_Flock e (LockPath path) \<noteq> FlockGranted"
  shows "AcquireLock e path \<noteq> None"
  using assms by (cases "le_Flock e (LockPath path)") (simp_all add: AcquireLock_def acquireFlock_def)

section \<open>The data source name\<close>

definition catalog_pragmas :: "string list" where
  "catalog_pragmas = [''foreign_keys(1)'', ''busy_timeout(5000)'', ''journal_mode(WAL)'', ''synchronous(NORMAL)'']"

definition catalog_dsn :: "string \<Rightarrow> string" where
  "catalog_dsn path = ''file:'' @ path @ ''?'' @ Values_Encode [(''_pragma'', catalog_pragmas)]"

text \<open>What a driver finds that splits the name at its first question mark and parses the query.\<close>

definition dsn_pragmas :: "string \<Rightarrow> string list" where
  "dsn_pragmas dsn = (case Cut dsn (CHR ''?'') of (name, query, found) \<Rightarrow>
     (case map_of (ParseQuery query) ''_pragma'' of None \<Rightarrow> [] | Some vs \<Rightarrow> vs))"

lemma pragma_query:
  "ParseQuery (Values_Encode [(''_pragma'', catalog_pragmas)]) = [(''_pragma'', catalog_pragmas)]"
  using parse_encoded [of "[(''_pragma'', catalog_pragmas)]"] by (simp add: catalog_pragmas_def)

lemma dsn_plain:
  assumes "CHR ''?'' \<notin> set path"
  shows "dsn_pragmas (catalog_dsn path) = catalog_pragmas"
proof -
  have "CHR ''?'' \<notin> set (''file:'' @ path)" using assms by simp
  then have "Cut (catalog_dsn path) (CHR ''?'') = (''file:'' @ path, Values_Encode [(''_pragma'', catalog_pragmas)], True)"
    using Cut_first [of "CHR ''?''" "''file:'' @ path"] by (simp add: catalog_dsn_def)
  then show ?thesis by (simp add: dsn_pragmas_def pragma_query)
qed

text \<open>A question mark in the path takes the first pragma, the enforcement of foreign keys, out of the query.\<close>

lemma dsn_question_mark: "dsn_pragmas (catalog_dsn ''a?b'') = tl catalog_pragmas"
  by code_simp

end
