(* ===== verification/Command.thy ===== *)
theory Command
  imports Plan_File Schedule Migrations Server Flags Catalog_Files
begin

text \<open>
  \<open>cmd/page-hub/main.go\<close>: the command line. A run is a function of its arguments, of what surrounds the process
  (\<open>process\<close>: the environment variables, what file access, storage, the public routes, the lock, the driver and
  the listener answer) and of the files and catalogs it finds; it returns how the process ended (\<open>ending\<close>) with
  the files and catalogs it leaves. \<open>ListObjects\<close> and the other calls of the storage adapter are taken as they
  answer (\<open>NewS3Reader\<close>); a catalog is a \<open>database\<close> whose schema part is the tables of \<open>Catalog_Store\<close>.
  Log lines are not modelled, nor the texts that \<open>flag\<close> writes.
\<close>

section \<open>Processes\<close>

type_synonym catalog_file = "catalog database"

record host =
  ho_Files :: "string \<Rightarrow> string option"
  ho_Catalogs :: "string \<Rightarrow> catalog_file"

record process =
  pr_Version :: string
  pr_Env :: environ
  pr_ReadFile :: "string \<Rightarrow> error option"
  pr_WriteFile :: "string \<Rightarrow> (error \<times> string option) option"
  pr_Stdout :: "error option"
  pr_Storage :: "storage_config \<Rightarrow> reader"
  pr_Routes :: "string \<Rightarrow> http_response res"
  pr_Embedded :: "embedded_file list"
  pr_SQL :: "string \<Rightarrow> catalog_file \<Rightarrow> catalog_file res"
  pr_Lock :: lock_env
  pr_Migrate :: migrate_env
  pr_Open :: open_env
  pr_Commit :: commit_env
  pr_Schedule :: "storage_config \<Rightarrow> schedule_event list"
  pr_Query :: env
  pr_Case :: case_table
  pr_Refresher :: refresher
  pr_Manager :: server
  pr_Listen :: listen_env
  pr_Serve :: "error option"

text \<open>What the manager did before it ended: the turns of its schedule, the address, the handler it served.\<close>

datatype event = Observes "(outcome \<times> duration) list" | Listens "string \<times> string" | Serves server

record ending =
  en_Code :: nat
  en_Stdout :: string
  en_Stderr :: "error list"
  en_Events :: "event list"

type_synonym command = "host \<Rightarrow> ending \<times> host"

text \<open>\<open>fmt.Fprintf(os.Stderr, ...)\<close> followed by \<open>os.Exit\<close>.\<close>

definition die :: "nat \<Rightarrow> error \<Rightarrow> command" where
  "die code err ho = (\<lparr>en_Code = code, en_Stdout = [], en_Stderr = [err], en_Events = []\<rparr>, ho)"

definition succeed :: "string \<Rightarrow> command" where
  "succeed out ho = (\<lparr>en_Code = 0, en_Stdout = out, en_Stderr = [], en_Events = []\<rparr>, ho)"

text \<open>\<open>x, err := r; if err != nil { ... os.Exit(code) }\<close>.\<close>

definition must :: "nat \<Rightarrow> string \<Rightarrow> 'a res \<Rightarrow> ('a \<Rightarrow> command) \<Rightarrow> command" where
  "must code message r k = (case r of Inl err \<Rightarrow> die code (Wrapf message [] err) | Inr x \<Rightarrow> k x)"

definition must_ok :: "nat \<Rightarrow> string \<Rightarrow> error option \<Rightarrow> command \<Rightarrow> command" where
  "must_ok code message r k = (case r of Some err \<Rightarrow> die code (Wrapf message [] err) | None \<Rightarrow> k)"

text \<open>\<open>flag.ExitOnError\<close>: asking for help ends with 0, any other failure with 2.\<close>

definition with_flags :: "flag_set \<Rightarrow> string list \<Rightarrow> (flag_set \<Rightarrow> string list \<Rightarrow> command) \<Rightarrow> command" where
  "with_flags flags args k = (case parse_flags flags args of
       Inl HelpRequested \<Rightarrow> succeed []
     | Inl (BadFlag err) \<Rightarrow> die 2 err
     | Inr (fs, rest) \<Rightarrow> k fs rest)"

section \<open>Files and output\<close>

definition ReadFile :: "process \<Rightarrow> host \<Rightarrow> string \<Rightarrow> string res" where
  "ReadFile pr ho path = (case pr_ReadFile pr path of
       Some err \<Rightarrow> Inl err
     | None \<Rightarrow> (case ho_Files ho path of None \<Rightarrow> Inl (os_error ''no such file or directory'') | Some s \<Rightarrow> Inr s))"

definition writeIndentedJSON :: "process \<Rightarrow> json \<Rightarrow> command" where
  "writeIndentedJSON pr v =
     must_ok 1 ''page-hub: %v'' (pr_Stdout pr) (succeed (MarshalIndent v @ [CHR 0x0A]))"

definition readDeclaration :: "process \<Rightarrow> host \<Rightarrow> string \<Rightarrow> batch_declaration res" where
  "readDeclaration pr ho path = bind_res (ReadFile pr ho path) (\<lambda>encoded.
     case Option.bind (Unmarshal encoded) declaration_of_json of
       None \<Rightarrow> Inl (Errorf ''parse declaration %s: %w'' [path])
     | Some d \<Rightarrow> Inr d)"

text \<open>A failing \<open>os.WriteFile\<close> leaves anything in the file.\<close>

definition writePlan :: "process \<Rightarrow> string \<Rightarrow> string \<Rightarrow> command" where
  "writePlan pr encoded outputPath ho =
     (if outputPath = [] then must_ok 1 ''page-hub plan: %v'' (pr_Stdout pr) (succeed encoded) ho
      else case pr_WriteFile pr outputPath of
          Some (err, left) \<Rightarrow> die 1 (Wrapf ''page-hub plan: %v'' [] err)
            (ho\<lparr>ho_Files := (ho_Files ho)(outputPath := left)\<rparr>)
        | None \<Rightarrow> succeed [] (ho\<lparr>ho_Files := (ho_Files ho)(outputPath \<mapsto> encoded)\<rparr>))"

definition storageConfigFromEnv :: "process \<Rightarrow> storage_config" where
  "storageConfigFromEnv pr = StorageFromEnv (pr_Env pr)"

definition process_reader :: "process \<Rightarrow> reader" where
  "process_reader pr = pr_Storage pr (storageConfigFromEnv pr)"

section \<open>Version and usage\<close>

text \<open>The lines of the usage text.\<close>

definition usage_lines :: "string list" where
  "usage_lines =
    [''page-hub '' @ [CHR 0xE2, CHR 0x80, CHR 0x94] @ '' private manager for Publications'',
     [],
     ''Usage:'',
     ''  page-hub serve                                run the manager (default configuration from the environment)'',
     ''  page-hub migrate -catalog <path>              apply pending catalog migrations'',
     ''  page-hub plan -declaration <file> [-out <file>]'',
     ''                                                plan an explicit adoption declaration against storage and the public routes'',
     ''  page-hub commit -plan <file> -operation-id <uuid> [-catalog <path>]'',
     ''                                                commit an approved adoption batch into the catalog'',
     ''  page-hub check                                opt-in read-only storage compatibility check (no catalog, never changes storage)'',
     ''  page-hub version                              print version and compatible catalog schema'',
     [],
     ''plan and commit require PAGE_HUB_PUBLIC_BASE_URL and the PAGE_HUB_S3_*'',
     ''environment variables. check requires only the PAGE_HUB_S3_* variables and'',
     ''is opt-in: it is never part of ordinary CI or the manager runtime. The'',
     ''manager additionally requires'',
     ''PAGE_HUB_STORAGE_QUOTA_BYTES: the exact bucket quota in bytes, used to'',
     ''report usage alongside bucket observations. Commit refuses to run when'',
     ''PAGE_HUB_PUBLIC_BASE_URL differs from the origin recorded in the approved'',
     ''plan.'']"

definition exitWithUsage :: command where
  "exitWithUsage = die 2 (Errorf (concat (map (\<lambda>l. l @ [CHR 0x0A]) usage_lines)) [])"

definition printVersion :: "process \<Rightarrow> command" where
  "printVersion pr = succeed (''page-hub '' @ pr_Version pr @ [CHR 0x0A] @ ''compatible catalog schema: '' @
     SupportedSchemaRange (pr_Embedded pr) @ [CHR 0x0A])"

section \<open>Plan\<close>

definition plan_flags :: flag_set where
  "plan_flags = new_flags [(''declaration'', []), (''out'', [])] []"

definition runPlan :: "process \<Rightarrow> string list \<Rightarrow> command" where
  "runPlan pr args = with_flags plan_flags args (\<lambda>fs rest ho.
     (if flag_string fs ''declaration'' = [] then die 2 (Errorf ''plan: -declaration <file> is required'' [])
      else must 2 ''page-hub plan: %v'' (PublicBaseURLFromEnv (pr_Env pr)) (\<lambda>publicBaseURL.
           must 2 ''page-hub plan: %v'' (readDeclaration pr ho (flag_string fs ''declaration'')) (\<lambda>d.
           must 1 ''page-hub plan: %v''
             (BuildPlan (Some (process_reader pr)) (Some (HTTPRouteProber_Probe (pr_Routes pr))) publicBaseURL d) (\<lambda>p.
           writePlan pr (EncodePlan p) (flag_string fs ''out''))))) ho)"

section \<open>Commit\<close>

definition commit_flags :: "process \<Rightarrow> flag_set" where
  "commit_flags pr = new_flags [(''plan'', []), (''operation-id'', []),
     (''catalog'', pr_Env pr ''PAGE_HUB_CATALOG_PATH'')] []"

text \<open>The calls of \<open>Commit\<close> that concern the catalog at a path.\<close>

definition process_commit :: "process \<Rightarrow> string \<Rightarrow> catalog_file \<Rightarrow> commit_env" where
  "process_commit pr path db = (pr_Commit pr)\<lparr>ce_lock := AcquireLock (pr_Lock pr) path,
     ce_open := OpenRuntime (pr_Embedded pr) (pr_Open pr) path db\<rparr>"

definition commit_request :: "process \<Rightarrow> plan \<Rightarrow> string \<Rightarrow> string \<Rightarrow> commit_input" where
  "commit_request pr approved operationID publicBaseURL =
     \<lparr>ci_Reader = Some (process_reader pr), ci_Prober = Some (HTTPRouteProber_Probe (pr_Routes pr)),
      ci_Approved = approved, ci_OperationID = operationID, ci_ExpectedPublicBaseURL = publicBaseURL\<rparr>"

definition put_catalog :: "string \<Rightarrow> catalog_file \<Rightarrow> host \<Rightarrow> host" where
  "put_catalog path db ho = ho\<lparr>ho_Catalogs := (ho_Catalogs ho)(path := db)\<rparr>"

text \<open>The map that is printed: \<open>encoding/json\<close> sorts its keys.\<close>

definition json_of_commit :: "commit_result \<Rightarrow> json" where
  "json_of_commit r = JObj [(''replayed'', JBool (cmr_Replayed r)), (''result'', json_of_result (cmr_Result r))]"

definition commit_catalog :: "process \<Rightarrow> commit_input \<Rightarrow> string \<Rightarrow> command" where
  "commit_catalog pr input path ho =
     (let db = ho_Catalogs ho path;
          (r, c) = Commit (process_commit pr path db) input (db_schema db);
          ho' = put_catalog path (db\<lparr>db_schema := c\<rparr>) ho
      in must 1 ''page-hub commit: %v'' r (\<lambda>result. writeIndentedJSON pr (json_of_commit result)) ho')"

definition runCommit :: "process \<Rightarrow> string list \<Rightarrow> command" where
  "runCommit pr args = with_flags (commit_flags pr) args (\<lambda>fs rest ho.
     (let planPath = flag_string fs ''plan''; operationID = flag_string fs ''operation-id'';
          catalogPath = flag_string fs ''catalog'' in
      if planPath = [] \<or> operationID = [] \<or> catalogPath = []
      then die 2 (Errorf ''commit: -plan <file>, -operation-id <uuid>, and a catalog path (-catalog or PAGE_HUB_CATALOG_PATH) are required'' [])
      else must 2 ''page-hub commit: %v'' (ReadFile pr ho planPath) (\<lambda>encoded.
           must 2 ''page-hub commit: %v'' (DecodePlan encoded) (\<lambda>approved.
           must 2 ''page-hub commit: %v'' (PublicBaseURLFromEnv (pr_Env pr)) (\<lambda>publicBaseURL.
           commit_catalog pr (commit_request pr approved operationID publicBaseURL) catalogPath)))) ho)"

section \<open>Migrate\<close>

definition migrate_flags :: "process \<Rightarrow> flag_set" where
  "migrate_flags pr = new_flags [(''catalog'', pr_Env pr ''PAGE_HUB_CATALOG_PATH'')] []"

definition process_migrate :: "process \<Rightarrow> string \<Rightarrow> migrate_env" where
  "process_migrate pr path = (pr_Migrate pr)\<lparr>me_Lock := AcquireLock (pr_Lock pr) path\<rparr>"

definition migrate_catalog :: "process \<Rightarrow> string \<Rightarrow> command" where
  "migrate_catalog pr path ho =
     (let ((n_from, n_to, err), db) = Migrate (pr_Embedded pr) (pr_SQL pr) (process_migrate pr path) (ho_Catalogs ho path)
      in must_ok 1 ''page-hub migrate: %v'' err (succeed []) (put_catalog path db ho))"

definition runMigrate :: "process \<Rightarrow> string list \<Rightarrow> command" where
  "runMigrate pr args = with_flags (migrate_flags pr) args (\<lambda>fs rest.
     let path = flag_string fs ''catalog'' in
     if path = [] then die 2 (Errorf ''migrate: a catalog path is required (-catalog or PAGE_HUB_CATALOG_PATH)'' [])
     else migrate_catalog pr path)"

section \<open>Check\<close>

definition check_flags :: flag_set where "check_flags = new_flags [] []"

text \<open>No downloaded key leaves the slice nil.\<close>

definition json_of_report :: "compatibility_report \<Rightarrow> json" where
  "json_of_report r = JObj [(''objects'', JNum (int (cr_Objects r))), (''totalBytes'', json_int64 (cr_TotalBytes r)),
     (''downloadedKeys'', json_slice JStr (cr_DownloadedKeys r))]"

definition runCheck :: "process \<Rightarrow> string list \<Rightarrow> command" where
  "runCheck pr args = with_flags check_flags args (\<lambda>fs rest.
     if rest \<noteq> [] then die 2 (Errorf ''check: unexpected arguments'' [])
     else must 1 ''page-hub check: %v'' (CheckCompatibility (process_reader pr))
       (\<lambda>report. writeIndentedJSON pr (json_of_report report)))"

section \<open>Serve\<close>

text \<open>
  The manager's handler: the configured server with the catalog's inventory, a refresher and no public handler. The
  other parts of \<open>server\<close> are as the process finds them.
\<close>

definition process_server :: "process \<Rightarrow> config \<Rightarrow> catalog \<Rightarrow> server" where
  "process_server pr cfg c = (pr_Manager pr)\<lparr>hs_config := cfg, hs_inventory := Some (Inventory (pr_Case pr) (pr_Query pr) c),
     hs_refresher := Some (pr_Refresher pr), hs_public := None\<rparr>"

definition with_event :: "event \<Rightarrow> command \<Rightarrow> command" where
  "with_event ev k ho = map_prod (\<lambda>e. e\<lparr>en_Events := ev # en_Events e\<rparr>) id (k ho)"

text \<open>The observation service runs beside the rest from its start to the end of the process.\<close>

definition observing :: "process \<Rightarrow> config \<Rightarrow> command \<Rightarrow> command" where
  "observing pr cfg k ho =
     (let path = cf_CatalogPath cfg; db = ho_Catalogs ho path;
          (log, c) = Start \<lparr>so_DailyInterval = 0, so_RetryDelay = 0\<rparr> (pr_Schedule pr (cf_Storage cfg)) (db_schema db)
      in with_event (Observes log) k (put_catalog path (db\<lparr>db_schema := c\<rparr>) ho))"

text \<open>\<open>Serve\<close> returns \<open>http.ErrServerClosed\<close> (no error) or stops with one.\<close>

definition serve_listener :: "process \<Rightarrow> server \<Rightarrow> string \<times> string \<Rightarrow> command" where
  "serve_listener pr application address =
     with_event (Listens address) (with_event (Serves application)
       (must_ok 1 ''page-hub manager stopped'' (pr_Serve pr) (succeed [])))"

definition runServe :: "process \<Rightarrow> command" where
  "runServe pr ho =
     must 2 ''page-hub configuration error: %v'' (Config_Load (pr_Env pr)) (\<lambda>cfg.
     let cfg = cfg\<lparr>cf_Version := pr_Version pr\<rparr>; path = cf_CatalogPath cfg; db = ho_Catalogs ho path in
     must_ok 2 ''page-hub catalog error: %v'' (AcquireLock (pr_Lock pr) path)
    (must_ok 2 ''page-hub catalog error: %v'' (OpenRuntime (pr_Embedded pr) (pr_Open pr) path db)
    (observing pr cfg
    (must 2 ''page-hub startup error: %v'' (New (process_server pr cfg (db_schema db))) (\<lambda>application.
     must 2 ''page-hub listener error: %v'' (Listen (pr_Listen pr) (cf_ListenAddr cfg)) (\<lambda>(address, cleanup).
     serve_listener pr application address)))))) ho"

section \<open>Main\<close>

definition top_flags :: flag_set where "top_flags = new_flags [] [(''version'', False)]"

definition top_level :: "process \<Rightarrow> string list \<Rightarrow> command" where
  "top_level pr args = (case parse_flags top_flags args of
       Inl err \<Rightarrow> exitWithUsage
     | Inr (fs, rest) \<Rightarrow>
         if flag_bool fs ''version'' then printVersion pr
         else if rest \<noteq> [] then exitWithUsage
         else runServe pr)"

text \<open>The arguments without the program's name.\<close>

definition main :: "process \<Rightarrow> string list \<Rightarrow> command" where
  "main pr args = (case args of
       [] \<Rightarrow> top_level pr args
     | name # rest \<Rightarrow>
         if name = ''serve'' then runServe pr
         else if name = ''migrate'' then runMigrate pr rest
         else if name = ''plan'' then runPlan pr rest
         else if name = ''commit'' then runCommit pr rest
         else if name = ''check'' then runCheck pr rest
         else if name = ''version'' then printVersion pr
         else top_level pr args)"

end
