(* ===== verification/Command_Outcome.thy ===== *)
theory Command_Outcome
  imports Command
begin

text \<open>
  What a run of the command line can do. The combinators of theory \<open>Command\<close> get rules in the style of a program
  logic: a property of every ending follows from one for each branch. With them every run falls under one of a few
  cases, by what it leaves on the host.
\<close>

section \<open>Rules\<close>

text \<open>Case splits of the combinators, for the simplifier.\<close>

lemma must_split:
  "Q (must code msg r k ho) \<longleftrightarrow> (\<forall>err. r = Inl err \<longrightarrow> Q (die code (Wrapf msg [] err) ho)) \<and> (\<forall>x. r = Inr x \<longrightarrow> Q (k x ho))"
  by (cases r) (simp_all add: must_def)

lemma must_ok_split:
  "Q (must_ok code msg r k ho) \<longleftrightarrow> (\<forall>err. r = Some err \<longrightarrow> Q (die code (Wrapf msg [] err) ho)) \<and> (r = None \<longrightarrow> Q (k ho))"
  by (cases r) (simp_all add: must_ok_def)

lemma with_flags_split:
  "Q (with_flags flags args k ho) \<longleftrightarrow>
     (parse_flags flags args = Inl HelpRequested \<longrightarrow> Q (succeed [] ho)) \<and>
     (\<forall>err. parse_flags flags args = Inl (BadFlag err) \<longrightarrow> Q (die 2 err ho)) \<and>
     (\<forall>fs rest. parse_flags flags args = Inr (fs, rest) \<longrightarrow> Q (k fs rest ho))"
  by (auto simp: with_flags_def split: sum.split flag_error.split)

lemma must_simps [simp]:
  "must code msg (Inl err) k = die code (Wrapf msg [] err)" "must code msg (Inr x) k = k x"
  "must_ok code msg (Some err) c = die code (Wrapf msg [] err)" "must_ok code msg None c = c"
  by (simp_all add: must_def must_ok_def fun_eq_iff)

lemmas command_splits = must_split must_ok_split with_flags_split

lemma die_simps [simp]:
  "snd (die code err ho) = ho" "en_Code (fst (die code err ho)) = code" "en_Events (fst (die code err ho)) = []"
  "en_Stdout (fst (die code err ho)) = []"
  by (simp_all add: die_def)

lemma succeed_simps [simp]:
  "snd (succeed out ho) = ho" "en_Code (fst (succeed out ho)) = 0" "en_Events (fst (succeed out ho)) = []"
  "en_Stdout (fst (succeed out ho)) = out"
  by (simp_all add: succeed_def)

lemma with_event_simps [simp]:
  "snd (with_event ev k ho) = snd (k ho)" "en_Code (fst (with_event ev k ho)) = en_Code (fst (k ho))"
  "en_Events (fst (with_event ev k ho)) = ev # en_Events (fst (k ho))"
  by (simp_all add: with_event_def)

lemma put_catalog_simps [simp]:
  "ho_Files (put_catalog path db ho) = ho_Files ho" "ho_Catalogs (put_catalog path db ho) path = db"
  "q \<noteq> path \<Longrightarrow> ho_Catalogs (put_catalog path db ho) q = ho_Catalogs ho q"
  by (simp_all add: put_catalog_def)

lemma exit_simps [simp]: "exitWithUsage ho = die 2 (Errorf (concat (map (\<lambda>l. l @ [CHR 0x0A]) usage_lines)) []) ho"
  by (simp add: exitWithUsage_def)

section \<open>Endings\<close>

text \<open>A run that leaves the host as it was and starts nothing.\<close>

definition harmless :: "host \<Rightarrow> ending \<times> host \<Rightarrow> bool" where
  "harmless ho r \<longleftrightarrow> snd r = ho \<and> en_Events (fst r) = []"

lemma harmless_ends [simp]: "harmless ho (die code err ho)" "harmless ho (succeed out ho)"
  by (simp_all add: harmless_def)

lemma harmless_output: "harmless ho (writeIndentedJSON pr v ho)"
  by (simp add: writeIndentedJSON_def split: command_splits)

lemma harmless_check: "harmless ho (runCheck pr args ho)"
  by (simp add: runCheck_def harmless_output split: command_splits)

lemma harmless_version: "harmless ho (printVersion pr ho)"
  by (simp add: printVersion_def)

text \<open>A run that replaces one file.\<close>

definition writes_file :: "process \<Rightarrow> host \<Rightarrow> ending \<times> host \<Rightarrow> bool" where
  "writes_file pr ho r \<longleftrightarrow> (\<exists>path v. snd r = ho\<lparr>ho_Files := (ho_Files ho)(path := v)\<rparr>) \<and>
     en_Events (fst r) = [] \<and> en_Code (fst r) \<le> 1"

lemma plan_outcome: "harmless ho (runPlan pr args ho) \<or> writes_file pr ho (runPlan pr args ho)"
proof -
  have "harmless ho (writePlan pr enc out ho) \<or> writes_file pr ho (writePlan pr enc out ho)" for enc out
    unfolding writePlan_def
    by (cases "out = []"; cases "pr_WriteFile pr out")
      (auto simp: writes_file_def must_ok_def split: option.split prod.split)
  then show ?thesis by (simp add: runPlan_def split: command_splits)
qed

text \<open>A run of \<open>Commit\<close> on the catalog at a path.\<close>

definition commits :: "process \<Rightarrow> host \<Rightarrow> ending \<times> host \<Rightarrow> bool" where
  "commits pr ho r \<longleftrightarrow> (\<exists>path input. let db = ho_Catalogs ho path in
     snd r = put_catalog path (db\<lparr>db_schema := snd (Commit (process_commit pr path db) input (db_schema db))\<rparr>) ho) \<and>
     en_Events (fst r) = [] \<and> en_Code (fst r) \<le> 1"

lemma commit_catalog_outcome: "commits pr ho (commit_catalog pr input path ho)"
proof -
  obtain r c where run: "Commit (process_commit pr path (ho_Catalogs ho path)) input (db_schema (ho_Catalogs ho path)) = (r, c)"
    by fastforce
  let ?ho = "put_catalog path ((ho_Catalogs ho path)\<lparr>db_schema := c\<rparr>) ho"
  have "snd x = ?ho \<and> en_Events (fst x) = [] \<and> en_Code (fst x) \<le> 1"
    if "x = must 1 ''page-hub commit: %v'' r (\<lambda>result. writeIndentedJSON pr (json_of_commit result)) ?ho" for x
    by (simp add: that writeIndentedJSON_def split: command_splits)
  then show ?thesis
    unfolding commits_def commit_catalog_def Let_def run by (intro conjI exI [of _ path] exI [of _ input]) (simp_all add: run)
qed

lemma commit_outcome: "harmless ho (runCommit pr args ho) \<or> commits pr ho (runCommit pr args ho)"
  by (simp add: runCommit_def Let_def commit_catalog_outcome split: command_splits)

text \<open>A run of \<open>Migrate\<close> on the catalog at a path.\<close>

definition migrates :: "process \<Rightarrow> host \<Rightarrow> ending \<times> host \<Rightarrow> bool" where
  "migrates pr ho r \<longleftrightarrow> (\<exists>path. snd r =
     put_catalog path (snd (Migrate (pr_Embedded pr) (pr_SQL pr) (process_migrate pr path) (ho_Catalogs ho path))) ho) \<and>
     en_Events (fst r) = [] \<and> en_Code (fst r) \<le> 1"

lemma migrate_catalog_outcome: "migrates pr ho (migrate_catalog pr path ho)"
  unfolding migrates_def migrate_catalog_def Let_def
  by (intro conjI exI [of _ path]) (auto split: prod.split command_splits)

lemma migrate_outcome: "harmless ho (runMigrate pr args ho) \<or> migrates pr ho (runMigrate pr args ho)"
  by (simp add: runMigrate_def Let_def migrate_catalog_outcome split: command_splits)

section \<open>Serving\<close>

text \<open>The configuration of a manager that has the lock and a verified catalog.\<close>

definition manager_config :: "process \<Rightarrow> host \<Rightarrow> config \<Rightarrow> bool" where
  "manager_config pr ho cfg \<longleftrightarrow> (\<exists>loaded. Config_Load (pr_Env pr) = Inr loaded \<and> cfg = loaded\<lparr>cf_Version := pr_Version pr\<rparr>) \<and>
     AcquireLock (pr_Lock pr) (cf_CatalogPath cfg) = None \<and>
     OpenRuntime (pr_Embedded pr) (pr_Open pr) (cf_CatalogPath cfg) (ho_Catalogs ho (cf_CatalogPath cfg)) = None"

definition schedule_run :: "process \<Rightarrow> config \<Rightarrow> host \<Rightarrow> (outcome \<times> duration) list \<times> catalog" where
  "schedule_run pr cfg ho = Start \<lparr>so_DailyInterval = 0, so_RetryDelay = 0\<rparr> (pr_Schedule pr (cf_Storage cfg))
     (db_schema (ho_Catalogs ho (cf_CatalogPath cfg)))"

text \<open>
  A manager that got that far: its scans ran, and either it ended with 2 before it listened, or it listened and served
  the configured handler.
\<close>

definition manages :: "process \<Rightarrow> host \<Rightarrow> ending \<times> host \<Rightarrow> bool" where
  "manages pr ho r \<longleftrightarrow> (\<exists>cfg. manager_config pr ho cfg \<and>
     snd r = put_catalog (cf_CatalogPath cfg) ((ho_Catalogs ho (cf_CatalogPath cfg))\<lparr>db_schema := snd (schedule_run pr cfg ho)\<rparr>) ho \<and>
     (en_Code (fst r) = 2 \<and> en_Events (fst r) = [Observes (fst (schedule_run pr cfg ho))] \<or>
      en_Code (fst r) \<le> 1 \<and> (\<exists>application address cleanup.
        New (process_server pr cfg (db_schema (ho_Catalogs ho (cf_CatalogPath cfg)))) = Inr application \<and>
        Listen (pr_Listen pr) (cf_ListenAddr cfg) = Inr (address, cleanup) \<and>
        en_Events (fst r) = [Observes (fst (schedule_run pr cfg ho)), Listens address, Serves application])))"

lemma observing_simps:
  "snd (observing pr cfg k ho) = snd (k (put_catalog (cf_CatalogPath cfg)
     ((ho_Catalogs ho (cf_CatalogPath cfg))\<lparr>db_schema := snd (schedule_run pr cfg ho)\<rparr>) ho))"
  "en_Code (fst (observing pr cfg k ho)) = en_Code (fst (k (put_catalog (cf_CatalogPath cfg)
     ((ho_Catalogs ho (cf_CatalogPath cfg))\<lparr>db_schema := snd (schedule_run pr cfg ho)\<rparr>) ho)))"
  "en_Events (fst (observing pr cfg k ho)) = Observes (fst (schedule_run pr cfg ho)) # en_Events (fst (k (put_catalog (cf_CatalogPath cfg)
     ((ho_Catalogs ho (cf_CatalogPath cfg))\<lparr>db_schema := snd (schedule_run pr cfg ho)\<rparr>) ho)))"
  by (simp_all add: observing_def schedule_run_def Let_def split: prod.split)

lemma serve_listener_simps:
  "snd (serve_listener pr application address ho) = ho"
  "en_Code (fst (serve_listener pr application address ho)) = (if pr_Serve pr = None then 0 else 1)"
  "en_Events (fst (serve_listener pr application address ho)) = [Listens address, Serves application]"
  by (simp_all add: serve_listener_def must_ok_def split: option.split)

lemma manages_observing:
  assumes "manager_config pr ho cfg"
  shows "manages pr ho (observing pr cfg
    (must 2 ''page-hub startup error: %v'' (New (process_server pr cfg (db_schema (ho_Catalogs ho (cf_CatalogPath cfg))))) (\<lambda>application.
     must 2 ''page-hub listener error: %v'' (Listen (pr_Listen pr) (cf_ListenAddr cfg)) (\<lambda>(address, cleanup).
     serve_listener pr application address))) ho)"
  unfolding manages_def observing_simps
  using assms by (intro exI [of _ cfg]) (simp add: serve_listener_simps must_def split: sum.split prod.split)

lemma serve_outcome: "harmless ho (runServe pr ho) \<or> manages pr ho (runServe pr ho)"
proof (cases "Config_Load (pr_Env pr)")
  case (Inl err)
  then show ?thesis by (simp add: runServe_def must_def)
next
  case (Inr loaded)
  let ?cfg = "loaded\<lparr>cf_Version := pr_Version pr\<rparr>"
  have "manages pr ho (runServe pr ho)" if "manager_config pr ho ?cfg"
    using manages_observing [OF that] that by (simp add: runServe_def Inr manager_config_def Let_def)
  moreover have "harmless ho (runServe pr ho)" if "\<not> manager_config pr ho ?cfg"
    using that by (auto simp: runServe_def Inr manager_config_def Let_def split: must_ok_split)
  ultimately show ?thesis by blast
qed

section \<open>Every run\<close>

lemma top_level_outcome: "harmless ho (top_level pr args ho) \<or> manages pr ho (top_level pr args ho)"
  using serve_outcome [of ho pr] harmless_version [of ho pr] by (simp add: top_level_def split: sum.split)

lemma main_outcome:
  obtains (harmless) "harmless ho (main pr args ho)" | (writes) "writes_file pr ho (main pr args ho)"
  | (commits) "commits pr ho (main pr args ho)" | (migrates) "migrates pr ho (main pr args ho)"
  | (manages) "manages pr ho (main pr args ho)"
proof -
  have "harmless ho (main pr args ho) \<or> writes_file pr ho (main pr args ho) \<or> commits pr ho (main pr args ho) \<or>
      migrates pr ho (main pr args ho) \<or> manages pr ho (main pr args ho)"
    using serve_outcome [of ho pr] migrate_outcome [of ho pr] plan_outcome [of ho pr] commit_outcome [of ho pr]
      harmless_check [of ho pr] harmless_version [of ho pr] top_level_outcome [of ho pr args]
    by (cases args) (simp_all add: main_def, metis+)
  then show ?thesis using that by blast
qed

end
