(* ===== verification/Command_Examples.thy ===== *)
theory Command_Examples
  imports Command_Outcome Base_Properties Schema_Properties Server_Properties
begin

text \<open>
  Concrete processes: a deployment with a migrated, empty catalog at \<open>c\<close>, a declaration in the file \<open>d\<close>, storage
  that holds its object, a route that answers, and a listener. The properties of the command line are applied to it.
\<close>

section \<open>A host and a process\<close>

definition cli_sql :: "string \<Rightarrow> catalog_file \<Rightarrow> catalog_file res" where
  "cli_sql sql db = Inr (db\<lparr>db_history := (if sql = ''A'' \<and> db_history db = None then Some [] else db_history db)\<rparr>)"

definition cli_database :: catalog_file where
  "cli_database = \<lparr>db_schema = empty_catalog, db_history = Some (map recorded_step ex_migrations), db_user_version = 2\<rparr>"

definition cli_host :: host where
  "cli_host = \<lparr>ho_Files = [''d'' \<mapsto> Marshal (json_of_declaration ex_declaration)], ho_Catalogs = (\<lambda>path. cli_database)\<rparr>"

definition cli_routes :: "string \<Rightarrow> http_response res" where
  "cli_routes url = Inr \<lparr>hr_StatusCode = 200, hr_ContentType = ''t'', hr_Body = [], hr_BodyError = None\<rparr>"

definition cli_lock :: lock_env where
  "cli_lock = \<lparr>le_Mkdir = (\<lambda>dir. None), le_OpenFile = (\<lambda>path. None), le_Flock = (\<lambda>path. FlockGranted)\<rparr>"

definition cli_process :: process where
  "cli_process = \<lparr>pr_Version = ''1'', pr_Env = ex_environ, pr_ReadFile = (\<lambda>path. None), pr_WriteFile = (\<lambda>path. None),
     pr_Stdout = None, pr_Storage = (\<lambda>cfg. ex_reader), pr_Routes = cli_routes, pr_Embedded = ex_files, pr_SQL = cli_sql,
     pr_Lock = cli_lock, pr_Migrate = ex_quiet_migrate, pr_Open = ex_open, pr_Commit = ex_commit_env,
     pr_Schedule = (\<lambda>cfg. [LoopScan ex_env ex_env ex_reader, Cancelled]), pr_Query = ex_env, pr_Case = id,
     pr_Refresher = \<lparr>rf_Before = (False, OutcomeNever), rf_After = (False, OutcomeNever)\<rparr>, pr_Manager = ex_server None,
     pr_Listen = \<lparr>lse_Stat = (\<lambda>p. None), lse_Remove = (\<lambda>p. True), lse_Listen = (\<lambda>n a. True), lse_Chmod = (\<lambda>p. True)\<rparr>,
     pr_Serve = None\<rparr>"

text \<open>The same process while another one holds the lock.\<close>

definition cli_locked_out :: process where
  "cli_locked_out = cli_process\<lparr>pr_Lock := cli_lock\<lparr>le_Flock := (\<lambda>path. FlockWouldBlock)\<rparr>\<rparr>"

lemma cli_simps [simp]:
  "pr_Version cli_process = ''1''" "pr_Env cli_process = ex_environ" "pr_ReadFile cli_process p = None"
  "pr_WriteFile cli_process p = None" "pr_Stdout cli_process = None" "pr_Storage cli_process sc = ex_reader"
  "pr_Routes cli_process = cli_routes" "pr_Embedded cli_process = ex_files" "pr_SQL cli_process = cli_sql"
  "pr_Lock cli_process = cli_lock" "pr_Open cli_process = ex_open" "pr_Commit cli_process = ex_commit_env"
  "pr_Serve cli_process = None" "Listen (pr_Listen cli_process) ''127.0.0.1:8080'' = Inr ((''tcp'', ''127.0.0.1:8080''), None)"
  "ho_Catalogs cli_host p = cli_database" "db_schema cli_database = empty_catalog"
  by (simp_all add: cli_process_def cli_host_def cli_database_def Listen_def HasPrefix_def)

lemma cli_keeps: "sql = sql \<Longrightarrow> cli_sql sql db = Inr db' \<Longrightarrow> db_schema db' = db_schema db"
  by (auto simp: cli_sql_def)

lemma cli_lock_free: "AcquireLock cli_lock path = None"
  by (simp add: AcquireLock_def acquireFlock_def cli_lock_def ensureParentDir_def mkdirAll_def wrap_err_def Let_def)

lemma cli_migrated: "catalog_at ex_migrations 2 cli_database"
proof -
  have "{1..2::int} = {1, 2}" by auto
  then show ?thesis
    by (simp add: catalog_at_def history_keys_def applied_of_def cli_database_def known_prefix_def ex_migrations_def
        recorded_step_def)
qed

lemma TrimSpace_c: "TrimSpace ''c'' \<noteq> []"
  by (simp add: TrimSpace_word)

lemma cli_opens: "OpenRuntime ex_files ex_open ''c'' cli_database = None"
proof -
  have "length ex_migrations = 2" "history_keys cli_database" "oe_QuickCheck ex_open = Inr ''ok''"
    using cli_migrated by (simp_all add: ex_migrations_def catalog_at_def ex_open_def)
  then show ?thesis using OpenRuntime_iff [OF ex_Migrations ex_numbered _ ex_open_quiet, of cli_database] TrimSpace_c cli_migrated by simp
qed

section \<open>Its configuration and its declaration\<close>

lemma cli_loads:
  obtains c where "Config_Load ex_environ = Inr c" "cf_CatalogPath c = ''c''" "cf_ListenAddr c = ''127.0.0.1:8080''"
    "Config_Validate (c\<lparr>cf_Version := v\<rparr>) = None"
proof -
  obtain c where c: "Config_Load ex_environ = Inr c" using ex_loads by blast
  then have "cf_CatalogPath c = ''c''" "cf_ListenAddr c = ''127.0.0.1:8080''"
    by (auto simp: Config_Load_def bind_res_Inr require_Inr Let_def ex_environ_def envOr_def DefaultListenAddr_def)
  moreover have "Config_Validate (c\<lparr>cf_Version := v\<rparr>) = None"
    using Config_Load_safe [OF c] by (simp add: Config_Validate_def)
  ultimately show ?thesis using that c by blast
qed

lemma cli_base: "PublicBaseURLFromEnv ex_environ = Inr ex_base"
  using ex_base_normal by (simp add: PublicBaseURLFromEnv_def ex_environ_def ex_base_def)

lemma cli_declaration: "readDeclaration cli_process cli_host ''d'' = Inr ex_declaration"
proof -
  have "valid_json (json_of_declaration ex_declaration)"
    by (simp add: json_of_declaration_def json_of_publication_def json_of_project_def json_of_route_probe_def json_slice_def
        omit_empty_def ex_declaration_def ex_publication_def RoutingExactFile_def valid_utf8_ascii byte_def)
  then have "Unmarshal (Marshal (json_of_declaration ex_declaration)) = Some (json_of_declaration ex_declaration)"
    by (rule Unmarshal_Marshal)
  moreover have "declaration_of_json (json_of_declaration ex_declaration) = Some ex_declaration"
    by (rule declaration_reads_back) (simp_all add: ex_declaration_def ex_publication_def go_int_def)
  ultimately show ?thesis by (simp add: readDeclaration_def ReadFile_def cli_host_def)
qed

section \<open>Its plan\<close>

definition cli_planned :: planned_publication where
  "cli_planned = ex_planned\<lparr>plb_Probes := [\<lparr>plp_Path = [], plp_URL = ex_base @ ''/p'', plp_ExpectStatus = 200,
     plp_ObservedStatus = 200, plp_ContentType = ''t'', plp_BodySHA256 = ''sha256:'' @ sha256_hex []\<rparr>]\<rparr>"

definition cli_plan :: plan where
  "cli_plan = (let content = \<lparr>pc_Version = 1, pc_PublicBaseURL = ex_base, pc_Declaration = ex_declaration,
      pc_Publications = [cli_planned]\<rparr> in \<lparr>plan_Content = content, plan_Digest = Digest content\<rparr>)"

lemma cli_probe: "HTTPRouteProber_Probe cli_routes (ex_base @ ''/p'') =
    Inr \<lparr>pbo_Status = 200, pbo_ContentType = ''t'', pbo_BodySHA256 = ''sha256:'' @ sha256_hex []\<rparr>"
proof -
  have "url_Parse (ex_base @ ''/p'') \<noteq> None" unfolding ex_base_def by code_simp
  moreover have "TrimSpace ''t'' = ''t''" by (simp add: TrimSpace_def runes_ascii byte_def IsSpace_def)
  ultimately show ?thesis by (simp add: HTTPRouteProber_Probe_def cli_routes_def)
qed

lemma cli_plan_publication:
  "planPublication ex_reader (HTTPRouteProber_Probe cli_routes) ex_base (index_by ol_Key [ex_listing]) ex_publication = Inr cli_planned"
  using cli_probe
  by (simp add: planPublication_def ex_publication_def ex_planned_def cli_planned_def CanonicalURL_def RoutingExactFile_def
      index_by_def ex_listing_def ex_reader_def ex_content_def modified_of_def IsZero_def ex_time_def second_def
      After_def plan_probe_def ProbeURL_def DisplayNameOr_def TrimSpace_def defaultDisplayName_def
      sortObjects_def sortProbes_def Let_def)

lemma cli_build: "BuildPlan (Some ex_reader) (Some (HTTPRouteProber_Probe cli_routes)) ex_base ex_declaration = Inr cli_plan"
proof -
  have "checkNoUnexpectedObjects [ex_listing] ex_declaration = None" by (simp add: checkNoUnexpected_None)
  then show ?thesis
    using cli_plan_publication
    by (simp add: BuildPlan_def ex_base_normal iffD2 [OF Declaration_Validate_iff ex_declaration_valid]
        wrap_err_def cli_plan_def Let_def)
qed

lemma cli_plan_simps [simp]:
  "pc_PublicBaseURL (plan_Content cli_plan) = ex_base" "pc_Publications (plan_Content cli_plan) = [cli_planned]"
  "pc_Declaration (plan_Content cli_plan) = ex_declaration" "pc_Version (plan_Content cli_plan) = 1"
  by (simp_all add: cli_plan_def Let_def)

lemma hash_text: "valid_utf8 (''sha256:'' @ sha256_hex s)"
proof (rule valid_utf8_ascii, rule ballI)
  fix c assume "c \<in> set (''sha256:'' @ sha256_hex s)"
  then have "c \<in> set ''sha256:'' \<or> c \<in> set (hex_bytes (Sum256 (str_bytes s)))" by (simp add: sha256_hex_def)
  then show "byte c < 128" using hex_bytes_ascii by (auto simp: byte_def)
qed

lemma cli_time: "FormatRFC3339 ex_time = ''0054-11-14T22:13:20Z''"
  unfolding ex_time_def second_def by code_simp

lemma cli_names_valid:
  "valid_utf8 ''p''" "valid_utf8 (FormatRFC3339 ex_time)" "valid_utf8 ''t''" "valid_utf8 (ex_base @ ''/p'')" "valid_utf8 ex_base" "valid_utf8 RoutingExactFile"
  by (simp_all add: ex_base_def RoutingExactFile_def cli_time valid_utf8_ascii byte_def)

lemma cli_field_names:
  "list_all valid_utf8 [''path'', ''url'', ''expectStatus'', ''observedStatus'', ''contentType'', ''bodySha256'', ''project'',
     ''displayName'', ''entryPoint'', ''routingMode'', ''canonicalUrl'', ''contentChangedAt'', ''objects'', ''probes'',
     ''prefix'', ''plan'', ''digest'', ''version'', ''publicBaseURL'', ''declaration'', ''publications'']" "valid_utf8 []"
  by (simp_all add: valid_utf8_ascii byte_def)

lemma cli_object_valid: "valid_json (json_of_planned_object (planned_object_of ''p'' ''p'' ex_content ex_time))"
  by (simp add: planned_object_of_def json_of_planned_object_def ex_content_def cli_time json_of_map_def metadataOrEmpty_def
      json_int64_def omit_empty_def entries_def RelativePath_def AfterLast_def LastIndex_def valid_utf8_ascii byte_def)

lemma cli_planned_valid: "valid_json (json_of_planned cli_planned)"
  using hash_text [of "[]"] cli_object_valid cli_names_valid cli_field_names
  by (simp add: cli_planned_def ex_planned_def json_of_planned_def json_of_project_def json_of_planned_probe_def
      json_slice_def omit_empty_def del: append.simps)

lemma cli_declaration_valid: "valid_json (json_of_declaration ex_declaration)"
  using cli_names_valid cli_field_names
  by (simp add: json_of_declaration_def json_of_publication_def json_of_project_def json_of_route_probe_def json_slice_def
      omit_empty_def ex_publication_def)

lemma cli_publication_ok: "publication_ok cli_planned"
  by (simp add: publication_ok_def cli_planned_def ex_planned_def planned_object_of_def ex_content_def map_ok_def probe_ints_def
      go_int_def metadataOrEmpty_def entries_def)

lemma cli_encodable: "plan_encodable cli_plan"
proof -
  have "valid_utf8 (plan_Digest cli_plan)"
    using hash_text by (simp add: cli_plan_def Let_def Digest_def del: append.simps)
  then have "valid_json (json_of_plan cli_plan)"
    using cli_planned_valid cli_declaration_valid cli_field_names cli_names_valid
    by (simp add: json_of_plan_def json_of_content_def json_slice_def)
  then show ?thesis
    using cli_publication_ok
    by (simp add: plan_encodable_def Let_def go_int_def ex_publication_def ex_declaration_def)
qed

end
