(* ===== verification/Command_Properties.thy ===== *)
theory Command_Properties
  imports Command_Examples
begin

text \<open>
  The properties of the command line and of the parts that meet in it: plan files, the schedule, the safety of any
  sequence of commands, and a plan that is committed by a later command.
\<close>

section \<open>Sequences of commands\<close>



definition grows :: "catalog_file \<Rightarrow> catalog_file \<Rightarrow> bool" where
  "grows db db' \<longleftrightarrow> (consistent (db_schema db) \<longrightarrow> consistent (db_schema db') \<and> extends (db_schema db) (db_schema db'))"

lemma grows_refl [simp]: "grows db db"
  by (simp add: grows_def)











section \<open>Refusals\<close>





section \<open>The manager\<close>






section \<open>The schedule\<close>



section \<open>Plan files\<close>

text \<open>What \<open>Commit\<close> uses of the approved plan.\<close>

lemma Commit_same_plan:
  assumes "plan_Digest p = plan_Digest q" "pc_PublicBaseURL (plan_Content p) = pc_PublicBaseURL (plan_Content q)"
    and "pc_Declaration (plan_Content p) = pc_Declaration (plan_Content q)" "Plan_Verify p = Plan_Verify q"
  shows "Commit ce (input\<lparr>ci_Approved := p\<rparr>) c = Commit ce (input\<lparr>ci_Approved := q\<rparr>) c"
proof -
  let ?i = "input\<lparr>ci_Approved := p\<rparr>" and ?j = "input\<lparr>ci_Approved := q\<rparr>"
  have pre: "precheck ?i = precheck ?j" using assms by (simp add: precheck_def)
  have batch: "batch_of ?i = batch_of ?j" using assms(1) by (simp add: batch_of_def fun_eq_iff)
  have sel: "ci_Approved ?i = p" "ci_Approved ?j = q" "ci_Reader ?i = ci_Reader ?j" "ci_Prober ?i = ci_Prober ?j"
    "ci_OperationID ?i = ci_OperationID ?j" by simp_all
  have re: "recheck_commit ce ?i c = recheck_commit ce ?j c" unfolding recheck_commit_def Let_def sel batch assms(1,2,3) ..
  have "locked_commit ce ?i c = locked_commit ce ?j c" unfolding locked_commit_def sel assms(1) re ..
  then show ?thesis by (simp only: Commit_def pre)
qed

lemma plan_same: "Commit ce (input\<lparr>ci_Approved := stored_plan p\<rparr>) c = Commit ce (input\<lparr>ci_Approved := p\<rparr>) c"
  by (rule Commit_same_plan) simp_all

lemma plan_read:
  assumes "BuildPlan rd pb url d = Inr p" and "plan_encodable p"
  shows "DecodePlan (EncodePlan p) = Inr (stored_plan p)" and "plan_Digest p = Digest (plan_Content p)"
proof -
  show digest: "plan_Digest p = Digest (plan_Content p)"
    using assms(1) by (auto simp: BuildPlan_def bind_res_Inr require_Inr Let_def split: option.splits)
  show "DecodePlan (EncodePlan p) = Inr (stored_plan p)"
    by (rule DecodePlan_EncodePlan [OF assms(2)]) (simp add: digest Digest_def)
qed

text \<open>
  C13. A plan survives its file: what \<open>BuildPlan\<close> returned is read back with the same digest, passes \<open>Plan.Verify\<close>,
  and \<open>Commit\<close> does with the file's plan exactly what it does with the original.
\<close>

theorem plan_file_roundtrip:
  assumes "BuildPlan rd pb url d = Inr p" and "plan_encodable p"
  shows "DecodePlan (EncodePlan p) = Inr (stored_plan p) \<and> plan_Digest (stored_plan p) = plan_Digest p \<and>
    Plan_Verify (stored_plan p) = None \<and>
    Commit ce (input\<lparr>ci_Approved := stored_plan p\<rparr>) c = Commit ce (input\<lparr>ci_Approved := p\<rparr>) c"
  using plan_read [OF assms] plan_same [where input = input and p = p] by (simp add: Plan_Verify_None)

theorem plan_file_roundtrip_witness:
  "DecodePlan (EncodePlan cli_plan) = Inr (stored_plan cli_plan) \<and> Plan_Verify (stored_plan cli_plan) = None"
  using plan_file_roundtrip [OF cli_build cli_encodable] by blast

section \<open>A plan and its commit\<close>

lemma parse_plan_args:
  "parse_flags plan_flags [''-declaration'', dp, ''-out'', out] =
     Inr (new_flags [(''declaration'', dp), (''out'', out)] [], [])"
  by (simp add: parse_string_flag plan_flags_def new_flags_def set_string_def del: parse_flags.simps(2))

lemma parse_commit_args:
  "parse_flags (commit_flags pr) [''-plan'', planPath, ''-operation-id'', opid, ''-catalog'', path] =
     Inr (new_flags [(''plan'', planPath), (''operation-id'', opid), (''catalog'', path)] [], [])"
  by (simp add: parse_string_flag commit_flags_def new_flags_def set_string_def del: parse_flags.simps(2))

lemma flag_string_simps [simp]:
  "flag_string (new_flags ((k, v) # kvs) bs) k' = (if k = k' then v else flag_string (new_flags kvs bs) k')"
  by (simp add: flag_string_def new_flags_def)

lemma main_plan:
  assumes "dp \<noteq> []" and "out \<noteq> []" and "PublicBaseURLFromEnv (pr_Env pr) = Inr base"
    and "readDeclaration pr ho dp = Inr d"
    and "BuildPlan (Some (process_reader pr)) (Some (HTTPRouteProber_Probe (pr_Routes pr))) base d = Inr p"
    and "pr_WriteFile pr out = None"
  shows "main pr [''plan'', ''-declaration'', dp, ''-out'', out] ho =
    succeed [] (ho\<lparr>ho_Files := (ho_Files ho)(out \<mapsto> EncodePlan p)\<rparr>)"
  using assms by (simp add: main_def runPlan_def with_flags_def parse_plan_args writePlan_def
      del: parse_flags.simps)

lemma main_commit:
  assumes "planPath \<noteq> []" "opid \<noteq> []" "path \<noteq> []" and "ReadFile pr ho planPath = Inr encoded"
    and "DecodePlan encoded = Inr approved" and "PublicBaseURLFromEnv (pr_Env pr) = Inr base"
  shows "main pr [''commit'', ''-plan'', planPath, ''-operation-id'', opid, ''-catalog'', path] ho =
    commit_catalog pr (commit_request pr approved opid base) path ho"
  using assms by (simp add: main_def runCommit_def with_flags_def parse_commit_args Let_def del: parse_flags.simps)

text \<open>A plan for the configured origin passes the origin check of \<open>Commit\<close>.\<close>

lemma Commit_expected:
  assumes "pc_PublicBaseURL (plan_Content (ci_Approved input)) = base"
  shows "Commit ce (input\<lparr>ci_ExpectedPublicBaseURL := base\<rparr>) c = Commit ce (input\<lparr>ci_ExpectedPublicBaseURL := []\<rparr>) c"
proof -
  let ?i = "input\<lparr>ci_ExpectedPublicBaseURL := base\<rparr>" and ?j = "input\<lparr>ci_ExpectedPublicBaseURL := []\<rparr>"
  have sel: "ci_Approved ?i = ci_Approved ?j" "ci_Reader ?i = ci_Reader ?j" "ci_Prober ?i = ci_Prober ?j"
    "ci_OperationID ?i = ci_OperationID ?j" by simp_all
  have pre: "precheck ?i = precheck ?j" using assms by (simp add: precheck_def Let_def fail_if_def)
  have batch: "batch_of ?i = batch_of ?j" by (simp add: batch_of_def fun_eq_iff)
  have re: "recheck_commit ce ?i c = recheck_commit ce ?j c" unfolding recheck_commit_def Let_def sel batch ..
  have "locked_commit ce ?i c = locked_commit ce ?j c" unfolding locked_commit_def sel re ..
  then show ?thesis by (simp only: Commit_def pre)
qed

text \<open>
  C2. From declaration to catalog by two commands and the plan file between them: with storage and routes as they
  were, a free lock, a ready catalog and an unused operation ID, \<open>plan -out\<close> and then \<open>commit\<close> of that file both end
  with status 0, and the catalog has gained exactly the planned Publications.
\<close>

theorem plan_then_commit:
  assumes "PublicBaseURLFromEnv (pr_Env pr) = Inr base" and "NormalizePublicBaseURL base = Inr base"
    and "readDeclaration pr ho dp = Inr d"
    and "BuildPlan (Some (process_reader pr)) (Some (HTTPRouteProber_Probe (pr_Routes pr))) base d = Inr p"
    and "plan_encodable p" and "\<And>k content. ReadObject (process_reader pr) k = Inr content \<Longrightarrow> \<not> negative (oc_Size content)"
    and "dp \<noteq> []" "out \<noteq> []" "opid \<noteq> []" "path \<noteq> []"
    and "pr_WriteFile pr out = None" "pr_ReadFile pr out = None" "pr_Stdout pr = None"
    and "consistent (db_schema (ho_Catalogs ho path))"
    and "opid \<notin> op_operation_id ` set (adoption_operations (db_schema (ho_Catalogs ho path)))"
    and "set (map (\<lambda>p. prj_Prefix (pd_Project p)) (dc_Publications d)) \<inter> prw_prefix ` set (projects (db_schema (ho_Catalogs ho path))) = {}"
    and "set (map pd_Path (dc_Publications d)) \<inter> pub_path ` set (publications (db_schema (ho_Catalogs ho path))) = {}"
    and "willing (process_commit pr path (ho_Catalogs ho path))
      (draws_batch (adoptProjects (pc_Publications (plan_Content p)))) (db_schema (ho_Catalogs ho path))"
  shows "let (planned, ho1) = main pr [''plan'', ''-declaration'', dp, ''-out'', out] ho;
      (committed, ho2) = main pr [''commit'', ''-plan'', out, ''-operation-id'', opid, ''-catalog'', path] ho1
    in en_Code planned = 0 \<and> en_Code committed = 0 \<and> ho_Files ho2 = (ho_Files ho)(out \<mapsto> EncodePlan p) \<and>
       mset (accepted (db_schema (ho_Catalogs ho2 path))) =
         mset (accepted (db_schema (ho_Catalogs ho path))) + mset (offered_plan (pc_Publications (plan_Content p)))"
proof -
  let ?ho1 = "ho\<lparr>ho_Files := (ho_Files ho)(out \<mapsto> EncodePlan p)\<rparr>" and ?db = "ho_Catalogs ho path"
  let ?c = "db_schema ?db" and ?ce = "process_commit pr path ?db"
  let ?input = "commit_request pr p opid []"
  from BuildPlan_Inr [OF assms(4)] have pl: "NormalizePublicBaseURL base = Inr (pc_PublicBaseURL (plan_Content p))"
    "pc_Declaration (plan_Content p) = d" by metis+
  then have url: "pc_PublicBaseURL (plan_Content p) = base" using assms(2) by simp
  have "\<exists>r c'. Commit ?ce ?input ?c = (Inr \<lparr>cmr_Result = r, cmr_Replayed = False\<rparr>, c')"
    by (rule Commit_succeeds [OF assms(4)]) (use assms url in \<open>simp_all add: commit_request_def\<close>)
  then obtain r c' where run: "Commit ?ce ?input ?c = (Inr \<lparr>cmr_Result = r, cmr_Replayed = False\<rparr>, c')" by blast
  have same: "Commit ?ce (commit_request pr (stored_plan p) opid base) ?c = Commit ?ce ?input ?c"
  proof -
    have "Commit ?ce (commit_request pr (stored_plan p) opid base) ?c = Commit ?ce (commit_request pr (stored_plan p) opid []) ?c"
      using Commit_expected [of "commit_request pr (stored_plan p) opid []" base ?ce ?c] url by (simp add: commit_request_def)
    moreover have "Commit ?ce (commit_request pr (stored_plan p) opid []) ?c = Commit ?ce ?input ?c"
      using plan_same [where input = ?input and p = p] by (simp add: commit_request_def)
    ultimately show ?thesis by simp
  qed
  have plan: "main pr [''plan'', ''-declaration'', dp, ''-out'', out] ho = succeed [] ?ho1"
    by (rule main_plan) (use assms in simp_all)
  have "ReadFile pr ?ho1 out = Inr (EncodePlan p)" using assms(12) by (simp add: ReadFile_def)
  then have commit: "main pr [''commit'', ''-plan'', out, ''-operation-id'', opid, ''-catalog'', path] ?ho1 =
      commit_catalog pr (commit_request pr (stored_plan p) opid base) path ?ho1"
    by (rule main_commit [rotated 3]) (use assms plan_read [OF assms(4,5)] in simp_all)
  have accepted: "mset (accepted c') = mset (accepted ?c) + mset (offered_plan (pc_Publications (plan_Content p)))"
    using Commit_committed [OF run assms(14)] assms(4) pl(2) url by (force simp: commit_request_def)
  show ?thesis
    unfolding plan succeed_def split_beta Let_def fst_conv snd_conv commit commit_catalog_def
    using same run accepted assms(13) by (simp add: writeIndentedJSON_def put_catalog_def succeed_def)
qed

theorem plan_then_commit_witness:
  "let (planned, ho1) = main cli_process [''plan'', ''-declaration'', ''d'', ''-out'', ''p''] cli_host;
       (committed, ho2) = main cli_process [''commit'', ''-plan'', ''p'', ''-operation-id'', ''o'', ''-catalog'', ''c''] ho1
   in en_Code planned = 0 \<and> en_Code committed = 0 \<and>
      mset (accepted (db_schema (ho_Catalogs ho2 ''c''))) = mset (offered_plan [cli_planned])"
proof -
  have reader: "process_reader cli_process = ex_reader" by (simp add: process_reader_def)
  have "draws_batch (adoptProjects [cli_planned]) = 5"
    by (simp add: cli_planned_def adoptProjects_def draws_batch_def draws_project_def)
  then have willing: "willing (process_commit cli_process ''c'' (ho_Catalogs cli_host ''c''))
      (draws_batch (adoptProjects (pc_Publications (plan_Content cli_plan)))) (db_schema (ho_Catalogs cli_host ''c''))"
    using ex_willing by (simp add: willing_def process_commit_def cli_lock_free cli_opens)
  have tables: "adoption_operations empty_catalog = []" "projects empty_catalog = []" "publications empty_catalog = []"
    "accepted empty_catalog = []"
    by (simp_all add: empty_catalog_def no_publications_no_accepted)
  show ?thesis
    using plan_then_commit [of cli_process ex_base cli_host "''d''" ex_declaration cli_plan "''p''" "''o''" "''c''"]
      cli_base ex_base_normal cli_declaration cli_build cli_encodable ex_sizes willing ex_consistent_empty
    by (simp add: reader tables Let_def split_beta)
qed

end
