(* ===== verification/Seed_Catalog.thy ===== *)
theory Seed_Catalog
  imports Command_Outcome
begin

text \<open>
  \<open>tools/seedcatalog/main.go\<close>: the fixture of the browser tests. It starts a new catalog, migrates it, adopts a fixed
  batch, inserts an empty Project beside the adoption and records a fixed observation. The environments of its
  three writes are parameters, as is whether the old files could be removed.
\<close>

section \<open>The batch\<close>

definition seed_object :: "string \<Rightarrow> string \<Rightarrow> int64 \<Rightarrow> string \<Rightarrow> string \<Rightarrow> string \<Rightarrow> char \<Rightarrow> adopted_object" where
  "seed_object key rel sz etag modified ctype digit =
     \<lparr>ao_Key = key, ao_RelativePath = rel, ao_Size = sz, ao_ETag = CHR 0x22 # etag @ [CHR 0x22], ao_ModifiedAt = modified,
      ao_ContentType = ctype, ao_ContentEncoding = [], ao_CacheControl = [], ao_UserMetadata = None,
      ao_SHA256 = replicate 64 digit\<rparr>"

definition seed_report :: adopted_publication where
  "seed_report = \<lparr>ap_Path = ''notes/2026-report'', ap_DisplayName = ''2026 Report'', ap_Description = [],
     ap_EntryPoint = ''notes/2026-report/index.html'', ap_RoutingMode = ''directory_index'',
     ap_ContentChangedAt = ''2026-01-02T03:04:05Z'',
     ap_Objects =
       [(seed_object ''notes/2026-report/index.html'' ''index.html'' 120 ''seed-etag-html'' ''2026-01-02T03:04:05Z''
           ''text/html'' (CHR ''1''))\<lparr>ao_UserMetadata := Some [(''source'', ''seed'')]\<rparr>,
        seed_object ''notes/2026-report/style.css'' ''style.css'' 30 ''seed-etag-css'' ''2025-12-31T10:00:00Z''
          ''text/css'' (CHR ''2'')]\<rparr>"

definition seed_recap :: adopted_publication where
  "seed_recap = \<lparr>ap_Path = ''notes/quarter-recap'', ap_DisplayName = ''Quarter Recap'', ap_Description = ''Quarterly summary deck'',
     ap_EntryPoint = ''notes/quarter-recap/index.html'', ap_RoutingMode = ''directory_index'',
     ap_ContentChangedAt = ''2026-02-10T09:30:00Z'',
     ap_Objects = [seed_object ''notes/quarter-recap/index.html'' ''index.html'' 150 ''seed-etag-recap'' ''2026-02-10T09:30:00Z''
       ''text/html'' (CHR ''3'')]\<rparr>"

definition seed_legacy :: adopted_publication where
  "seed_legacy = \<lparr>ap_Path = ''archive/legacy-site'', ap_DisplayName = ''Legacy Site'', ap_Description = [],
     ap_EntryPoint = ''archive/legacy-site/index.html'', ap_RoutingMode = ''fallback'',
     ap_ContentChangedAt = ''2025-06-01T12:00:00Z'',
     ap_Objects = [seed_object ''archive/legacy-site/index.html'' ''index.html'' 100 ''seed-etag-legacy'' ''2025-06-01T12:00:00Z''
       ''text/html'' (CHR ''4'')]\<rparr>"

definition seed_snapshot :: adopted_publication where
  "seed_snapshot = \<lparr>ap_Path = ''archive/snapshot'', ap_DisplayName = ''Snapshot'', ap_Description = [],
     ap_EntryPoint = ''archive/snapshot/Report.HTML'', ap_RoutingMode = ''exact_file'',
     ap_ContentChangedAt = ''2025-11-20T08:00:00Z'',
     ap_Objects = [seed_object ''archive/snapshot/Report.HTML'' ''Report.HTML'' 50 ''seed-etag-snapshot'' ''2025-11-20T08:00:00Z''
       ''text/html'' (CHR ''5'')]\<rparr>"

definition seed_batch :: batch_input where
  "seed_batch = \<lparr>bi_OperationID = ''00000000-0000-4000-8000-000000000001'', bi_RequestHash = ''seed-fixture'',
     bi_PlanDigest = ''sha256:seed-fixture'',
     bi_Projects =
       [\<lparr>aj_Prefix = ''notes'', aj_DisplayName = ''Notes'', aj_Description = ''Adopted project notes'',
         aj_Publications = [seed_report, seed_recap]\<rparr>,
        \<lparr>aj_Prefix = ''archive'', aj_DisplayName = ''Archive'', aj_Description = [],
         aj_Publications = [seed_legacy, seed_snapshot]\<rparr>]\<rparr>"

section \<open>The observation\<close>

text \<open>\<open>time.Date(2026, 1, 2, 3, 4, 5, 0, time.UTC)\<close>.\<close>

definition seed_time :: time where "seed_time = 63902919845 * second"

lemma seed_time_text: "FormatRFC3339 seed_time = ''2026-01-02T03:04:05Z''"
  unfolding seed_time_def second_def by code_simp

text \<open>The map from paths to the identities of the result; a missing key reads as the empty string.\<close>

definition publicationID :: "adoption_result \<Rightarrow> string \<Rightarrow> string" where
  "publicationID r path = (case map_of (rev (concat (map (\<lambda>j. map (\<lambda>p. (pr_PublicationPath p, pr_PublicationID p))
       (jr_Publications j)) (ar_Projects r)))) path of None \<Rightarrow> [] | Some pid \<Rightarrow> pid)"

definition seed_observed :: "string \<Rightarrow> string \<Rightarrow> int64 \<Rightarrow> string \<Rightarrow> publication_observation_record" where
  "seed_observed pid state sz detail =
     \<lparr>por_PublicationID = pid, por_State = state, por_ObservedSize = Some sz, por_StatusDetail = detail\<rparr>"

definition seed_observation :: "(string \<Rightarrow> string) \<Rightarrow> observation_record" where
  "seed_observation pid =
     \<lparr>oor_ObservedAt = seed_time, oor_MutationLock = LockNone, oor_TotalBytes = 540, oor_AcceptedBytes = 450,
      oor_UnclaimedBytes = 90, oor_UnclaimedKeys = [''scratch/orphan.bin''],
      oor_Publications =
        [seed_observed (pid ''notes/2026-report'') StateInSync 150 [],
         seed_observed (pid ''notes/quarter-recap'') StateDrifted 400 ''index.html content changed'',
         seed_observed (pid ''archive/legacy-site'') StateMissing 0 ''no objects found under archive/legacy-site'',
         seed_observed (pid ''archive/snapshot'') StateInSync 50 []]\<rparr>"

section \<open>The tool\<close>

record seed_process =
  sd_Process :: process
  sd_Removes :: bool
  sd_Commit :: env
  sd_OpenEmpty :: "error option"
  sd_Insert :: env
  sd_CloseEmpty :: "error option"
  sd_Record :: env

definition seed_flags :: flag_set where
  "seed_flags = new_flags [(''catalog'', [])] [(''fresh'', True)]"

definition no_catalog :: catalog_file where
  "no_catalog = \<lparr>db_schema = empty_catalog, db_history = None, db_user_version = 0\<rparr>"

text \<open>The empty Project: one statement on a connection of its own.\<close>

definition insert_empty_project :: "env \<Rightarrow> catalog \<Rightarrow> catalog res" where
  "insert_empty_project e c =
     (let (projectID, t) = NewID e \<lparr>tx_cat = c, tx_ids = 0, tx_stmts = 0\<rparr> in
      map_sum (Wrapf ''insert empty project: %v'' []) tx_cat (exec e (insert_project
        \<lparr>prw_id = projectID, prw_prefix = ''empty'', prw_display_name = ''Empty Shelf'', prw_description = ''An empty project'',
         prw_entity_revision = ''seed-revision'', prw_created_at = FormatRFC3339 seed_time,
         prw_updated_at = FormatRFC3339 seed_time\<rparr>) t))"

text \<open>The three writes, on the tables of the opened catalog.\<close>

definition seed_rows :: "seed_process \<Rightarrow> catalog \<Rightarrow> error option \<times> catalog" where
  "seed_rows sd c =
     (case CommitAdoptionBatch (sd_Commit sd) seed_batch c of
        (Inl err, c) \<Rightarrow> (Some err, c)
      | (Inr result, c) \<Rightarrow>
          (case sd_OpenEmpty sd of Some err \<Rightarrow> (Some (Wrapf ''open catalog for empty project: %v'' [] err), c) | None \<Rightarrow>
          (case insert_empty_project (sd_Insert sd) c of
             Inl err \<Rightarrow> (Some err, c)
           | Inr c \<Rightarrow>
               (case sd_CloseEmpty sd of Some err \<Rightarrow> (Some (Wrapf ''close catalog: %v'' [] err), c) | None \<Rightarrow>
               (case RecordObservation (sd_Record sd) (seed_observation (publicationID result)) c of
                  (Inl err, c) \<Rightarrow> (Some (Wrapf ''record observation: %v'' [] err), c)
                | (Inr u, c) \<Rightarrow> (None, c))))))"

definition seed_opened :: "seed_process \<Rightarrow> string \<Rightarrow> command" where
  "seed_opened sd path ho =
     (let pr = sd_Process sd; db = ho_Catalogs ho path in
      must_ok 1 ''seedcatalog: %v'' (AcquireLock (pr_Lock pr) path)
     (must_ok 1 ''seedcatalog: %v'' (OpenRuntime (pr_Embedded pr) (pr_Open pr) path db)
        (\<lambda>ho. let (err, c) = seed_rows sd (db_schema db) in
           must_ok 1 ''seedcatalog: %v'' err (succeed (''seeded '' @ path @ [CHR 0x0A]))
             (put_catalog path (db\<lparr>db_schema := c\<rparr>) ho))) ho)"

definition seed_catalog :: "seed_process \<Rightarrow> string \<Rightarrow> command" where
  "seed_catalog sd path ho =
     (let pr = sd_Process sd;
          ((n_from, n_to, err), db) = Migrate (pr_Embedded pr) (pr_SQL pr) (process_migrate pr path) (ho_Catalogs ho path)
      in must_ok 1 ''seedcatalog: %v'' err (seed_opened sd path) (put_catalog path db ho))"

definition seed_main :: "seed_process \<Rightarrow> string list \<Rightarrow> command" where
  "seed_main sd args = with_flags seed_flags args (\<lambda>fs rest ho.
     (let path = flag_string fs ''catalog'' in
      if path = [] then die 2 (Errorf ''seedcatalog: -catalog <path> is required'' []) ho
      else seed_catalog sd path
        (if flag_bool fs ''fresh'' \<and> sd_Removes sd then put_catalog path no_catalog ho else ho)))"

end
