(* ===== verification/Seed_Properties.thy ===== *)
theory Seed_Properties
  imports Seed_Catalog Command_Examples
begin

text \<open>What the fixture of the browser tests puts into a catalog.\<close>

section \<open>The fixture\<close>

text \<open>The Publications of the fixture as the catalog lists them: Projects by prefix, Publications by path.\<close>

definition seed_accepted :: "accepted_publication list" where
  "seed_accepted = map (offered ''archive'') [seed_legacy, seed_snapshot] @ map (offered ''notes'') [seed_report, seed_recap]"

lemma seed_normal: "normalizeBatchProjects (bi_Projects seed_batch) = Inr
    [\<lparr>aj_Prefix = ''archive'', aj_DisplayName = ''Archive'', aj_Description = [], aj_Publications = [seed_legacy, seed_snapshot]\<rparr>,
     \<lparr>aj_Prefix = ''notes'', aj_DisplayName = ''Notes'', aj_Description = ''Adopted project notes'',
      aj_Publications = [seed_report, seed_recap]\<rparr>]"
  by (simp add: seed_batch_def normalizeBatchProjects_def seed_report_def seed_recap_def seed_legacy_def seed_snapshot_def)

lemma seed_adoptable:
  assumes "different_draws e 16"
  shows "adoptable e seed_batch empty_catalog"
  using assms
  by (simp add: adoptable_def Let_def seed_batch_def well_formed_batch_def complete_project_def complete_publication_def
      batch_paths_def storable_def storable_objects_def negative_def draws_batch_def draws_project_def fresh_from_def
      identities_def empty_catalog_def seed_report_def seed_recap_def seed_legacy_def seed_snapshot_def seed_object_def
      routing_modes_def RoutingExactFile_def RoutingDirectoryIndex_def RoutingFallback_def)

lemma insert_empty_project_appends:
  assumes "insert_empty_project e c = Inr c'" and "consistent c"
  shows "consistent c' \<and> appends c c' [] [''empty'']"
proof -
  from assms(1) obtain row where "insert_project row c = Inr c'" "prw_prefix row = ''empty''"
    by (auto simp: insert_empty_project_def exec_def NewID_def map_sum_Inr split: if_splits sum.splits)
  then show ?thesis using insert_project_appends [OF _ assms(2)] by metis
qed

lemma seed_adopts:
  assumes "no_faults e" and "different_draws e 16"
  obtains r c where "CommitAdoptionBatch e seed_batch empty_catalog = (Inr r, c)" "consistent c"
    "accepted c = seed_accepted" "map prw_prefix (projects c) = [''archive'', ''notes'']" "observations c = []"
proof -
  obtain r c where adopt: "CommitAdoptionBatch e seed_batch empty_catalog = (Inr r, c)"
    using CommitAdoptionBatch_succeeds [OF assms(1) ex_consistent_empty seed_adoptable [OF assms(2)]] by blast
  then have "commit_batch e seed_batch empty_catalog = Inr (r, c)"
    by (simp add: CommitAdoptionBatch_def run_tx_Inr)
  then have "consistent c" "accepted c = seed_accepted" "map prw_prefix (projects c) = [''archive'', ''notes'']"
    "observations c = []"
    by (rule commit_batch_Inr [OF _ ex_consistent_empty], simp add: seed_normal seed_accepted_def offered_project_def
        empty_catalog_def accepted_def)+
  then show ?thesis by (rule that [OF adopt])
qed

lemma seed_rows_after:
  assumes adopt: "CommitAdoptionBatch (sd_Commit sd) seed_batch c0 = (Inr r, c1)" and run: "seed_rows sd c0 = (err, c)"
  obtains (adopted) "err \<noteq> None" "c = c1"
  | (inserted) c2 where "insert_empty_project (sd_Insert sd) c1 = Inr c2"
      "(err \<noteq> None \<and> c = c2) \<or>
       (err = None \<and> RecordObservation (sd_Record sd) (seed_observation (publicationID r)) c2 = (Inr (), c))"
proof (cases "sd_OpenEmpty sd = None \<and> (\<exists>c2. insert_empty_project (sd_Insert sd) c1 = Inr c2)")
  case False
  then consider e where "sd_OpenEmpty sd = Some e" | e where "sd_OpenEmpty sd = None" "insert_empty_project (sd_Insert sd) c1 = Inl e"
    by (cases "insert_empty_project (sd_Insert sd) c1") auto
  then have "\<exists>e. Some e = err \<and> c1 = c" by cases (use run in \<open>simp_all add: seed_rows_def adopt\<close>, blast+)
  then show ?thesis using adopted by blast
next
  case True
  then obtain c2 where c2: "sd_OpenEmpty sd = None" "insert_empty_project (sd_Insert sd) c1 = Inr c2" by blast
  obtain x c3 where rec: "RecordObservation (sd_Record sd) (seed_observation (publicationID r)) c2 = (x, c3)" by fastforce
  have "c3 = c2" if "x = Inl e" for e
    using recording.failure [of "(sd_Record sd, seed_observation (publicationID r))" c2 e c3] rec that by simp
  note steps = seed_rows_def adopt c2 rec this
  consider e where "sd_CloseEmpty sd = Some e" | e where "sd_CloseEmpty sd = None" "x = Inl e" | "sd_CloseEmpty sd = None" "x = Inr ()"
    by (cases "sd_CloseEmpty sd"; cases x) auto
  then have "(\<exists>e. Some e = err \<and> c2 = c) \<or> (err = None \<and> RecordObservation (sd_Record sd) (seed_observation (publicationID r)) c2 = (Inr (), c))"
    by cases (use run in \<open>simp_all add: steps, blast+\<close>)
  then show ?thesis by (intro inserted [OF c2(2)]) auto
qed

text \<open>
  C25. The fixture of the browser tests: on new tables, with a working driver for the adoption and different
  identities, the batch is always adopted, and whatever happens to the writes after it the catalog is consistent and
  lists exactly the four Publications. Only a run that reports no error has the empty Project and the observation.
\<close>

theorem seed_fixture:
  assumes "no_faults (sd_Commit sd)" and "different_draws (sd_Commit sd) 16" and "seed_rows sd empty_catalog = (err, c)"
  shows "consistent c \<and> accepted c = seed_accepted \<and>
    (err = None \<longrightarrow> map prw_prefix (projects c) = [''archive'', ''notes'', ''empty''] \<and>
       (\<exists>pid. observations c = [observation_row_of (sd_Record sd) (seed_observation pid)]))"
proof -
  obtain r c1 where adopt: "CommitAdoptionBatch (sd_Commit sd) seed_batch empty_catalog = (Inr r, c1)"
    and c1: "consistent c1" "accepted c1 = seed_accepted" "map prw_prefix (projects c1) = [''archive'', ''notes'']"
      "observations c1 = []"
    by (rule seed_adopts [OF assms(1,2)])
  show ?thesis
  proof (rule seed_rows_after [OF adopt assms(3)])
    assume "err \<noteq> None" "c = c1"
    then show ?thesis using c1 by simp
  next
    fix c2
    assume ins: "insert_empty_project (sd_Insert sd) c1 = Inr c2"
      and outcome: "(err \<noteq> None \<and> c = c2) \<or>
        (err = None \<and> RecordObservation (sd_Record sd) (seed_observation (publicationID r)) c2 = (Inr (), c))"
    from insert_empty_project_appends [OF ins c1(1)] have c2: "consistent c2" "accepted c2 = seed_accepted"
      "map prw_prefix (projects c2) = [''archive'', ''notes'', ''empty'']" "observations c2 = []"
      using c1 by (simp_all add: appends_def)
    from outcome show ?thesis
    proof
      assume "err \<noteq> None \<and> c = c2"
      then show ?thesis using c2 by simp
    next
      assume rec: "err = None \<and> RecordObservation (sd_Record sd) (seed_observation (publicationID r)) c2 = (Inr (), c)"
      then have "consistent c \<and> observations c = [observation_row_of (sd_Record sd) (seed_observation (publicationID r))]"
        by (elim conjE RecordObservation_Inr [OF _ c2(1)]) (simp add: c2(4))
      then show ?thesis using RecordObservation_accepted [OF conjunct2 [OF rec] c2(1)] c2 by auto
    qed
  qed
qed

theorem seed_fixture_witness:
  "\<exists>err c. seed_rows \<lparr>sd_Process = cli_process, sd_Removes = True, sd_Commit = ex_env, sd_OpenEmpty = None, sd_Insert = ex_env,
       sd_CloseEmpty = None, sd_Record = ex_env\<rparr> empty_catalog = (err, c) \<and> accepted c = seed_accepted"
proof -
  let ?sd = "\<lparr>sd_Process = cli_process, sd_Removes = True, sd_Commit = ex_env, sd_OpenEmpty = None, sd_Insert = ex_env,
       sd_CloseEmpty = None, sd_Record = ex_env\<rparr>"
  obtain err c where run: "seed_rows ?sd empty_catalog = (err, c)" by fastforce
  have "no_faults (sd_Commit ?sd)" "different_draws (sd_Commit ?sd) 16" by (simp_all add: ex_no_faults ex_different)
  from seed_fixture [OF this run] run show ?thesis by blast
qed

text \<open>The observation of the fixture is none that a scan finds: it has an unclaimed key and no lock.\<close>

lemma seed_observation_no_scan:
  assumes "Scan rd ms now complete = Inr s"
  shows "Record s \<noteq> seed_observation pid"
proof
  assume eq: "Record s = seed_observation pid"
  have "sr_MutationLock s = LockNone" "sr_UnclaimedKeys s \<noteq> []"
    using arg_cong [OF eq, of oor_MutationLock] arg_cong [OF eq, of oor_UnclaimedKeys]
    by (simp_all add: Record_def seed_observation_def)
  moreover from Scan_Inr [OF assms] obtain l where "sr_UnclaimedKeys s = unclaimed_keys l ms"
    "sr_MutationLock s = (if unclaimed_keys l ms \<noteq> [] \<or> anyFinding (sr_Publications s) then LockGlobal else LockNone)"
    by metis
  ultimately show False by (simp add: LockGlobal_def LockNone_def)
qed

end
