(* ===== verification/Spec2Isabelle.thy ===== *)
theory Spec2Isabelle
  imports Adoption_Properties Catalog_Properties Observe_Properties Base_Properties Inventory_Properties Server_Properties Storage_Properties
  Schema_Properties Command_Properties Seed_Properties
begin

text \<open>
  Page Hub: adoption of static Publications into a private catalog and observation of their storage.

  The program. An operator declares a batch of Publications (\<open>internal/adoption/declaration.go\<close>); \<open>BuildPlan\<close>
  (\<open>plan.go\<close>) compares it with the listing of the bucket, reads every declared object, probes the public routes
  (\<open>probe.go\<close>) and writes a plan with a SHA-256 digest; \<open>Commit\<close> (\<open>commit.go\<close>) takes the approved plan, locks the
  catalog (\<open>internal/catalog/lock.go\<close>), answers a repeated operation from its record, plans again, and hands the
  batch to one SQLite transaction (\<open>adopt.go\<close>). The schema comes from embedded migrations that a separate command
  applies and every runtime verifies (\<open>catalog.go\<close>). The manager observes the bucket: \<open>Service\<close>
  (\<open>internal/observe/service.go\<close>) runs one scan at a time, \<open>Run\<close> and \<open>Scan\<close> (\<open>run.go\<close>, \<open>scan.go\<close>) compare the
  accepted manifests with storage, and \<open>observation.go\<close> records the result and reads it back. Its HTTP server
  (\<open>internal/server\<close>) answers authorized requests for the reserved paths from the inventory of the catalog
  (\<open>inventory.go\<close>) and hands all other paths to the public reader. Storage is read through the interface of
  \<open>internal/storage/reader.go\<close>, whose adapter signs its requests (\<open>s3.go\<close>); settings come from
  \<open>internal/config/config.go\<close>. The command line (\<open>cmd/page-hub/main.go\<close>) runs each of these in a process of its own;
  \<open>tools/seedcatalog\<close> fills a catalog for the browser tests.

  The theories, in the order they build on each other.
  \<^item> \<open>Prelude\<close>, \<open>Machine\<close>, \<open>Codec\<close>: errors and results, state machines with the interface of an invariant (locale
    \<open>machine\<close>), text encodings with their laws (locales \<open>codec\<close>, \<open>exact_codec\<close>).
  \<^item> \<open>Go_Strings\<close>, \<open>Go_Time\<close>, \<open>Go_Url\<close>, \<open>Json\<close>, \<open>Json_Struct\<close>, \<open>Sha256\<close>: what the source uses of Go's standard
    library: strings and UTF-8, RFC 3339 times (an instant is nanoseconds since the zero time), \<open>url.Parse\<close> and
    \<open>net.ParseIP\<close>, \<open>encoding/json\<close> with its escaping and its field matching, and the hash. \<open>Go_Time\<close>, \<open>Json\<close> and
    \<open>Storage\<close> interpret the codec locales.
  \<^item> \<open>Storage\<close>: the \<open>Reader\<close> interface as what storage answers during one run, the status classification and
    \<open>CheckCompatibility\<close>. \<open>Config\<close>: \<open>config.go\<close>.
  \<^item> \<open>Declaration\<close>, \<open>Plan\<close>, \<open>Adoption_Commit\<close>: package \<open>internal/adoption\<close>, one definition per function and loop.
  \<^item> \<open>Catalog_Store\<close>: the tables of the migrations as lists of rows, the constraints an INSERT checks, the
    deferred foreign key, \<open>NewID\<close>, and transactions. \<open>Catalog_Adopt\<close>: the adoption transaction.
    \<open>Catalog_Observation\<close>: manifests and observations. \<open>Catalog_Lock\<close>: the lock file.
  \<^item> \<open>Catalog_Accepted\<close>: the abstract specification \<open>accepted\<close> of a catalog and the refinement of the transaction;
    \<open>Catalog_Operation\<close>: the contract of every writing operation (locale \<open>catalog_operation\<close>), interpreted for
    \<open>CommitAdoptionBatch\<close>, \<open>RecordObservation\<close>, \<open>Commit\<close> and \<open>Run\<close>; \<open>Catalog_Success\<close> and \<open>Observation_Success\<close>: enough
    for the two transactions to succeed; \<open>Catalog_Reports\<close>: what a result says.
  \<^item> \<open>Scan\<close>, \<open>Service\<close>: package \<open>internal/observe\<close>.
  \<^item> \<open>Inventory\<close>: \<open>inventory.go\<close>, the manager's view of the catalog, with the reference definition
    \<open>inventory_view\<close> that the loop over the joined rows is shown to compute.
  \<^item> \<open>Migrations\<close>: \<open>catalog.go\<close>, the embedded migrations, the recorded history, the migration command and the
    verification of a runtime; \<open>catalog_at ms k\<close> is a catalog that has exactly the first \<open>k\<close> of the migrations \<open>ms\<close>.
  \<^item> \<open>Http\<close>, \<open>Http_Time\<close>: headers, \<open>path.Clean\<close>, redirects and HTTP dates. \<open>S3_Sign\<close>: \<open>s3.go\<close> (bucket address,
    Signature Version 4, connectivity check). \<open>S3_Address\<close>: addresses survive \<open>url.String\<close> and \<open>url.Parse\<close>.
    \<open>S3_Reader\<close>: \<open>reader.go\<close>, with the contract of a paginated provider (locale \<open>pager\<close>). \<open>S3_Test\<close>:
    \<open>s3test/server.go\<close>. \<open>S3_Exchange\<close>: that bucket is a \<open>pager\<close>, and what the reader gets from it.
  \<^item> \<open>Manager\<close>, \<open>Preview\<close>, \<open>Server\<close>: package \<open>internal/server\<close>; a handler returns its response (\<open>None\<close> if it
    panics) and the calls it made.
  \<^item> \<open>Plan_File\<close>: plan and declaration files. \<open>Flags\<close>: package \<open>flag\<close>. \<open>Catalog_Files\<close>: the lock as one process sees it,
    the catalog's directory and data source name. \<open>Schedule\<close>: the loop of \<open>Service.Start\<close> over a list of events.
  \<^item> \<open>Command\<close>: \<open>main.go\<close>. A \<open>host\<close> has the files and, per path, the catalog (a \<open>database\<close> whose schema part is the
    tables of \<open>Catalog_Store\<close>); a \<open>process\<close> has what surrounds one run; \<open>main\<close> maps the arguments and a host to the
    \<open>ending\<close> (exit status, output, what was listened on and served) and the host left behind. \<open>Command_Outcome\<close>: case
    rules for its combinators, and the five ways a run can end. \<open>Seed_Catalog\<close>: the seed tool, a process of the same kind.
  \<^item> \<open>End_To_End\<close>, \<open>History\<close>: adoption followed by observation, and arbitrary histories of calls.
  \<^item> \<open>Examples\<close> and the \<open>_Properties\<close> theories: concrete inputs, the properties of each package and their
    instances; this theory has those that span packages.

  What the environment decides is an argument: the random bytes, the clock and which statement fails in the
  driver (\<open>env\<close>), whether the lock is free and the catalog opens (\<open>commit_env\<close>), what storage answers (\<open>reader\<close>), what
  a route answers (\<open>prober\<close>, the HTTP client of \<open>HTTPRouteProber_Probe\<close>), what the S3 provider answers (\<open>s3_client\<close>),
  the decoder of its XML, the iteration order of Go maps (\<open>map_order\<close>), the Unicode case table, what running a
  migration's SQL does (\<open>run\<close>), and what the manager's dependencies answer during a request (\<open>server\<close>). A \<open>reader\<close> answers each key once per run, so
  storage that changes between listing, metadata request and read is covered. Interleavings are explicit: the
  steps of \<open>flock\<close> users and the critical sections of \<open>Refresh\<close> callers are calls of a machine.

  Integers. Object sizes are 64-bit words that wrap as \<open>int64\<close> does; durations saturate in \<open>Sub\<close> and wrap under
  negation. Counts are Go's \<open>int\<close>, as integers with the decoder's range check. The listing loop of the S3 reader has no bound
  in the code: it is a partial function whose value \<open>None\<close> is not returning. The only fuel is the JSON
  decoder's, more than the length of its input, which the round trip shows to be enough.

  Errors keep the format string and arguments of the source and the chain of wrapped errors; they are not
  rendered to text.

  Not modelled: the driver calls that open and query the SQLite file; the transport, TLS and timeouts of HTTP clients
  and of the manager's HTTP server; its graceful shutdown and signals; \<open>http.ServeContent\<close>; contexts other than the
  cancellation of the schedule; log lines; the embedded front end (\<open>web\<close>), which has no code of its own. In \<open>Command\<close> the
  storage adapter is the \<open>reader\<close> it implements, so a run whose listing never ends is outside it, and the manager's
  scans follow one another, as the protocol of theory \<open>Service\<close> makes them.
\<close>

text \<open>
  C5. From adoption to observation: a first adoption that commits on storage that answers steadily is
  followed by scans that find every Publication in sync, no unclaimed key and no mutation lock.
\<close>

theorem first_adoption_is_clean:
  assumes "Commit ce input c = (Inr \<lparr>cmr_Result = r, cmr_Replayed = False\<rparr>, c')"
    and "consistent c" and "publications c = []"
    and "ci_Reader input = Some rd" and "steady rd" and "\<not> env_fault e 0"
  shows "\<exists>ms s. AcceptedManifests e c' = Inr ms \<and> Scan rd ms now complete = Inr s \<and>
    sr_MutationLock s = LockNone \<and> sr_UnclaimedKeys s = [] \<and>
    list_all (\<lambda>p. ps_State p = StateInSync) (sr_Publications s)"
  by (rule first_adoption_scans_clean [OF assms])

lemma ex_steady: "steady ex_reader"
  by (simp add: steady_def ex_listing_def settled_def)
     (simp add: ex_reader_def ex_content_def ex_meta_def modified_of_def IsZero_def ex_year map_ok_def map_utf8_def
       entries_def same_map_def, simp add: ex_time_def second_def)

theorem first_adoption_is_clean_witness:
  "\<exists>r c' ms s. Commit ex_commit_env ex_input empty_catalog = (Inr \<lparr>cmr_Result = r, cmr_Replayed = False\<rparr>, c') \<and>
     AcceptedManifests ex_env c' = Inr ms \<and> Scan ex_reader ms ex_time True = Inr s \<and> sr_MutationLock s = LockNone"
proof -
  obtain r c' where c': "Commit ex_commit_env ex_input empty_catalog = (Inr \<lparr>cmr_Result = r, cmr_Replayed = False\<rparr>, c')"
    using ex_commits by blast
  have "publications empty_catalog = []" "ci_Reader ex_input = Some ex_reader" "\<not> env_fault ex_env 0"
    by (simp_all add: empty_catalog_def ex_input_def ex_env_def)
  then show ?thesis
    using first_adoption_is_clean [OF c' ex_consistent_empty _ _ ex_steady] c' by blast
qed

text \<open>
  C6. Over any history of commits, batches and scans, failing ones among them, the catalog stays
  consistent and only grows: what was accepted, observed and recorded before is still there, in its order.
\<close>

theorem history_is_safe:
  assumes "run_calls store_exec calls c = Some c'" and "consistent c"
  shows "consistent c' \<and> prefix (accepted c) (accepted c') \<and>
    prefix (adoption_operations c) (adoption_operations c') \<and> prefix (observations c) (observations c')"
  using history_extends [OF assms] by (simp add: extends_def)

theorem history_is_safe_witness:
  "\<exists>c'. run_calls store_exec [CommitPlan ex_commit_env ex_input, RunScan ex_env ex_env ex_reader True] ex_catalog = Some c' \<and>
     consistent c' \<and> prefix (accepted ex_catalog) (accepted c')"
  using history_is_safe [of "[CommitPlan ex_commit_env ex_input, RunScan ex_env ex_env ex_reader True]" ex_catalog, OF _ ex_consistent]
  by simp

text \<open>
  C4. An operation that committed can be repeated at any time, whatever the catalog went through since: with
  the same plan digest \<open>Commit\<close> returns the recorded result and changes nothing, with another one it is refused.
\<close>

theorem committed_operation_replays:
  assumes "Commit ce input c = (Inr \<lparr>cmr_Result = r, cmr_Replayed = False\<rparr>, c')" and "consistent c"
    and "recordable_declaration (ci_OperationID input) (pc_Declaration (plan_Content (ci_Approved input)))"
    and "run_calls store_exec calls c' = Some c''"
    and "precheck input' = None" and "ci_OperationID input' = ci_OperationID input"
    and "ce_lock ce' = None" and "ce_open ce' = None" and "\<not> env_fault (ce_find ce') 0"
  shows "Commit ce' input' c'' =
     (if RequestHash (ci_OperationID input) (plan_Digest (ci_Approved input'))
         = RequestHash (ci_OperationID input) (plan_Digest (ci_Approved input))
      then (Inr \<lparr>cmr_Result = r, cmr_Replayed = True\<rparr>, c'')
      else (Inl (Errorf ''operation ID %q was already used with different content'' [ci_OperationID input]), c''))"
  by (rule replays_later [OF assms])

theorem committed_operation_replays_witness:
  "\<exists>r c' c''. Commit ex_commit_env ex_input empty_catalog = (Inr \<lparr>cmr_Result = r, cmr_Replayed = False\<rparr>, c') \<and>
     run_calls store_exec [RunScan ex_env ex_env ex_reader True] c' = Some c'' \<and>
     Commit ex_commit_env ex_input c'' = (Inr \<lparr>cmr_Result = r, cmr_Replayed = True\<rparr>, c'')"
proof -
  obtain r c' where c': "Commit ex_commit_env ex_input empty_catalog = (Inr \<lparr>cmr_Result = r, cmr_Replayed = False\<rparr>, c')"
    using ex_commits by blast
  have "recordable_declaration (ci_OperationID ex_input) (pc_Declaration (plan_Content (ci_Approved ex_input)))"
    by (simp add: recordable_declaration_def ex_input_def valid_utf8_ascii byte_def)
  moreover have "precheck ex_input = None"
    using ex_declaration_valid by (simp add: precheck_None ex_input_def)
  moreover have "ce_lock ex_commit_env = None" "ce_open ex_commit_env = None" "\<not> env_fault (ce_find ex_commit_env) 0"
    by (simp_all add: ex_commit_env_def ex_env_def)
  ultimately show ?thesis
    using c' committed_operation_replays [OF c' ex_consistent_empty _ _ _ refl,
      of "[RunScan ex_env ex_env ex_reader True]" _ ex_commit_env] by simp
qed

end
